theory Spec2Isabelle
  imports Complex_Main "HOL-Library.Sublist" "HOL-Library.Code_Target_Numeral"
begin

section \<open>Job records (shared/schema.ts)\<close>

text \<open>
  The \<open>progress\<close> column holds a JavaScript number. The orchestrators only ever store the
  result of \<open>Math.round\<close>, which is an integer, or, where a quotient by a zero total is
  rounded, \<open>NaN\<close> or \<open>Infinity\<close>.
\<close>

datatype jsnum = Num int | NaN | Infinity

text \<open>
  The row type \<open>Download\<close>. Nullable columns are options; timestamps are milliseconds.
  The column \<open>id\<close> is the field \<open>download_id\<close> here.
\<close>

record Download =
  download_id :: string
  videoId :: string
  title :: string
  thumbnail :: "string option"
  duration :: "string option"
  views :: "string option"
  author :: "string option"
  quality :: string
  format :: string
  status :: string
  progress :: "jsnum option"
  filePath :: "string option"
  fileSize :: "string option"
  itag :: "string option"
  downloadMethod :: string
  videoItag :: "string option"
  audioItag :: "string option"
  createdAt :: "nat option"
  updatedAt :: "nat option"

text \<open>
  \<open>Partial<Download>\<close>: every key of \<open>Download\<close> may be present or not. \<open>None\<close> is an
  absent key, \<open>Some v\<close> a key carrying the value \<open>v\<close>.
\<close>

record DownloadPartial =
  u_id :: "string option"
  u_videoId :: "string option"
  u_title :: "string option"
  u_thumbnail :: "string option option"
  u_duration :: "string option option"
  u_views :: "string option option"
  u_author :: "string option option"
  u_quality :: "string option"
  u_format :: "string option"
  u_status :: "string option"
  u_progress :: "jsnum option option"
  u_filePath :: "string option option"
  u_fileSize :: "string option option"
  u_itag :: "string option option"
  u_downloadMethod :: "string option"
  u_videoItag :: "string option option"
  u_audioItag :: "string option option"
  u_createdAt :: "nat option option"
  u_updatedAt :: "nat option option"

text \<open>The object literal \<open>{}\<close>: no key present.\<close>

definition no_updates :: DownloadPartial where
  "no_updates =
     \<lparr> u_id = None, u_videoId = None, u_title = None, u_thumbnail = None,
       u_duration = None, u_views = None, u_author = None, u_quality = None,
       u_format = None, u_status = None, u_progress = None, u_filePath = None,
       u_fileSize = None, u_itag = None, u_downloadMethod = None, u_videoItag = None,
       u_audioItag = None, u_createdAt = None, u_updatedAt = None \<rparr>"

text \<open>
  \<open>InsertDownload\<close>: the row without \<open>id\<close>, \<open>createdAt\<close> and \<open>updatedAt\<close>. The optional
  text columns may be missing; \<open>downloadMethod\<close> is always given by both request schemas.
\<close>

record InsertDownload =
  i_videoId :: string
  i_title :: string
  i_thumbnail :: "string option"
  i_duration :: "string option"
  i_views :: "string option"
  i_author :: "string option"
  i_quality :: string
  i_format :: string
  i_status :: string
  i_progress :: "jsnum option"
  i_filePath :: "string option"
  i_fileSize :: "string option"
  i_itag :: "string option"
  i_downloadMethod :: string
  i_videoItag :: "string option"
  i_audioItag :: "string option"

section \<open>The in-memory store (server/storage.ts)\<close>

text \<open>\<open>x || null\<close> on an optional string: a missing value and the empty string both give null.\<close>

definition or_null :: "string option \<Rightarrow> string option" where
  "or_null x = (case x of None \<Rightarrow> None | Some s \<Rightarrow> if s = [] then None else Some s)"

type_synonym downloads = "string \<rightharpoonup> Download"

text \<open>
  \<open>createDownload\<close>: \<open>newId\<close> is the value \<open>randomUUID()\<close> returns and \<open>now\<close> the value of
  \<open>new Date()\<close>.
\<close>

definition createDownload :: "string \<Rightarrow> nat \<Rightarrow> InsertDownload \<Rightarrow> downloads \<Rightarrow> Download \<times> downloads" where
  "createDownload newId now ins ds =
     (let download =
        \<lparr> download_id = newId, videoId = i_videoId ins, title = i_title ins,
          thumbnail = or_null (i_thumbnail ins), duration = or_null (i_duration ins),
          views = or_null (i_views ins), author = or_null (i_author ins),
          quality = i_quality ins, format = i_format ins, status = i_status ins,
          progress = i_progress ins, filePath = or_null (i_filePath ins),
          fileSize = or_null (i_fileSize ins), itag = or_null (i_itag ins),
          downloadMethod = i_downloadMethod ins, videoItag = i_videoItag ins,
          audioItag = i_audioItag ins, createdAt = Some now, updatedAt = Some now \<rparr>
      in (download, ds(newId \<mapsto> download)))"

definition getDownload :: "string \<Rightarrow> downloads \<Rightarrow> Download option" where
  "getDownload i ds = ds i"

text \<open>One key of the spread \<open>{...existing, ...updates}\<close>: a present key overrides.\<close>

definition override :: "'a \<Rightarrow> 'a option \<Rightarrow> 'a" where
  "override old new = (case new of None \<Rightarrow> old | Some v \<Rightarrow> v)"

definition spread :: "Download \<Rightarrow> DownloadPartial \<Rightarrow> Download" where
  "spread existing updates =
     \<lparr> download_id = override (download_id existing) (u_id updates),
       videoId = override (videoId existing) (u_videoId updates),
       title = override (title existing) (u_title updates),
       thumbnail = override (thumbnail existing) (u_thumbnail updates),
       duration = override (duration existing) (u_duration updates),
       views = override (views existing) (u_views updates),
       author = override (author existing) (u_author updates),
       quality = override (quality existing) (u_quality updates),
       format = override (format existing) (u_format updates),
       status = override (status existing) (u_status updates),
       progress = override (progress existing) (u_progress updates),
       filePath = override (filePath existing) (u_filePath updates),
       fileSize = override (fileSize existing) (u_fileSize updates),
       itag = override (itag existing) (u_itag updates),
       downloadMethod = override (downloadMethod existing) (u_downloadMethod updates),
       videoItag = override (videoItag existing) (u_videoItag updates),
       audioItag = override (audioItag existing) (u_audioItag updates),
       createdAt = override (createdAt existing) (u_createdAt updates),
       updatedAt = override (updatedAt existing) (u_updatedAt updates) \<rparr>"

text \<open>
  \<open>updateDownload\<close>: returns the updated row, or \<open>None\<close> for \<open>undefined\<close>, and the new map.
  \<open>now\<close> is the value of \<open>new Date()\<close>; the literal writes \<open>updatedAt\<close> after both spreads.
\<close>

definition updateDownload :: "nat \<Rightarrow> string \<Rightarrow> DownloadPartial \<Rightarrow> downloads \<Rightarrow> Download option \<times> downloads" where
  "updateDownload now i updates ds =
     (case ds i of
        None \<Rightarrow> (None, ds)
      | Some existing \<Rightarrow>
          (let updated = (spread existing updates)\<lparr>updatedAt := Some now\<rparr>
           in (Some updated, ds(i \<mapsto> updated))))"

definition deleteDownload :: "string \<Rightarrow> downloads \<Rightarrow> bool \<times> downloads" where
  "deleteDownload i ds = (ds i \<noteq> None, ds(i := None))"

definition clearDownloads :: "downloads \<Rightarrow> downloads" where
  "clearDownloads ds = Map.empty"

text \<open>A job as the download endpoint creates it, used in the examples below.\<close>

definition sample_insert :: InsertDownload where
  "sample_insert =
     \<lparr> i_videoId = ''v1'', i_title = ''clip'', i_thumbnail = None, i_duration = None,
       i_views = None, i_author = None, i_quality = ''720p'', i_format = ''mp4'',
       i_status = ''pending'', i_progress = Some (Num 0), i_filePath = None,
       i_fileSize = None, i_itag = Some ''22'', i_downloadMethod = ''progressive'',
       i_videoItag = None, i_audioItag = None \<rparr>"

definition sample_job :: Download where
  "sample_job = fst (createDownload ''job1'' 1 sample_insert Map.empty)"

definition sample_store :: downloads where
  "sample_store = snd (createDownload ''job1'' 1 sample_insert Map.empty)"

section \<open>JavaScript helpers\<close>

text \<open>\<open>s.includes(sub)\<close> and \<open>s.startsWith(p)\<close> on strings.\<close>

definition includes_str :: "string \<Rightarrow> string \<Rightarrow> bool" where
  "includes_str s sub = sublist sub s"

definition startsWith :: "string \<Rightarrow> string \<Rightarrow> bool" where
  "startsWith s p = prefix p s"

text \<open>\<open>x || d\<close> on an optional string: \<open>undefined\<close> and the empty string are falsy.\<close>

definition or_default :: "string option \<Rightarrow> string \<Rightarrow> string" where
  "or_default x d = (case x of None \<Rightarrow> d | Some s \<Rightarrow> if s = [] then d else s)"

text \<open>\<open>n.toString()\<close> for a non-negative integer.\<close>

fun show_nat :: "nat \<Rightarrow> string" where
  "show_nat n =
     (if n < 10 then [''0123456789'' ! n]
      else show_nat (n div 10) @ [''0123456789'' ! (n mod 10)])"

declare show_nat.simps [simp del]

text \<open>
  A JavaScript number is an IEEE 754 binary64 value. The finite ones are rationals, and
  \<open>/\<close>, \<open>*\<close> and \<open>+\<close> return the exact result rounded to the nearest binary64 value, a
  tie going to the value with the even mantissa. \<open>fl\<close> is that rounding:
  \<open>bit_length n\<close> is the number of binary digits of \<open>n\<close>, \<open>ilog2 x\<close> the exponent \<open>e\<close> with
  \<open>2 ^ e \<le> x < 2 ^ (e + 1)\<close> for a positive \<open>x\<close>, and the binary64 values around \<open>x\<close> are the
  multiples of \<open>2 ^ (e - 52)\<close>, of \<open>2 ^ (- 1074)\<close> in the subnormal range. The operands
  are taken as they are: byte counts are integers below \<open>2 ^ 53\<close> and percentages are
  numbers that ffmpeg reports, and both are binary64 values already. Overflow to \<open>Infinity\<close>
  (beyond \<open>2 ^ 1024\<close>) is out of reach of these values and not part of \<open>fl\<close>; the quotient by
  zero is treated where it is taken.
\<close>

fun bit_length :: "nat \<Rightarrow> nat" where
  "bit_length n = (if n = 0 then 0 else Suc (bit_length (n div 2)))"

declare bit_length.simps [simp del]

definition ilog2 :: "rat \<Rightarrow> int" where
  "ilog2 x =
     (if 1 \<le> x then int (bit_length (nat \<lfloor>x\<rfloor>)) - 1
      else - int (bit_length (nat (\<lceil>1 / x\<rceil> - 1))))"

text \<open>The nearest integer, a tie going to the even one.\<close>

definition round_even :: "rat \<Rightarrow> int" where
  "round_even y =
     (let f = \<lfloor>y\<rfloor>; r = y - of_int f
      in if r < 1 / 2 then f else if 1 / 2 < r then f + 1 else if even f then f else f + 1)"

definition fl :: "rat \<Rightarrow> rat" where
  "fl x =
     (if x = 0 then 0
      else let q = max (ilog2 \<bar>x\<bar> - 52) (- 1074)
           in if 0 \<le> q then of_int (round_even (x / 2 ^ nat q)) * 2 ^ nat q
              else of_int (round_even (x * 2 ^ nat (- q))) / 2 ^ nat (- q))"

text \<open>\<open>a / b\<close> for \<open>b\<close> other than 0, \<open>a * b\<close> and \<open>a + b\<close> on numbers.\<close>

definition js_div :: "rat \<Rightarrow> rat \<Rightarrow> rat" where
  "js_div a b = fl (a / b)"

definition js_mul :: "rat \<Rightarrow> rat \<Rightarrow> rat" where
  "js_mul a b = fl (a * b)"

definition js_add :: "rat \<Rightarrow> rat \<Rightarrow> rat" where
  "js_add a b = fl (a + b)"

text \<open>\<open>Math.round\<close>: the nearest integer, a half rounding up.\<close>

definition math_round :: "rat \<Rightarrow> int" where
  "math_round x = \<lfloor>x + 1 / 2\<rfloor>"

text \<open>The label \<open>`${Math.round(bytes / (1024 * 1024))} MB`\<close>.\<close>

definition mb_label :: "nat \<Rightarrow> string" where
  "mb_label bytes = show_nat (nat (math_round (js_div (of_nat bytes) (1024 * 1024)))) @ '' MB''"

text \<open>\<open>Array.from(new Set(xs))\<close>: the elements in the order of their first occurrence.\<close>

definition array_from_set :: "'a list \<Rightarrow> 'a list" where
  "array_from_set xs = rev (remdups (rev xs))"

section \<open>Stream descriptors (ytdl \<open>videoFormat\<close>)\<close>

text \<open>
  The fields of a catalog entry that the routes read. \<open>itag\<close> is a number (\<open>itag_num\<close>
  here); \<open>contentLength\<close> is a decimal string in the source, held here as the number
  \<open>parseInt\<close> reads from it, \<open>None\<close> when it is missing or empty.
\<close>

record videoFormat =
  itag_num :: nat
  container :: "string option"
  videoCodec :: "string option"
  audioCodec :: "string option"
  qualityLabel :: "string option"
  hasVideo :: bool
  hasAudio :: bool
  audioBitrate :: "nat option"
  contentLength :: "nat option"

text \<open>\<open>f.qualityLabel\<close> as a condition: defined and not empty.\<close>

definition has_label :: "videoFormat \<Rightarrow> bool" where
  "has_label f = (case qualityLabel f of None \<Rightarrow> False | Some q \<Rightarrow> q \<noteq> [])"

text \<open>\<open>f.audioBitrate || 0\<close>.\<close>

definition bitrate_or0 :: "videoFormat \<Rightarrow> nat" where
  "bitrate_or0 f = (case audioBitrate f of None \<Rightarrow> 0 | Some b \<Rightarrow> b)"

text \<open>
  \<open>xs.sort((a, b) => (b.audioBitrate || 0) - (a.audioBitrate || 0))[0]\<close>: the sort is
  stable, so this is the first entry of the highest bitrate, and \<open>undefined\<close> on \<open>[]\<close>.
\<close>

definition sort_by_bitrate :: "videoFormat list \<Rightarrow> videoFormat list" where
  "sort_by_bitrate xs = sort_key (\<lambda>f. - int (bitrate_or0 f)) xs"

definition highest_bitrate :: "videoFormat list \<Rightarrow> videoFormat option" where
  "highest_bitrate xs = (case sort_by_bitrate xs of [] \<Rightarrow> None | f # _ \<Rightarrow> Some f)"

section \<open>The format menu (route \<open>/api/video-info\<close>)\<close>

record FormatOption =
  o_itag :: "string option"
  o_quality :: string
  o_format :: string
  o_container :: string
  o_type :: string
  o_hasAudio :: "bool option"
  o_downloadMethod :: "string option"
  o_videoItag :: "string option"
  o_audioItag :: "string option"
  o_fileSize :: "string option"

definition progressiveVideoFormats :: "videoFormat list \<Rightarrow> videoFormat list" where
  "progressiveVideoFormats formats = filter (\<lambda>f. hasVideo f \<and> hasAudio f \<and> has_label f) formats"

definition videoOnlyFormats :: "videoFormat list \<Rightarrow> videoFormat list" where
  "videoOnlyFormats formats = filter (\<lambda>f. hasVideo f \<and> \<not> hasAudio f \<and> has_label f) formats"

definition audioFormats :: "videoFormat list \<Rightarrow> videoFormat list" where
  "audioFormats formats = filter (\<lambda>f. hasAudio f \<and> \<not> hasVideo f) formats"

definition getResolutionPriority :: "string \<Rightarrow> int" where
  "getResolutionPriority q =
     (if includes_str q ''2160p'' \<or> includes_str q ''4K'' then 9000
      else if includes_str q ''1440p'' \<or> includes_str q ''2K'' then 8000
      else if includes_str q ''1080p'' then 7000
      else if includes_str q ''720p'' then 6000
      else if includes_str q ''480p'' then 5000
      else if includes_str q ''360p'' then 4000
      else if includes_str q ''240p'' then 3000
      else if includes_str q ''144p'' then 2000
      else 1000)"

text \<open>The labels \<open>.filter(f => f.qualityLabel).map(f => f.qualityLabel!)\<close> of a list.\<close>

definition labels_of :: "videoFormat list \<Rightarrow> string list" where
  "labels_of fs = concat (map (\<lambda>f. case qualityLabel f of None \<Rightarrow> [] | Some q \<Rightarrow> if q = [] then [] else [q]) fs)"

text \<open>The comparator is \<open>priority(b) - priority(a)\<close>: a stable sort, highest priority first.\<close>

definition allVideoQualities :: "videoFormat list \<Rightarrow> string list" where
  "allVideoQualities formats =
     sort_key (\<lambda>q. - getResolutionPriority q)
       (array_from_set (labels_of (progressiveVideoFormats formats @ videoOnlyFormats formats)))"

text \<open>
  The three chained \<open>find\<close> calls, written once for the progressive and once for the
  video-only list in the source: container mp4 first, then webm, then any.
\<close>

definition findByQuality :: "videoFormat list \<Rightarrow> string \<Rightarrow> videoFormat option" where
  "findByQuality fs q =
     (case find (\<lambda>f. qualityLabel f = Some q \<and> container f = Some ''mp4'') fs of
        Some f \<Rightarrow> Some f
      | None \<Rightarrow>
          (case find (\<lambda>f. qualityLabel f = Some q \<and> container f = Some ''webm'') fs of
             Some f \<Rightarrow> Some f
           | None \<Rightarrow> find (\<lambda>f. qualityLabel f = Some q) fs))"

definition is_aac :: "videoFormat \<Rightarrow> bool" where
  "is_aac f = (case audioCodec f of None \<Rightarrow> False | Some c \<Rightarrow> c \<noteq> [] \<and> includes_str c ''mp4a'')"

definition is_webm_or_opus :: "videoFormat \<Rightarrow> bool" where
  "is_webm_or_opus f =
     (container f = Some ''webm''
      \<or> (case audioCodec f of None \<Rightarrow> False | Some c \<Rightarrow> c \<noteq> [] \<and> includes_str c ''opus''))"

text \<open>
  The choice of \<open>audioFormat\<close> and \<open>outputContainer\<close> for a video-only stream. \<open>None\<close> is a
  \<open>continue\<close>, or an \<open>audioFormat\<close> left \<open>undefined\<close>: nothing is pushed for the quality.
\<close>

definition chooseAudio ::
  "videoFormat list \<Rightarrow> videoFormat list \<Rightarrow> string \<Rightarrow> videoFormat \<Rightarrow> (videoFormat \<times> string) option" where
  "chooseAudio videoOnly audios q videoOnlyFormat =
     (let videoContainer = or_default (container videoOnlyFormat) ''mp4'';
          vCodec = or_default (videoCodec videoOnlyFormat) []
      in if videoContainer = ''mp4'' \<or> startsWith vCodec ''avc1'' then
           (case highest_bitrate (filter is_aac audios) of
              Some audioFormat \<Rightarrow> Some (audioFormat, ''mp4'')
            | None \<Rightarrow>
                (case find (\<lambda>f. qualityLabel f = Some q \<and> container f = Some ''webm'') videoOnly of
                   Some webmVideoFormat \<Rightarrow>
                     (case highest_bitrate (filter is_webm_or_opus audios) of
                        Some audioFormat \<Rightarrow> Some (audioFormat, ''webm'')
                      | None \<Rightarrow> None)
                 | None \<Rightarrow> None))
         else if videoContainer = ''webm'' then
           (case highest_bitrate (filter is_webm_or_opus audios) of
              Some audioFormat \<Rightarrow> Some (audioFormat, ''webm'')
            | None \<Rightarrow> None)
         else None)"

definition size_or0 :: "videoFormat \<Rightarrow> nat" where
  "size_or0 f = (case contentLength f of None \<Rightarrow> 0 | Some n \<Rightarrow> n)"

text \<open>The body of the loop over \<open>allVideoQualities\<close>: the entry pushed for one label, if any.\<close>

definition resolveQuality :: "videoFormat list \<Rightarrow> string \<Rightarrow> FormatOption option" where
  "resolveQuality formats q =
     (case findByQuality (progressiveVideoFormats formats) q of
        Some progressiveFormat \<Rightarrow>
          (let c = or_default (container progressiveFormat) ''mp4''
           in Some \<lparr> o_itag = Some (show_nat (itag_num progressiveFormat)), o_quality = q,
                     o_format = c, o_container = c, o_type = ''video'', o_hasAudio = Some True,
                     o_downloadMethod = Some ''progressive'', o_videoItag = None,
                     o_audioItag = None,
                     o_fileSize = map_option mb_label (contentLength progressiveFormat) \<rparr>)
      | None \<Rightarrow>
          (case findByQuality (videoOnlyFormats formats) q of
             None \<Rightarrow> None
           | Some videoOnlyFormat \<Rightarrow>
               if audioFormats formats = [] then None
               else
                 (case chooseAudio (videoOnlyFormats formats) (audioFormats formats) q videoOnlyFormat of
                    None \<Rightarrow> None
                  | Some (audioFormat, outputContainer) \<Rightarrow>
                      (let totalSize = size_or0 videoOnlyFormat + size_or0 audioFormat
                       in Some \<lparr> o_itag = None, o_quality = q, o_format = outputContainer,
                                 o_container = outputContainer, o_type = ''video'',
                                 o_hasAudio = Some True, o_downloadMethod = Some ''mux'',
                                 o_videoItag = Some (show_nat (itag_num videoOnlyFormat)),
                                 o_audioItag = Some (show_nat (itag_num audioFormat)),
                                 o_fileSize = (if totalSize > 0 then Some (mb_label totalSize) else None) \<rparr>))))"

definition processedVideoFormats :: "videoFormat list \<Rightarrow> FormatOption list" where
  "processedVideoFormats formats = List.map_filter (resolveQuality formats) (allVideoQualities formats)"

text \<open>\<open>arr.filter((format, index, arr) => arr.findIndex(f => f.itag === format.itag) === index)\<close>.\<close>

fun unique_by_itag :: "nat list \<Rightarrow> videoFormat list \<Rightarrow> videoFormat list" where
  "unique_by_itag seen [] = []"
| "unique_by_itag seen (f # fs) =
     (if itag_num f \<in> set seen then unique_by_itag seen fs
      else f # unique_by_itag (itag_num f # seen) fs)"

definition uniqueAudioFormats :: "videoFormat list \<Rightarrow> videoFormat list" where
  "uniqueAudioFormats formats = sort_by_bitrate (unique_by_itag [] (audioFormats formats))"

definition audioOption :: "videoFormat \<Rightarrow> FormatOption" where
  "audioOption f =
     (let actualBitrate = (if bitrate_or0 f = 0 then 128 else bitrate_or0 f);
          label = (if actualBitrate \<ge> 250 then ''320kbps''
                   else if actualBitrate \<ge> 160 then ''192kbps'' else ''128kbps'')
      in \<lparr> o_itag = Some (show_nat (itag_num f)), o_quality = label @ '' (mp3)'',
            o_format = ''mp3'', o_container = ''mp3'', o_type = ''audio'', o_hasAudio = None,
            o_downloadMethod = None, o_videoItag = None, o_audioItag = None,
            o_fileSize = map_option mb_label (contentLength f) \<rparr>)"

definition processedAudioFormats :: "videoFormat list \<Rightarrow> FormatOption list" where
  "processedAudioFormats formats = map audioOption (uniqueAudioFormats formats)"

definition allFormats :: "videoFormat list \<Rightarrow> FormatOption list" where
  "allFormats formats = processedVideoFormats formats @ processedAudioFormats formats"

section \<open>The world of a background download\<close>

text \<open>
  What a background download reads and writes: the store, the files on disk (a path
  mapped to the size of the file there) and the clock that \<open>new Date()\<close> reads.
\<close>

record world =
  jobs :: downloads
  files :: "string \<rightharpoonup> nat"
  clock :: nat

text \<open>\<open>storage.updateDownload(id, updates)\<close> from a route: the returned row is dropped.\<close>

definition storage_update :: "string \<Rightarrow> DownloadPartial \<Rightarrow> world \<Rightarrow> world" where
  "storage_update i updates wd = wd\<lparr>jobs := snd (updateDownload (clock wd) i updates (jobs wd))\<rparr>"

text \<open>\<open>{ status: "failed", progress: 0 }\<close>, the update of every error handler.\<close>

definition fail_job :: "string \<Rightarrow> world \<Rightarrow> world" where
  "fail_job i wd =
     storage_update i (no_updates\<lparr>u_status := Some ''failed'', u_progress := Some (Some (Num 0))\<rparr>) wd"

text \<open>\<open>{ status: "completed", progress: 100, filePath, fileSize }\<close>.\<close>

definition complete_job :: "string \<Rightarrow> string \<Rightarrow> nat \<Rightarrow> world \<Rightarrow> world" where
  "complete_job i path bytes wd =
     storage_update i
       (no_updates\<lparr>u_status := Some ''completed'', u_progress := Some (Some (Num 100)),
          u_filePath := Some (Some path), u_fileSize := Some (Some (mb_label bytes))\<rparr>) wd"

definition set_progress :: "string \<Rightarrow> jsnum \<Rightarrow> world \<Rightarrow> world" where
  "set_progress i p wd = storage_update i (no_updates\<lparr>u_progress := Some (Some p)\<rparr>) wd"

text \<open>\<open>{ progress, fileSize: `${Math.round(total / (1024 * 1024))} MB` }\<close>.\<close>

definition report_progress :: "string \<Rightarrow> jsnum \<Rightarrow> nat \<Rightarrow> world \<Rightarrow> world" where
  "report_progress i p total_bytes wd =
     storage_update i
       (no_updates\<lparr>u_progress := Some (Some p), u_fileSize := Some (Some (mb_label total_bytes))\<rparr>) wd"

definition path_join :: "string \<Rightarrow> string \<Rightarrow> string" where
  "path_join dir name = dir @ ''/'' @ name"

text \<open>\<open>path.join(process.cwd(), "downloads")\<close>, relative to the working directory.\<close>

definition downloadsDir :: string where
  "downloadsDir = ''downloads''"

text \<open>\<open>fs.createWriteStream(p)\<close> creates the file; the size of a temporary file is never read.\<close>

definition createWriteStream :: "string \<Rightarrow> world \<Rightarrow> world" where
  "createWriteStream p wd = wd\<lparr>files := (files wd)(p \<mapsto> 0)\<rparr>"

text \<open>\<open>if (fs.existsSync(p)) fs.unlinkSync(p)\<close>.\<close>

definition unlink_if_exists :: "string \<Rightarrow> world \<Rightarrow> world" where
  "unlink_if_exists p wd = (if files wd p \<noteq> None then wd\<lparr>files := (files wd)(p := None)\<rparr> else wd)"

text \<open>
  The external ffmpeg process writes its output file: every event of it carries the size
  of the file found at the output path at that moment, \<open>None\<close> when there is none.
\<close>

definition ffmpeg_output :: "string \<Rightarrow> nat option \<Rightarrow> world \<Rightarrow> world" where
  "ffmpeg_output p sz wd = wd\<lparr>files := (files wd)(p := sz)\<rparr>"

text \<open>\<open>progress.percent || 0\<close>.\<close>

definition percent_or0 :: "rat option \<Rightarrow> rat" where
  "percent_or0 p = (case p of None \<Rightarrow> 0 | Some x \<Rightarrow> x)"

text \<open>
  \<open>Math.round((downloaded / total) * k)\<close>: the quotient and the product are each rounded
  to binary64. A zero total makes the quotient \<open>NaN\<close> (0/0) or \<open>Infinity\<close>, and
  \<open>Math.round\<close> returns it as it is.
\<close>

definition round_fraction :: "nat \<Rightarrow> nat \<Rightarrow> nat \<Rightarrow> jsnum" where
  "round_fraction downloaded total_bytes k =
     (if total_bytes = 0 then (if downloaded = 0 then NaN else Infinity)
      else Num (math_round (js_mul (js_div (of_nat downloaded) (of_nat total_bytes)) (of_nat k))))"

section \<open>The progressive path (\<open>startDownload\<close>)\<close>

text \<open>The local list \<open>audioFormats\<close> of \<open>startDownload\<close>: the audio-style target formats.\<close>

definition audioFormatNames :: "string list" where
  "audioFormatNames = [''webm'', ''m4a'', ''opus'', ''mp4a'', ''aac'', ''mp3'']"

definition audio_only :: "videoFormat \<Rightarrow> bool" where
  "audio_only f = (hasAudio f \<and> \<not> hasVideo f)"

text \<open>
  The selection of \<open>audioFormat\<close>: the exact itag among the audio-only streams, then the
  audio-only stream of the highest bitrate, then any audio-only stream.
\<close>

definition selectAudioFormat :: "videoFormat list \<Rightarrow> string \<Rightarrow> videoFormat option" where
  "selectAudioFormat formats requested_itag =
     (case find (\<lambda>f. show_nat (itag_num f) = requested_itag \<and> hasAudio f \<and> \<not> hasVideo f) formats of
        Some f \<Rightarrow> Some f
      | None \<Rightarrow>
          (case highest_bitrate (filter (\<lambda>f. hasAudio f \<and> \<not> hasVideo f) formats) of
             Some f \<Rightarrow> Some f
           | None \<Rightarrow> find (\<lambda>f. hasAudio f \<and> \<not> hasVideo f) formats))"

text \<open>
  What happens after \<open>startDownload\<close> has registered its handlers is driven by events.
  \<open>StreamProgress downloaded total\<close>, \<open>StreamEnd\<close> and \<open>StreamError\<close> come from the ytdl
  stream, \<open>WriteFinish\<close> and \<open>WriteError\<close> from the write stream it is piped to, the
  \<open>Ffmpeg\<close> events from the mp3 conversion (with \<open>progress.percent\<close>, which may be
  undefined, and the size of the output file). \<open>Tick t\<close> is the clock reaching \<open>t\<close>.
\<close>

datatype event =
    StreamProgress nat nat
  | StreamEnd
  | StreamError
  | WriteFinish
  | WriteError
  | FfmpegProgress "rat option" "nat option"
  | FfmpegEnd "nat option"
  | FfmpegError "nat option"
  | Tick nat

text \<open>
  Where the control of a download last went. \<open>AudioFetch\<close> and \<open>VideoFetch\<close>: the
  handlers of the audio or of the video branch have been registered. \<open>Converting\<close>: the
  \<open>finish\<close> handler awaits ffmpeg. \<open>Settled\<close>: a handler, or the \<open>catch\<close> block, has
  written \<open>completed\<close> or \<open>failed\<close>. \<open>Uncaught\<close>: an \<open>error\<close> event found no listener,
  which Node raises as an uncaught exception. The phase is a record of what happened:
  no handler reads it, and the listeners stay registered whatever it is.
\<close>

datatype phase = AudioFetch | Converting | VideoFetch | Settled | Uncaught

text \<open>The branch of \<open>startDownload\<close> whose listeners are registered, if any.\<close>

datatype branch = NoBranch | AudioBranch | VideoBranch

text \<open>
  A promise is settled once: \<open>resolve\<close> and \<open>reject\<close> act on a pending promise only.
\<close>

datatype promise = Pending | Resolved | Rejected

text \<open>
  The local variables of \<open>startDownload\<close> that its handlers close over. \<open>streamFormat\<close> is
  \<open>audioFormat\<close> in the audio branch and \<open>selectedFormat\<close> in the video branch: the entry
  whose itag the filter of the ytdl stream admits. \<open>conversion\<close> is the promise that the
  \<open>finish\<close> handler awaits, \<open>None\<close> as long as no ffmpeg command has been created.
\<close>

record dl_state =
  dl_world :: world
  dl_phase :: phase
  dl_branch :: branch
  streamFormat :: "videoFormat option"
  isMP3Conversion :: bool
  tempFilepath :: string
  finalFilepath :: string
  totalBytes :: nat
  conversion :: "promise option"

text \<open>
  The \<open>catch\<close> block of \<open>startDownload\<close>: the job is failed. Nothing was started, so no
  stream exists and no listener is registered.
\<close>

definition dl_failed :: "string \<Rightarrow> world \<Rightarrow> dl_state" where
  "dl_failed i wd =
     \<lparr> dl_world = fail_job i wd, dl_phase = Settled, dl_branch = NoBranch, streamFormat = None,
       isMP3Conversion = False, tempFilepath = [], finalFilepath = [], totalBytes = 0,
       conversion = None \<rparr>"

text \<open>
  \<open>startDownload\<close> up to the registration of its handlers. \<open>info\<close> is the result of
  \<open>ytdl.getInfo\<close>: the formats, or \<open>None\<close> when it rejects.
\<close>

definition startDownload ::
  "world \<Rightarrow> string \<Rightarrow> string \<Rightarrow> string \<Rightarrow> videoFormat list option \<Rightarrow> dl_state" where
  "startDownload w0 downloadId requested_itag fmt info =
     (let w1 = storage_update downloadId (no_updates\<lparr>u_status := Some ''downloading''\<rparr>) w0;
          filepath = path_join downloadsDir (downloadId @ ''.'' @ fmt)
      in if fmt \<in> set audioFormatNames then
           (case info of
              None \<Rightarrow> dl_failed downloadId w1
            | Some formats \<Rightarrow>
                (case selectAudioFormat formats requested_itag of
                   None \<Rightarrow> dl_failed downloadId w1
                 | Some audioFormat \<Rightarrow>
                     (let actualContainer = or_default (container audioFormat) fmt;
                          actualFilepath = path_join downloadsDir (downloadId @ ''.'' @ actualContainer);
                          isMP3 = (fmt = ''mp3'');
                          tempPath = (if isMP3
                                      then path_join downloadsDir (downloadId @ ''_temp.'' @ actualContainer)
                                      else actualFilepath);
                          finalPath = (if isMP3 then path_join downloadsDir (downloadId @ ''.mp3'')
                                       else actualFilepath)
                      in \<lparr> dl_world = createWriteStream tempPath w1, dl_phase = AudioFetch,
                            dl_branch = AudioBranch, streamFormat = Some audioFormat,
                            isMP3Conversion = isMP3, tempFilepath = tempPath,
                            finalFilepath = finalPath, totalBytes = 0, conversion = None \<rparr>)))
         else
           (case info of
              None \<Rightarrow> dl_failed downloadId w1
            | Some formats \<Rightarrow>
                (case find (\<lambda>f. show_nat (itag_num f) = requested_itag \<and> hasVideo f) formats of
                   None \<Rightarrow> dl_failed downloadId w1
                 | Some selectedFormat \<Rightarrow>
                     \<lparr> dl_world = createWriteStream filepath w1, dl_phase = VideoFetch,
                       dl_branch = VideoBranch, streamFormat = Some selectedFormat,
                       isMP3Conversion = False, tempFilepath = filepath,
                       finalFilepath = filepath, totalBytes = 0, conversion = None \<rparr>)))"

text \<open>The two error handlers of the audio branch (stream and write stream) are the same.\<close>

definition audio_error :: "string \<Rightarrow> dl_state \<Rightarrow> dl_state" where
  "audio_error i s =
     (let w1 = (if isMP3Conversion s then unlink_if_exists (tempFilepath s) (dl_world s)
                else dl_world s)
      in s\<lparr>dl_world := fail_job i w1, dl_phase := Settled\<rparr>)"

text \<open>The \<open>catch (conversionError)\<close> block.\<close>

definition conversion_failed :: "string \<Rightarrow> dl_state \<Rightarrow> dl_state" where
  "conversion_failed i s =
     s\<lparr>dl_world := fail_job i (unlink_if_exists (tempFilepath s) (dl_world s)), dl_phase := Settled\<rparr>"

text \<open>
  What follows \<open>await new Promise(...)\<close> once ffmpeg has resolved it: \<open>fs.statSync\<close> throws
  when the output file is not there, which takes the control to the \<open>catch\<close> block.
\<close>

definition conversion_done :: "string \<Rightarrow> dl_state \<Rightarrow> dl_state" where
  "conversion_done i s =
     (case files (dl_world s) (finalFilepath s) of
        None \<Rightarrow> conversion_failed i s
      | Some finalSize \<Rightarrow>
          s\<lparr>dl_world := complete_job i (finalFilepath s) finalSize (dl_world s),
             dl_phase := Settled\<rparr>)"

text \<open>\<open>Math.round(75 + (progress.percent || 0) * 0.25)\<close>; 0.25 is a binary64 value.\<close>

definition conversionProgress :: "rat option \<Rightarrow> int" where
  "conversionProgress percent = math_round (js_add 75 (js_mul (percent_or0 percent) (1 / 4)))"

text \<open>
  The listeners of the audio branch: \<open>progress\<close> and \<open>error\<close> on the stream, \<open>error\<close> and
  \<open>finish\<close> on the write stream, and, on the ffmpeg command that the \<open>finish\<close> handler
  creates for an mp3 target, \<open>progress\<close>, \<open>end\<close> and \<open>error\<close>. None of them tests what
  happened before. An event of ffmpeg has a listener only once the command exists; its
  \<open>end\<close> and \<open>error\<close> handlers settle the promise, and the code after the \<open>await\<close> runs
  when that settles a pending promise.
\<close>

definition audio_step :: "string \<Rightarrow> dl_state \<Rightarrow> event \<Rightarrow> dl_state" where
  "audio_step i s e =
     (case e of
        StreamProgress downloaded total_bytes \<Rightarrow>
          s\<lparr>totalBytes := total_bytes,
             dl_world := report_progress i
               (round_fraction downloaded total_bytes (if isMP3Conversion s then 70 else 100)) total_bytes (dl_world s)\<rparr>
      | WriteError \<Rightarrow> audio_error i s
      | StreamError \<Rightarrow> audio_error i s
      | WriteFinish \<Rightarrow>
          (if isMP3Conversion s
           then s\<lparr>dl_world := set_progress i (Num 75) (dl_world s), dl_phase := Converting,
                  conversion := Some Pending\<rparr>
           else s\<lparr>dl_world := complete_job i (finalFilepath s) (totalBytes s) (dl_world s),
                  dl_phase := Settled\<rparr>)
      | FfmpegProgress percent sz \<Rightarrow>
          (case conversion s of
             None \<Rightarrow> s
           | Some p \<Rightarrow>
               s\<lparr>dl_world := set_progress i (Num (conversionProgress percent))
                               (ffmpeg_output (finalFilepath s) sz (dl_world s))\<rparr>)
      | FfmpegEnd sz \<Rightarrow>
          (case conversion s of
             None \<Rightarrow> s
           | Some p \<Rightarrow>
               (let s1 = s\<lparr>dl_world := unlink_if_exists (tempFilepath s)
                                          (ffmpeg_output (finalFilepath s) sz (dl_world s))\<rparr>
                in if p = Pending then conversion_done i (s1\<lparr>conversion := Some Resolved\<rparr>) else s1))
      | FfmpegError sz \<Rightarrow>
          (case conversion s of
             None \<Rightarrow> s
           | Some p \<Rightarrow>
               (let s1 = s\<lparr>dl_world := ffmpeg_output (finalFilepath s) sz (dl_world s)\<rparr>
                in if p = Pending then conversion_failed i (s1\<lparr>conversion := Some Rejected\<rparr>) else s1))
      | _ \<Rightarrow> s)"

text \<open>
  The video branch registers \<open>progress\<close>, \<open>end\<close> and \<open>error\<close> on the stream and nothing on
  the write stream.
\<close>

definition video_step :: "string \<Rightarrow> dl_state \<Rightarrow> event \<Rightarrow> dl_state" where
  "video_step i s e =
     (case e of
        StreamProgress downloaded total_bytes \<Rightarrow>
          s\<lparr>totalBytes := total_bytes,
             dl_world := report_progress i (round_fraction downloaded total_bytes 100) total_bytes (dl_world s)\<rparr>
      | StreamEnd \<Rightarrow>
          s\<lparr>dl_world := complete_job i (finalFilepath s) (totalBytes s) (dl_world s),
             dl_phase := Settled\<rparr>
      | StreamError \<Rightarrow> s\<lparr>dl_world := fail_job i (dl_world s), dl_phase := Settled\<rparr>
      | WriteError \<Rightarrow> s\<lparr>dl_phase := Uncaught\<rparr>
      | _ \<Rightarrow> s)"

text \<open>An event goes to the listeners of the branch that was entered.\<close>

definition dl_step :: "string \<Rightarrow> dl_state \<Rightarrow> event \<Rightarrow> dl_state" where
  "dl_step i s e =
     (case e of
        Tick t \<Rightarrow> s\<lparr>dl_world := (dl_world s)\<lparr>clock := t\<rparr>\<rparr>
      | _ \<Rightarrow>
          (case dl_branch s of
             NoBranch \<Rightarrow> s
           | AudioBranch \<Rightarrow> audio_step i s e
           | VideoBranch \<Rightarrow> video_step i s e))"

text \<open>A background download: \<open>startDownload\<close>, then the events in the order they arrive.\<close>

definition run_download ::
  "world \<Rightarrow> string \<Rightarrow> string \<Rightarrow> string \<Rightarrow> videoFormat list option \<Rightarrow> event list \<Rightarrow> dl_state" where
  "run_download w0 downloadId requested_itag fmt info evs =
     foldl (dl_step downloadId) (startDownload w0 downloadId requested_itag fmt info) evs"

section \<open>The mux path (\<open>startMuxDownload\<close>)\<close>

text \<open>
  The re-derivation of \<open>outputContainer\<close> from the codecs and containers of the two
  formats found under the requested itags.
\<close>

definition deriveOutputContainer :: "videoFormat \<Rightarrow> videoFormat \<Rightarrow> string" where
  "deriveOutputContainer videoFormat audioFormat =
     (let vCodec = or_default (videoCodec videoFormat) [];
          aCodec = or_default (audioCodec audioFormat) []
      in if startsWith vCodec ''avc1'' \<and> includes_str aCodec ''mp4a'' then ''mp4''
         else if container videoFormat = Some ''webm'' \<and> container audioFormat = Some ''webm''
         then ''webm''
         else if includes_str aCodec ''opus'' \<and> startsWith vCodec ''vp9'' then ''webm''
         else ''mp4'')"

definition tempDir :: string where
  "tempDir = path_join downloadsDir ''temp''"

definition videoTempPath :: "string \<Rightarrow> string" where
  "videoTempPath downloadId = path_join tempDir (downloadId @ ''_video.temp'')"

definition audioTempPath :: "string \<Rightarrow> string" where
  "audioTempPath downloadId = path_join tempDir (downloadId @ ''_audio.temp'')"

definition mp4Path :: "string \<Rightarrow> string" where
  "mp4Path downloadId = path_join downloadsDir (downloadId @ ''.mp4'')"

definition webmPath :: "string \<Rightarrow> string" where
  "webmPath downloadId = path_join downloadsDir (downloadId @ ''.webm'')"

text \<open>
  The events of a mux download: those of the video leg and of the audio leg (each a ytdl
  stream piped to a write stream), and those of the ffmpeg mux process.
\<close>

datatype mux_event =
    VideoProgress nat nat
  | VideoFinish
  | VideoError
  | VideoWriteError
  | AudioProgress nat nat
  | AudioFinish
  | AudioError
  | AudioWriteError
  | MuxProgress "rat option" "nat option"
  | MuxEnd "nat option"
  | MuxError "nat option"
  | MuxTick nat

text \<open>
  Where the control of \<open>startMuxDownload\<close> is. \<open>Fetching\<close>: it awaits \<open>Promise.all\<close> of
  the two legs. \<open>Muxing\<close>: it awaits the promise that ffmpeg settles. \<open>MuxCompleted\<close>
  and \<open>MuxFailed\<close>: it has returned, normally or through its \<open>catch\<close> block.
\<close>

datatype mux_phase = Fetching | Muxing | MuxCompleted | MuxFailed

text \<open>
  The local variables of \<open>startMuxDownload\<close> that its handlers close over, the two
  promises of the legs, and whether the streams of the legs (\<open>legsStarted\<close>) and the
  ffmpeg command (\<open>muxStarted\<close>) have been created, that is, whether their listeners
  exist.
\<close>

record mux_state =
  mux_world :: world
  mux_phase :: mux_phase
  mux_finalFilepath :: string
  videoDownloaded :: bool
  audioDownloaded :: bool
  videoBytes :: nat
  audioBytes :: nat
  totalVideoBytes :: nat
  totalAudioBytes :: nat
  legsStarted :: bool
  videoPromise :: promise
  audioPromise :: promise
  muxStarted :: bool

text \<open>
  The \<open>catch\<close> block of \<open>startMuxDownload\<close>. Its removals are wrapped in a \<open>try\<close> of their
  own that swallows what they throw; an \<open>unlinkSync\<close> that fails on a file that exists is
  not part of the model.
\<close>

definition mux_catch :: "string \<Rightarrow> world \<Rightarrow> world" where
  "mux_catch downloadId wd =
     fail_job downloadId
       (unlink_if_exists (webmPath downloadId)
         (unlink_if_exists (mp4Path downloadId)
           (unlink_if_exists (audioTempPath downloadId)
             (unlink_if_exists (videoTempPath downloadId) wd))))"

text \<open>
  The state after an error thrown before any stream was opened: neither the legs nor
  ffmpeg exist.
\<close>

definition mux_failed_early :: "string \<Rightarrow> world \<Rightarrow> mux_state" where
  "mux_failed_early downloadId wd =
     \<lparr> mux_world = mux_catch downloadId wd, mux_phase = MuxFailed, mux_finalFilepath = [],
       videoDownloaded = False, audioDownloaded = False, videoBytes = 0, audioBytes = 0,
       totalVideoBytes = 0, totalAudioBytes = 0, legsStarted = False,
       videoPromise = Pending, audioPromise = Pending, muxStarted = False \<rparr>"

text \<open>
  \<open>startMuxDownload\<close> up to \<open>await Promise.all\<close>. \<open>info\<close> is the result of \<open>ytdl.getInfo\<close>,
  \<open>None\<close> when it rejects. Directories are not part of the model.
\<close>

definition startMuxDownload ::
  "world \<Rightarrow> string \<Rightarrow> string \<Rightarrow> string \<Rightarrow> string \<Rightarrow> videoFormat list option \<Rightarrow> mux_state" where
  "startMuxDownload w0 downloadId vItag aItag clientFormat info =
     (let w1 = storage_update downloadId (no_updates\<lparr>u_status := Some ''downloading''\<rparr>) w0
      in case info of
           None \<Rightarrow> mux_failed_early downloadId w1
         | Some formats \<Rightarrow>
             (case find (\<lambda>f. show_nat (itag_num f) = vItag) formats of
                None \<Rightarrow> mux_failed_early downloadId w1
              | Some videoFormat \<Rightarrow>
                  (case find (\<lambda>f. show_nat (itag_num f) = aItag) formats of
                     None \<Rightarrow> mux_failed_early downloadId w1
                   | Some audioFormat \<Rightarrow>
                       (let outputContainer = deriveOutputContainer videoFormat audioFormat
                        in \<lparr> mux_world = createWriteStream (audioTempPath downloadId)
                                            (createWriteStream (videoTempPath downloadId) w1),
                              mux_phase = Fetching,
                              mux_finalFilepath = path_join downloadsDir (downloadId @ ''.'' @ outputContainer),
                              videoDownloaded = False, audioDownloaded = False,
                              videoBytes = 0, audioBytes = 0,
                              totalVideoBytes = 0, totalAudioBytes = 0, legsStarted = True,
                              videoPromise = Pending, audioPromise = Pending,
                              muxStarted = False \<rparr>))))"

text \<open>
  \<open>Math.round(((videoProgress + audioProgress) / 2) * 80)\<close> with
  \<open>videoProgress = videoBytes / totalVideoBytes\<close> and
  \<open>audioProgress = audioBytes / totalAudioBytes\<close>, each of the five operations rounded to
  binary64; it is only computed for totals above 0.
\<close>

definition overallProgress :: "nat \<Rightarrow> nat \<Rightarrow> nat \<Rightarrow> nat \<Rightarrow> int" where
  "overallProgress vBytes vTotal aBytes aTotal =
     (let videoProgress = js_div (of_nat vBytes) (of_nat vTotal);
          audioProgress = js_div (of_nat aBytes) (of_nat aTotal)
      in math_round (js_mul (js_div (js_add videoProgress audioProgress) 2) 80))"

definition updateProgress :: "string \<Rightarrow> mux_state \<Rightarrow> mux_state" where
  "updateProgress downloadId s =
     (if totalVideoBytes s > 0 \<and> totalAudioBytes s > 0 then
        s\<lparr>mux_world :=
            report_progress downloadId
              (Num (overallProgress (videoBytes s) (totalVideoBytes s) (audioBytes s) (totalAudioBytes s)))
              (totalVideoBytes s + totalAudioBytes s) (mux_world s)\<rparr>
      else s)"

text \<open>
  \<open>Math.round(81 + (progress.percent || 0) * 0.18)\<close>; the literal \<open>0.18\<close> is the binary64
  value nearest to 18/100.
\<close>

definition muxProgress :: "rat option \<Rightarrow> int" where
  "muxProgress percent = math_round (js_add 81 (js_mul (percent_or0 percent) (fl (18 / 100))))"

text \<open>
  What follows \<open>await Promise.all([videoPromise, audioPromise])\<close> once both legs have
  resolved: progress 81 and the start of ffmpeg.
\<close>

definition both_resolved :: "string \<Rightarrow> mux_state \<Rightarrow> mux_state" where
  "both_resolved downloadId s =
     (if mux_phase s = Fetching \<and> videoPromise s = Resolved \<and> audioPromise s = Resolved
      then s\<lparr>mux_world := set_progress downloadId (Num 81) (mux_world s), mux_phase := Muxing,
             muxStarted := True\<rparr>
      else s)"

text \<open>A leg rejects: the pending \<open>Promise.all\<close> rejects and the \<open>catch\<close> block runs, once.\<close>

definition leg_rejected :: "string \<Rightarrow> mux_state \<Rightarrow> mux_state" where
  "leg_rejected downloadId s =
     (if mux_phase s = Fetching
      then s\<lparr>mux_world := mux_catch downloadId (mux_world s), mux_phase := MuxFailed\<rparr>
      else s)"

text \<open>\<open>resolve()\<close> and \<open>reject(error)\<close> in the handlers of a leg.\<close>

definition video_resolve :: "string \<Rightarrow> mux_state \<Rightarrow> mux_state" where
  "video_resolve downloadId s =
     (if videoPromise s = Pending then both_resolved downloadId (s\<lparr>videoPromise := Resolved\<rparr>) else s)"

definition video_reject :: "string \<Rightarrow> mux_state \<Rightarrow> mux_state" where
  "video_reject downloadId s =
     (if videoPromise s = Pending then leg_rejected downloadId (s\<lparr>videoPromise := Rejected\<rparr>) else s)"

definition audio_resolve :: "string \<Rightarrow> mux_state \<Rightarrow> mux_state" where
  "audio_resolve downloadId s =
     (if audioPromise s = Pending then both_resolved downloadId (s\<lparr>audioPromise := Resolved\<rparr>) else s)"

definition audio_reject :: "string \<Rightarrow> mux_state \<Rightarrow> mux_state" where
  "audio_reject downloadId s =
     (if audioPromise s = Pending then leg_rejected downloadId (s\<lparr>audioPromise := Rejected\<rparr>) else s)"

text \<open>
  What follows the \<open>await\<close> of the ffmpeg promise once it has resolved: the temporary
  files are removed, and \<open>fs.statSync\<close> throws when the output file is not there, which
  takes the control to the \<open>catch\<close> block.
\<close>

definition mux_ended :: "string \<Rightarrow> mux_state \<Rightarrow> mux_state" where
  "mux_ended downloadId s =
     (let w1 = unlink_if_exists (audioTempPath downloadId)
                 (unlink_if_exists (videoTempPath downloadId) (mux_world s))
      in case files w1 (mux_finalFilepath s) of
           None \<Rightarrow> s\<lparr>mux_world := mux_catch downloadId w1, mux_phase := MuxFailed\<rparr>
         | Some finalSize \<Rightarrow>
             s\<lparr>mux_world := complete_job downloadId (mux_finalFilepath s) finalSize w1,
                mux_phase := MuxCompleted\<rparr>)"

text \<open>
  The listeners. Those of a leg exist once the legs are started, those of ffmpeg once
  the command is created, and none of them tests what happened before: a \<open>progress\<close>
  handler writes whenever its guard on the totals holds, a \<open>finish\<close> handler sets its
  flag and resolves, an \<open>error\<close> handler rejects. Settling the promise that the function
  awaits (which is the case in the phases \<open>Fetching\<close> and \<open>Muxing\<close>) lets it go on.
\<close>

definition mux_step :: "string \<Rightarrow> mux_state \<Rightarrow> mux_event \<Rightarrow> mux_state" where
  "mux_step downloadId s e =
     (case e of
        VideoProgress downloaded total_bytes \<Rightarrow>
          if legsStarted s
          then updateProgress downloadId (s\<lparr>videoBytes := downloaded, totalVideoBytes := total_bytes\<rparr>)
          else s
      | VideoFinish \<Rightarrow>
          if legsStarted s then video_resolve downloadId (s\<lparr>videoDownloaded := True\<rparr>) else s
      | VideoError \<Rightarrow> if legsStarted s then video_reject downloadId s else s
      | VideoWriteError \<Rightarrow> if legsStarted s then video_reject downloadId s else s
      | AudioProgress downloaded total_bytes \<Rightarrow>
          if legsStarted s
          then updateProgress downloadId (s\<lparr>audioBytes := downloaded, totalAudioBytes := total_bytes\<rparr>)
          else s
      | AudioFinish \<Rightarrow>
          if legsStarted s then audio_resolve downloadId (s\<lparr>audioDownloaded := True\<rparr>) else s
      | AudioError \<Rightarrow> if legsStarted s then audio_reject downloadId s else s
      | AudioWriteError \<Rightarrow> if legsStarted s then audio_reject downloadId s else s
      | MuxProgress percent sz \<Rightarrow>
          if muxStarted s
          then s\<lparr>mux_world := set_progress downloadId (Num (muxProgress percent))
                                 (ffmpeg_output (mux_finalFilepath s) sz (mux_world s))\<rparr>
          else s
      | MuxEnd sz \<Rightarrow>
          if muxStarted s
          then (let s1 = s\<lparr>mux_world := ffmpeg_output (mux_finalFilepath s) sz (mux_world s)\<rparr>
                in if mux_phase s = Muxing then mux_ended downloadId s1 else s1)
          else s
      | MuxError sz \<Rightarrow>
          if muxStarted s
          then (let s1 = s\<lparr>mux_world := ffmpeg_output (mux_finalFilepath s) sz (mux_world s)\<rparr>
                in if mux_phase s = Muxing
                   then s1\<lparr>mux_world := mux_catch downloadId (mux_world s1), mux_phase := MuxFailed\<rparr>
                   else s1)
          else s
      | MuxTick t \<Rightarrow> s\<lparr>mux_world := (mux_world s)\<lparr>clock := t\<rparr>\<rparr>)"

definition run_mux ::
  "world \<Rightarrow> string \<Rightarrow> string \<Rightarrow> string \<Rightarrow> string \<Rightarrow> videoFormat list option \<Rightarrow> mux_event list
     \<Rightarrow> mux_state" where
  "run_mux w0 downloadId vItag aItag clientFormat info evs =
     foldl (mux_step downloadId) (startMuxDownload w0 downloadId vItag aItag clientFormat info) evs"

section \<open>Example inputs\<close>

text \<open>
  A catalog with a 1080p video-only stream in mp4 (AVC) and in webm (VP9) and one
  audio-only stream, in webm (Opus): no AAC audio.
\<close>

definition avc_1080p :: videoFormat where
  "avc_1080p =
     \<lparr> itag_num = 137, container = Some ''mp4'', videoCodec = Some ''avc1.640028'',
       audioCodec = None, qualityLabel = Some ''1080p'', hasVideo = True, hasAudio = False,
       audioBitrate = None, contentLength = Some 52428800 \<rparr>"

definition vp9_1080p :: videoFormat where
  "vp9_1080p =
     \<lparr> itag_num = 248, container = Some ''webm'', videoCodec = Some ''vp9'',
       audioCodec = None, qualityLabel = Some ''1080p'', hasVideo = True, hasAudio = False,
       audioBitrate = None, contentLength = Some 41943040 \<rparr>"

definition opus_audio :: videoFormat where
  "opus_audio =
     \<lparr> itag_num = 251, container = Some ''webm'', videoCodec = None,
       audioCodec = Some ''opus'', qualityLabel = None, hasVideo = False, hasAudio = True,
       audioBitrate = Some 160, contentLength = Some 4194304 \<rparr>"

definition aac_audio :: videoFormat where
  "aac_audio =
     \<lparr> itag_num = 140, container = Some ''mp4'', videoCodec = None,
       audioCodec = Some ''mp4a.40.2'', qualityLabel = None, hasVideo = False, hasAudio = True,
       audioBitrate = Some 128, contentLength = Some 3145728 \<rparr>"

definition progressive_720p :: videoFormat where
  "progressive_720p =
     \<lparr> itag_num = 22, container = Some ''mp4'', videoCodec = Some ''avc1.64001F'',
       audioCodec = Some ''mp4a.40.2'', qualityLabel = Some ''720p'', hasVideo = True,
       hasAudio = True, audioBitrate = Some 192, contentLength = Some 20971520 \<rparr>"

text \<open>The world right after the download endpoint has created \<open>job1\<close>.\<close>

definition sample_world :: world where
  "sample_world = \<lparr> jobs = sample_store, files = Map.empty, clock = 1 \<rparr>"

section \<open>Observations of a job, well-formed events, invariants\<close>

text \<open>The status and the progress of job \<open>i\<close>, \<open>None\<close> when the store has no such job.\<close>

definition job_status :: "world \<Rightarrow> string \<Rightarrow> string option" where
  "job_status wd i = map_option status (jobs wd i)"

definition job_progress :: "world \<Rightarrow> string \<Rightarrow> jsnum option option" where
  "job_progress wd i = map_option progress (jobs wd i)"

text \<open>
  What the collaborators promise about the values of their events: a stream reports a
  positive total and no more than the total as downloaded; ffmpeg reports a percentage
  from 0 to 100. The mux path guards against a zero total itself.
\<close>

definition wf_event :: "event \<Rightarrow> bool" where
  "wf_event e =
     (case e of
        StreamProgress downloaded total_bytes \<Rightarrow> 0 < total_bytes \<and> downloaded \<le> total_bytes
      | FfmpegProgress percent sz \<Rightarrow> 0 \<le> percent_or0 percent \<and> percent_or0 percent \<le> 100
      | _ \<Rightarrow> True)"

definition wf_mux_event :: "mux_event \<Rightarrow> bool" where
  "wf_mux_event e =
     (case e of
        VideoProgress downloaded total_bytes \<Rightarrow> downloaded \<le> total_bytes
      | AudioProgress downloaded total_bytes \<Rightarrow> downloaded \<le> total_bytes
      | MuxProgress percent sz \<Rightarrow> 0 \<le> percent_or0 percent \<and> percent_or0 percent \<le> 100
      | _ \<Rightarrow> True)"

text \<open>
  What they promise about the order of their events, in the progressive path: the stream
  reports no progress after its \<open>end\<close>, nor after the write stream it is piped to has
  finished; the write stream finishes once; ffmpeg reports no progress after its \<open>end\<close>.
  The three flags say which of \<open>end\<close> of the stream, \<open>finish\<close> of the write stream and
  \<open>end\<close> of ffmpeg have been seen. Nothing is asked of what follows an error.
\<close>

fun dl_admits :: "bool \<Rightarrow> bool \<Rightarrow> bool \<Rightarrow> event \<Rightarrow> bool" where
  "dl_admits streamEnded writeFinished ffmpegEnded (StreamProgress d t) = (\<not> streamEnded)"
| "dl_admits streamEnded writeFinished ffmpegEnded WriteFinish = (\<not> writeFinished)"
| "dl_admits streamEnded writeFinished ffmpegEnded (FfmpegProgress p sz) = (\<not> ffmpegEnded)"
| "dl_admits streamEnded writeFinished ffmpegEnded e = True"

definition is_ffmpeg_end :: "event \<Rightarrow> bool" where
  "is_ffmpeg_end e = (case e of FfmpegEnd sz \<Rightarrow> True | _ \<Rightarrow> False)"

fun dl_protocol :: "bool \<Rightarrow> bool \<Rightarrow> bool \<Rightarrow> event list \<Rightarrow> bool" where
  "dl_protocol streamEnded writeFinished ffmpegEnded [] = True"
| "dl_protocol streamEnded writeFinished ffmpegEnded (e # es) =
     (dl_admits streamEnded writeFinished ffmpegEnded e
      \<and> dl_protocol (streamEnded \<or> e = StreamEnd \<or> e = WriteFinish) (writeFinished \<or> e = WriteFinish)
          (ffmpegEnded \<or> is_ffmpeg_end e) es)"

text \<open>
  And in the mux path: a leg reports no progress after its write stream has finished,
  and ffmpeg reports no progress after its \<open>end\<close>.
\<close>

fun mux_admits :: "bool \<Rightarrow> bool \<Rightarrow> bool \<Rightarrow> mux_event \<Rightarrow> bool" where
  "mux_admits videoFinished audioFinished muxEnded (VideoProgress d t) = (\<not> videoFinished)"
| "mux_admits videoFinished audioFinished muxEnded (AudioProgress d t) = (\<not> audioFinished)"
| "mux_admits videoFinished audioFinished muxEnded (MuxProgress p sz) = (\<not> muxEnded)"
| "mux_admits videoFinished audioFinished muxEnded e = True"

definition is_mux_end :: "mux_event \<Rightarrow> bool" where
  "is_mux_end e = (case e of MuxEnd sz \<Rightarrow> True | _ \<Rightarrow> False)"

fun mux_protocol :: "bool \<Rightarrow> bool \<Rightarrow> bool \<Rightarrow> mux_event list \<Rightarrow> bool" where
  "mux_protocol videoFinished audioFinished muxEnded [] = True"
| "mux_protocol videoFinished audioFinished muxEnded (e # es) =
     (mux_admits videoFinished audioFinished muxEnded e
      \<and> mux_protocol (videoFinished \<or> e = VideoFinish) (audioFinished \<or> e = AudioFinish)
          (muxEnded \<or> is_mux_end e) es)"

text \<open>
  \<open>progress_in_range\<close>: the job exists and its progress is an integer from 0 to 100.
  \<open>progress_ok\<close>: moreover it is 100 when the status is \<open>completed\<close>. \<open>progress_exact\<close>:
  moreover it is 100 only when the status is \<open>completed\<close>.
\<close>

definition progress_in_range :: "world \<Rightarrow> string \<Rightarrow> bool" where
  "progress_in_range wd i =
     (case jobs wd i of
        None \<Rightarrow> False
      | Some j \<Rightarrow> (case progress j of Some (Num n) \<Rightarrow> 0 \<le> n \<and> n \<le> 100 | _ \<Rightarrow> False))"

definition progress_ok :: "world \<Rightarrow> string \<Rightarrow> bool" where
  "progress_ok wd i =
     (case jobs wd i of
        None \<Rightarrow> False
      | Some j \<Rightarrow>
          (case progress j of
             Some (Num n) \<Rightarrow> 0 \<le> n \<and> n \<le> 100 \<and> (if status j = ''completed'' then n = 100 else True)
           | _ \<Rightarrow> False))"

definition progress_exact :: "world \<Rightarrow> string \<Rightarrow> bool" where
  "progress_exact wd i =
     (case jobs wd i of
        None \<Rightarrow> False
      | Some j \<Rightarrow>
          (case progress j of
             Some (Num n) \<Rightarrow> 0 \<le> n \<and> n \<le> 100 \<and> ((n = 100) = (status j = ''completed''))
           | _ \<Rightarrow> False))"

text \<open>
  The invariant of a progressive download under the flags of the protocol: a completed
  job has progress 100, and the events that could still write a progress to it are over.
\<close>

definition dl_inv :: "string \<Rightarrow> bool \<Rightarrow> bool \<Rightarrow> bool \<Rightarrow> dl_state \<Rightarrow> bool" where
  "dl_inv i streamEnded writeFinished ffmpegEnded s =
     (progress_ok (dl_world s) i
      \<and> (case dl_branch s of
           NoBranch \<Rightarrow> job_status (dl_world s) i \<noteq> Some ''completed''
         | AudioBranch \<Rightarrow>
             (conversion s \<noteq> None \<longrightarrow> isMP3Conversion s \<and> streamEnded \<and> writeFinished)
             \<and> (job_status (dl_world s) i = Some ''completed''
                  \<longrightarrow> streamEnded \<and> writeFinished \<and> (conversion s \<noteq> None \<longrightarrow> ffmpegEnded))
         | VideoBranch \<Rightarrow> (job_status (dl_world s) i = Some ''completed'' \<longrightarrow> streamEnded)))"

text \<open>
  The invariant of a mux download under the flags of the protocol: the progress stays
  below 100 until the job is completed, a resolved leg has finished, and once the job is
  completed the legs and ffmpeg are over.
\<close>

definition mux_inv :: "string \<Rightarrow> bool \<Rightarrow> bool \<Rightarrow> bool \<Rightarrow> mux_state \<Rightarrow> bool" where
  "mux_inv i videoFinished audioFinished muxEnded s =
     (\<exists>n. job_progress (mux_world s) i = Some (Some (Num n)) \<and> 0 \<le> n
        \<and> videoBytes s \<le> totalVideoBytes s \<and> audioBytes s \<le> totalAudioBytes s
        \<and> (videoPromise s = Resolved \<longrightarrow> videoFinished)
        \<and> (audioPromise s = Resolved \<longrightarrow> audioFinished)
        \<and> (case mux_phase s of
             Fetching \<Rightarrow> job_status (mux_world s) i = Some ''downloading'' \<and> n \<le> 99
           | Muxing \<Rightarrow> job_status (mux_world s) i = Some ''downloading'' \<and> n \<le> 99
                        \<and> videoPromise s = Resolved \<and> audioPromise s = Resolved
           | MuxCompleted \<Rightarrow> job_status (mux_world s) i = Some ''completed'' \<and> n = 100
                        \<and> videoPromise s = Resolved \<and> audioPromise s = Resolved \<and> muxEnded
           | MuxFailed \<Rightarrow> job_status (mux_world s) i = Some ''failed'' \<and> n \<le> 99))"

text \<open>What holds of a mux download without the protocol: the range of the progress.\<close>

definition mux_range :: "string \<Rightarrow> mux_state \<Rightarrow> bool" where
  "mux_range i s =
     (progress_in_range (mux_world s) i
      \<and> videoBytes s \<le> totalVideoBytes s \<and> audioBytes s \<le> totalAudioBytes s)"

text \<open>
  \<open>removed\<close>: neither temporary file and no output file under either extension is on
  disk. \<open>cleaned_up\<close>: moreover the job is failed with progress 0.
\<close>

definition removed :: "string \<Rightarrow> world \<Rightarrow> bool" where
  "removed i wd =
     (files wd (videoTempPath i) = None \<and> files wd (audioTempPath i) = None
      \<and> files wd (mp4Path i) = None \<and> files wd (webmPath i) = None)"

definition cleaned_up :: "string \<Rightarrow> world \<Rightarrow> bool" where
  "cleaned_up i wd =
     (files wd (videoTempPath i) = None \<and> files wd (audioTempPath i) = None
      \<and> files wd (mp4Path i) = None \<and> files wd (webmPath i) = None
      \<and> job_status wd i = Some ''failed'' \<and> job_progress wd i = Some (Some (Num 0)))"

text \<open>
  The events of a mux download that report progress or the time, and those by which a
  leg reports progress.
\<close>

definition is_progress :: "mux_event \<Rightarrow> bool" where
  "is_progress e =
     (case e of VideoProgress d t \<Rightarrow> True | AudioProgress d t \<Rightarrow> True | MuxTick t \<Rightarrow> True
      | _ \<Rightarrow> False)"

definition is_leg_progress :: "mux_event \<Rightarrow> bool" where
  "is_leg_progress e =
     (case e of VideoProgress d t \<Rightarrow> True | AudioProgress d t \<Rightarrow> True | _ \<Rightarrow> False)"

definition no_leg_progress :: "mux_event list \<Rightarrow> bool" where
  "no_leg_progress evs = (filter is_leg_progress evs = [])"

text \<open>The mux download of \<open>job1\<close> for the itags 137 and 251, right after its start.\<close>

definition sample_catalog :: "videoFormat list" where
  "sample_catalog = [avc_1080p, vp9_1080p, opus_audio]"

definition sample_mux_start :: mux_state where
  "sample_mux_start = startMuxDownload sample_world ''job1'' ''137'' ''251'' ''mp4'' (Some sample_catalog)"

text \<open>
  \<open>fetching i audio_open\<close>: the function awaits the two legs, the promise of the video
  leg is pending, that of the audio leg is pending or resolved, and job \<open>i\<close> is in the
  store. \<open>failed_for_good\<close>: the download has failed before ffmpeg was started, the job
  is failed and the files are removed.
\<close>

definition fetching :: "string \<Rightarrow> bool \<Rightarrow> mux_state \<Rightarrow> bool" where
  "fetching i audio_open s =
     (mux_phase s = Fetching \<and> legsStarted s \<and> \<not> muxStarted s \<and> videoPromise s = Pending
      \<and> audioPromise s = (if audio_open then Pending else Resolved)
      \<and> jobs (mux_world s) i \<noteq> None)"

definition failed_for_good :: "string \<Rightarrow> mux_state \<Rightarrow> bool" where
  "failed_for_good i s =
     (mux_phase s = MuxFailed \<and> \<not> muxStarted s \<and> removed i (mux_world s)
      \<and> job_status (mux_world s) i = Some ''failed'')"

text \<open>The same download once both legs have finished and ffmpeg runs.\<close>

definition sample_muxing :: mux_state where
  "sample_muxing = foldl (mux_step ''job1'') sample_mux_start [VideoFinish, AudioFinish]"

section \<open>Properties of the store\<close>

lemma sample_store_job1: "sample_store ''job1'' = Some sample_job"
  by (simp add: sample_store_def sample_job_def createDownload_def Let_def)

lemma sample_job_id: "download_id sample_job = ''job1''"
  by (simp add: sample_job_def createDownload_def Let_def)

text \<open>
  C9, as stated: for every partial-fields map, the row returned by \<open>updateDownload\<close> keeps
  its id. The map \<open>{id: "other"}\<close> is a \<open>Partial<Download>\<close>, and the spread copies it over
  the stored id: the row stays under the key \<open>job1\<close> and its id field reads \<open>other\<close>.
\<close>

theorem updateDownload_id_counterexample:
  "map_option download_id
     (snd (updateDownload 2 ''job1'' (no_updates\<lparr>u_id := Some ''other''\<rparr>) sample_store) ''job1'')
   = Some ''other''
   \<and> map_option download_id (sample_store ''job1'') = Some ''job1''"
  by (simp add: updateDownload_def sample_store_job1 sample_job_id spread_def override_def
      no_updates_def Let_def)

text \<open>
  C9, amended: for every stored job and every partial-fields map that has no \<open>id\<close> key,
  the row that \<open>updateDownload\<close> returns and stores keeps the id of the existing row.
\<close>

theorem updateDownload_keeps_id:
  assumes "ds i = Some existing" and "u_id updates = None"
  shows "map_option download_id (fst (updateDownload now i updates ds)) = Some (download_id existing)
       \<and> map_option download_id (snd (updateDownload now i updates ds) i) = Some (download_id existing)"
  using assms by (simp add: updateDownload_def spread_def override_def Let_def)

theorem updateDownload_keeps_id_witness:
  "sample_store ''job1'' = Some sample_job
   \<and> u_id (no_updates\<lparr>u_status := Some ''downloading''\<rparr>) = None
   \<and> map_option download_id
       (fst (updateDownload 2 ''job1'' (no_updates\<lparr>u_status := Some ''downloading''\<rparr>) sample_store))
     = Some ''job1''
   \<and> map_option download_id
       (snd (updateDownload 2 ''job1'' (no_updates\<lparr>u_status := Some ''downloading''\<rparr>) sample_store) ''job1'')
     = Some ''job1''"
proof -
  have h1: "sample_store ''job1'' = Some sample_job" by (rule sample_store_job1)
  have h2: "u_id (no_updates\<lparr>u_status := Some ''downloading''\<rparr>) = None"
    by (simp add: no_updates_def)
  show ?thesis
    using updateDownload_keeps_id
      [where ds = sample_store and i = "''job1''" and existing = sample_job
         and updates = "no_updates\<lparr>u_status := Some ''downloading''\<rparr>" and now = 2]
      h1 h2
    by (simp add: sample_job_id)
qed

text \<open>
  C10: on a stored id, \<open>updateDownload\<close> returns a row that it stores under the same key,
  leaving every other key of the map as it was; \<open>updatedAt\<close> of that row is the time of
  the update, and every other field whose key the update does not have is the field of
  the existing row. On an id that is not stored it returns \<open>undefined\<close> and the map is
  unchanged.
\<close>

theorem updateDownload_frame:
  "case ds i of
     None \<Rightarrow> updateDownload now i updates ds = (None, ds)
   | Some existing \<Rightarrow>
       (\<exists>updated.
          updateDownload now i updates ds = (Some updated, ds(i \<mapsto> updated))
          \<and> updatedAt updated = Some now
          \<and> (u_id updates = None \<longrightarrow> download_id updated = download_id existing)
          \<and> (u_videoId updates = None \<longrightarrow> videoId updated = videoId existing)
          \<and> (u_title updates = None \<longrightarrow> title updated = title existing)
          \<and> (u_thumbnail updates = None \<longrightarrow> thumbnail updated = thumbnail existing)
          \<and> (u_duration updates = None \<longrightarrow> duration updated = duration existing)
          \<and> (u_views updates = None \<longrightarrow> views updated = views existing)
          \<and> (u_author updates = None \<longrightarrow> author updated = author existing)
          \<and> (u_quality updates = None \<longrightarrow> quality updated = quality existing)
          \<and> (u_format updates = None \<longrightarrow> format updated = format existing)
          \<and> (u_status updates = None \<longrightarrow> status updated = status existing)
          \<and> (u_progress updates = None \<longrightarrow> progress updated = progress existing)
          \<and> (u_filePath updates = None \<longrightarrow> filePath updated = filePath existing)
          \<and> (u_fileSize updates = None \<longrightarrow> fileSize updated = fileSize existing)
          \<and> (u_itag updates = None \<longrightarrow> itag updated = itag existing)
          \<and> (u_downloadMethod updates = None \<longrightarrow> downloadMethod updated = downloadMethod existing)
          \<and> (u_videoItag updates = None \<longrightarrow> videoItag updated = videoItag existing)
          \<and> (u_audioItag updates = None \<longrightarrow> audioItag updated = audioItag existing)
          \<and> (u_createdAt updates = None \<longrightarrow> createdAt updated = createdAt existing))"
  by (simp add: updateDownload_def spread_def override_def Let_def split: option.split)

theorem updateDownload_frame_witness:
  "sample_store ''job1'' = Some sample_job
   \<and> (\<exists>updated.
        updateDownload 2 ''job1'' no_updates sample_store
          = (Some updated, sample_store(''job1'' \<mapsto> updated))
        \<and> updatedAt updated = Some 2
        \<and> u_id no_updates = None \<and> download_id updated = download_id sample_job
        \<and> u_videoId no_updates = None \<and> videoId updated = videoId sample_job
        \<and> u_title no_updates = None \<and> title updated = title sample_job
        \<and> u_thumbnail no_updates = None \<and> thumbnail updated = thumbnail sample_job
        \<and> u_duration no_updates = None \<and> duration updated = duration sample_job
        \<and> u_views no_updates = None \<and> views updated = views sample_job
        \<and> u_author no_updates = None \<and> author updated = author sample_job
        \<and> u_quality no_updates = None \<and> quality updated = quality sample_job
        \<and> u_format no_updates = None \<and> format updated = format sample_job
        \<and> u_status no_updates = None \<and> status updated = status sample_job
        \<and> u_progress no_updates = None \<and> progress updated = progress sample_job
        \<and> u_filePath no_updates = None \<and> filePath updated = filePath sample_job
        \<and> u_fileSize no_updates = None \<and> fileSize updated = fileSize sample_job
        \<and> u_itag no_updates = None \<and> itag updated = itag sample_job
        \<and> u_downloadMethod no_updates = None \<and> downloadMethod updated = downloadMethod sample_job
        \<and> u_videoItag no_updates = None \<and> videoItag updated = videoItag sample_job
        \<and> u_audioItag no_updates = None \<and> audioItag updated = audioItag sample_job
        \<and> u_createdAt no_updates = None \<and> createdAt updated = createdAt sample_job)
   \<and> sample_store ''job2'' = None
   \<and> updateDownload 2 ''job2'' no_updates sample_store = (None, sample_store)"
proof -
  have h1: "sample_store ''job1'' = Some sample_job" by (rule sample_store_job1)
  have h2: "sample_store ''job2'' = None"
    by (simp add: sample_store_def createDownload_def Let_def)
  have n: "u_id no_updates = None"
    "u_videoId no_updates = None"
    "u_title no_updates = None"
    "u_thumbnail no_updates = None"
    "u_duration no_updates = None"
    "u_views no_updates = None"
    "u_author no_updates = None"
    "u_quality no_updates = None"
    "u_format no_updates = None"
    "u_status no_updates = None"
    "u_progress no_updates = None"
    "u_filePath no_updates = None"
    "u_fileSize no_updates = None"
    "u_itag no_updates = None"
    "u_downloadMethod no_updates = None"
    "u_videoItag no_updates = None"
    "u_audioItag no_updates = None"
    "u_createdAt no_updates = None"
    by (simp_all add: no_updates_def)
  from updateDownload_frame [where ds = sample_store and i = "''job1''" and now = 2
      and updates = no_updates]
  obtain updated where u:
    "updateDownload 2 ''job1'' no_updates sample_store
       = (Some updated, sample_store(''job1'' \<mapsto> updated))"
    "updatedAt updated = Some 2"
    "download_id updated = download_id sample_job"
    "videoId updated = videoId sample_job"
    "title updated = title sample_job"
    "thumbnail updated = thumbnail sample_job"
    "duration updated = duration sample_job"
    "views updated = views sample_job"
    "author updated = author sample_job"
    "quality updated = quality sample_job"
    "format updated = format sample_job"
    "status updated = status sample_job"
    "progress updated = progress sample_job"
    "filePath updated = filePath sample_job"
    "fileSize updated = fileSize sample_job"
    "itag updated = itag sample_job"
    "downloadMethod updated = downloadMethod sample_job"
    "videoItag updated = videoItag sample_job"
    "audioItag updated = audioItag sample_job"
    "createdAt updated = createdAt sample_job"
    by (auto simp: h1 n)
  have absent: "updateDownload 2 ''job2'' no_updates sample_store = (None, sample_store)"
    using updateDownload_frame [where ds = sample_store and i = "''job2''" and now = 2
        and updates = no_updates]
    by (simp add: h2)
  show ?thesis
    using h1 h2 n u absent by blast
qed

section \<open>Rounding and labels\<close>

lemma bit_length_le: "n < 2 ^ k \<Longrightarrow> bit_length n \<le> k"
proof (induction n arbitrary: k rule: bit_length.induct)
  case (1 n)
  show ?case
  proof (cases "n = 0")
    case True
    then show ?thesis by (simp add: bit_length.simps)
  next
    case False
    with "1.prems" obtain k' where k: "k = Suc k'"
      by (cases k) auto
    with "1.prems" have "n div 2 < 2 ^ k'" by auto
    with "1.IH" [OF False] have "bit_length (n div 2) \<le> k'" by blast
    with False k show ?thesis by (simp add: bit_length.simps [of n])
  qed
qed

lemma round_even_ge:
  assumes "of_int K \<le> y"
  shows "K \<le> round_even y"
proof -
  have "K \<le> \<lfloor>y\<rfloor>" using assms by (simp add: le_floor_iff)
  then show ?thesis by (auto simp: round_even_def Let_def)
qed

lemma round_even_le:
  assumes "y \<le> of_int K"
  shows "round_even y \<le> K"
proof -
  have f: "\<lfloor>y\<rfloor> \<le> K" using assms by (simp add: floor_le_iff)
  show ?thesis
  proof (cases "y = of_int \<lfloor>y\<rfloor>")
    case True
    then have "y - of_int \<lfloor>y\<rfloor> = 0" by simp
    then show ?thesis using f by (simp add: round_even_def Let_def)
  next
    case False
    then have "of_int \<lfloor>y\<rfloor> < y" using of_int_floor_le [of y] by linarith
    with assms have "(of_int \<lfloor>y\<rfloor> :: rat) < of_int K" by linarith
    then have "\<lfloor>y\<rfloor> < K" by simp
    then show ?thesis by (auto simp: round_even_def Let_def)
  qed
qed

lemma ilog2_small:
  assumes "0 < x" and "x < 2 ^ 53"
  shows "ilog2 x \<le> 52"
proof (cases "1 \<le> x")
  case True
  have "of_int \<lfloor>x\<rfloor> \<le> x" by simp
  with assms have "(of_int \<lfloor>x\<rfloor> :: rat) < of_int (2 ^ 53)" by simp
  then have "\<lfloor>x\<rfloor> < 2 ^ 53" by (simp only: of_int_less_iff)
  then have "nat \<lfloor>x\<rfloor> < 2 ^ 53" by (simp only: nat_less_numeral_power_cancel_iff)
  then have "bit_length (nat \<lfloor>x\<rfloor>) \<le> 53" by (rule bit_length_le)
  with True show ?thesis by (simp add: ilog2_def)
next
  case False
  then show ?thesis by (simp add: ilog2_def)
qed

text \<open>Below \<open>2 ^ 53\<close> the binary64 values are multiples of a power of two that is at most 1.\<close>

lemma fl_fine:
  assumes "0 < x" and "x < 2 ^ 53"
  shows "\<exists>n. fl x = of_int (round_even (x * 2 ^ n)) / 2 ^ n"
proof -
  let ?q = "max (ilog2 \<bar>x\<bar> - 52) (- 1074)"
  have q: "?q \<le> 0" using ilog2_small [OF assms] assms by simp
  show ?thesis
  proof (cases "0 \<le> ?q")
    case True
    with q have "?q = 0" by linarith
    then have "fl x = of_int (round_even (x * 2 ^ 0)) / 2 ^ 0"
      using assms by (simp add: fl_def Let_def)
    then show ?thesis by blast
  next
    case False
    then have "fl x = of_int (round_even (x * 2 ^ nat (- ?q))) / 2 ^ nat (- ?q)"
      using assms by (simp add: fl_def Let_def)
    then show ?thesis by blast
  qed
qed

text \<open>Rounding to binary64 does not cross an integer below \<open>2 ^ 53\<close>.\<close>

lemma fl_bounds:
  assumes "0 \<le> a" and "of_int a \<le> x" and "x \<le> of_int b" and "b < 2 ^ 53"
  shows "of_int a \<le> fl x \<and> fl x \<le> of_int b"
proof (cases "x = 0")
  case True
  with assms show ?thesis by (simp add: fl_def)
next
  case False
  have "(0 :: rat) \<le> of_int a" using assms(1) by simp
  with assms(2) False have pos: "0 < x" by linarith
  have "x < 2 ^ 53"
  proof -
    have "(of_int b :: rat) < of_int (2 ^ 53)" using assms(4) by (simp only: of_int_less_iff)
    with assms(3) show ?thesis by simp
  qed
  from fl_fine [OF pos this] obtain n where n: "fl x = of_int (round_even (x * 2 ^ n)) / 2 ^ n" ..
  have "of_int (a * 2 ^ n) \<le> x * 2 ^ n" using assms(2) by simp
  then have lo: "a * 2 ^ n \<le> round_even (x * 2 ^ n)" by (rule round_even_ge)
  have "x * 2 ^ n \<le> of_int (b * 2 ^ n)" using assms(3) by simp
  then have hi: "round_even (x * 2 ^ n) \<le> b * 2 ^ n" by (rule round_even_le)
  have "(of_int (a * 2 ^ n) :: rat) \<le> of_int (round_even (x * 2 ^ n))"
    using lo by (simp only: of_int_le_iff)
  then have l: "of_int a \<le> fl x" by (simp add: n pos_le_divide_eq)
  have "(of_int (round_even (x * 2 ^ n)) :: rat) \<le> of_int (b * 2 ^ n)"
    using hi by (simp only: of_int_le_iff)
  then have h: "fl x \<le> of_int b" by (simp add: n pos_divide_le_eq)
  from l h show ?thesis ..
qed

lemma fl_between:
  assumes "0 \<le> a" and "of_int a \<le> x" and "x \<le> of_int b" and "b \<le> 100"
  shows "of_int a \<le> fl x" and "fl x \<le> of_int b"
proof -
  have "b < 2 ^ 53" using assms(4) by simp
  from fl_bounds [OF assms(1-3) this] show "of_int a \<le> fl x" and "fl x \<le> of_int b" by simp_all
qed

lemma floor_rat_numeral_div: "\<lfloor>(numeral a :: rat) / numeral b\<rfloor> = numeral a div numeral b"
  by (metis floor_divide_of_int_eq of_int_numeral)

lemma ceiling_rat_numeral_div: "\<lceil>(numeral a :: rat) / numeral b\<rceil> = - (- numeral a div numeral b)"
  by (metis ceiling_divide_eq_div of_int_numeral)

text \<open>The rules that evaluate the arithmetic on numerals.\<close>

lemmas fl_eval = fl_def ilog2_def round_even_def Let_def bit_length.simps floor_rat_numeral_div
  ceiling_rat_numeral_div

lemmas js_eval = js_div_def js_mul_def js_add_def math_round_def fl_eval

lemma math_round_of_int_div:
  assumes "0 < b"
  shows "math_round (of_int a / of_int b) = (2 * a + b) div (2 * b)"
proof -
  have "(of_int a / of_int b + 1 / 2 :: rat) = of_int (2 * a + b) / of_int (2 * b)"
    using assms by (simp add: field_simps)
  then show ?thesis
    unfolding math_round_def by (simp only: floor_divide_of_int_eq)
qed

lemma round_even_of_int: "round_even (of_int K) = K"
  by (simp add: round_even_def Let_def)

lemma ilog2_below:
  assumes "0 < x" and "x < 2 ^ Suc k"
  shows "ilog2 x \<le> int k"
proof (cases "1 \<le> x")
  case True
  have "x < of_int (2 ^ Suc k)" using assms(2) by simp
  then have "\<lfloor>x\<rfloor> < 2 ^ Suc k" by (simp only: floor_less_iff)
  then have "nat \<lfloor>x\<rfloor> < 2 ^ Suc k" by (simp only: nat_less_numeral_power_cancel_iff)
  then have "bit_length (nat \<lfloor>x\<rfloor>) \<le> Suc k" by (rule bit_length_le)
  with True show ?thesis by (simp add: ilog2_def)
next
  case False
  then show ?thesis by (simp add: ilog2_def)
qed

lemma fl_fraction:
  assumes "x \<noteq> 0" and "max (ilog2 \<bar>x\<bar> - 52) (- 1074) = q" and "q < 0"
  shows "fl x = of_int (round_even (x * 2 ^ nat (- q))) / 2 ^ nat (- q)"
  using assms by (simp add: fl_def Let_def)

text \<open>
  The divisor of the label is a power of two: the quotient of a byte count below
  \<open>2 ^ 53\<close> is a binary64 value, and the division does not round it.
\<close>

lemma megabytes_exact:
  assumes "n < 2 ^ 53"
  shows "js_div (of_nat n) (1024 * 1024) = of_nat n / (1024 * 1024)"
proof (cases "n = 0")
  case True
  then show ?thesis by (simp add: js_div_def fl_def)
next
  case False
  define x :: rat where "x = of_nat n / 2 ^ 20"
  have pos: "0 < x" using False by (simp add: x_def)
  have "(of_nat n :: rat) < of_nat (2 ^ 53)" using assms by (simp only: of_nat_less_iff)
  then have "x < 2 ^ 53 / 2 ^ 20" by (simp add: x_def divide_strict_right_mono)
  then have "x < 2 ^ Suc 32" by simp
  from ilog2_below [OF pos this] have il: "ilog2 x \<le> 32" by simp
  define q where "q = max (ilog2 \<bar>x\<bar> - 52) (- 1074)"
  have q: "q \<le> - 20" using il pos by (simp add: q_def)
  define m where "m = nat (- q) - 20"
  have nq: "nat (- q) = m + 20" using q by (simp add: m_def)
  have "x * 2 ^ nat (- q) = of_int (int n * 2 ^ m)"
    by (simp add: x_def nq power_add)
  then have r: "round_even (x * 2 ^ nat (- q)) = int n * 2 ^ m"
    by (simp only: round_even_of_int)
  have "fl x = of_int (round_even (x * 2 ^ nat (- q))) / 2 ^ nat (- q)"
    by (rule fl_fraction [OF _ q_def [symmetric]]) (use pos q in simp_all)
  also have "\<dots> = x" by (simp only: r) (simp add: nq power_add x_def)
  finally have "fl x = x" .
  then show ?thesis by (simp add: js_div_def x_def)
qed

lemma mb_label_eval:
  assumes "n < 2 ^ 53"
  shows "mb_label n = show_nat ((2 * n + 1048576) div 2097152) @ '' MB''"
proof -
  have "math_round (of_nat n / (1024 * 1024)) = (2 * int n + 1048576) div 2097152"
    using math_round_of_int_div [of 1048576 "int n"] by simp
  then have "nat (math_round (of_nat n / (1024 * 1024))) = (2 * n + 1048576) div 2097152"
    by (simp add: nat_div_distrib nat_add_distrib nat_mult_distrib)
  then show ?thesis unfolding mb_label_def megabytes_exact [OF assms] by simp
qed

lemma math_round_bounds:
  assumes "of_int lo \<le> x" and "x \<le> of_int hi"
  shows "lo \<le> math_round x \<and> math_round x \<le> hi"
proof -
  have "of_int lo \<le> x + 1 / 2" using assms(1) by simp
  then have lo: "lo \<le> \<lfloor>x + 1 / 2\<rfloor>" by (simp add: le_floor_iff)
  have "x + 1 / 2 < of_int (hi + 1)" using assms(2) by simp
  then have "\<lfloor>x + 1 / 2\<rfloor> < hi + 1" by (simp only: floor_less_iff)
  with lo show ?thesis by (simp add: math_round_def)
qed

lemma fraction_bounds:
  assumes "d \<le> t" and "0 < t"
  shows "0 \<le> (of_nat d / of_nat t :: rat) \<and> (of_nat d / of_nat t :: rat) \<le> 1"
  using assms by (simp add: divide_le_eq)

lemma js_fraction_bounds:
  assumes "d \<le> t" and "0 < t"
  shows "0 \<le> js_div (of_nat d) (of_nat t) \<and> js_div (of_nat d) (of_nat t) \<le> 1"
proof -
  have "of_int 0 \<le> (of_nat d / of_nat t :: rat)" and "(of_nat d / of_nat t :: rat) \<le> of_int 1"
    using fraction_bounds [OF assms] by simp_all
  from fl_between [OF _ this] show ?thesis by (simp add: js_div_def)
qed

lemma round_fraction_bounds:
  assumes "d \<le> t" and "0 < t" and "k \<le> 100"
  shows "\<exists>n. round_fraction d t k = Num n \<and> 0 \<le> n \<and> n \<le> int k"
proof -
  let ?q = "js_div (of_nat d) (of_nat t)"
  have q: "0 \<le> ?q \<and> ?q \<le> 1" using assms(1,2) by (rule js_fraction_bounds)
  then have lo: "of_int 0 \<le> ?q * of_nat k" by simp
  have hi: "?q * of_nat k \<le> of_int (int k)"
    using q mult_right_mono [of ?q 1 "of_nat k"] by simp
  have k: "int k \<le> 100" using assms(3) by simp
  have "of_int 0 \<le> js_mul ?q (of_nat k)" and "js_mul ?q (of_nat k) \<le> of_int (int k)"
    unfolding js_mul_def using fl_between [OF _ lo hi k] by simp_all
  then have "0 \<le> math_round (js_mul ?q (of_nat k)) \<and> math_round (js_mul ?q (of_nat k)) \<le> int k"
    by (rule math_round_bounds)
  then show ?thesis using assms by (simp add: round_fraction_def)
qed

text \<open>
  The rounding to binary64 is seen in the progress: 29 of 200 bytes are 14.5 percent,
  the product in binary64 is just below it, and the progress stored is 14.
\<close>

lemma round_fraction_samples:
  "round_fraction 1000 1000 100 = Num 100"
  "round_fraction 500 1000 100 = Num 50"
  "round_fraction 5 10 100 = Num 50"
  "round_fraction 29 200 100 = Num 14"
  "round_fraction 0 0 100 = NaN"
  by (simp_all add: round_fraction_def js_eval)

section \<open>Properties of the format menu\<close>

text \<open>
  C8: the video part of the menu has at most one option for a quality label: the quality
  labels of the options of \<open>processedVideoFormats\<close> are pairwise distinct.
\<close>

theorem video_menu_unique_quality:
  "distinct (map o_quality (processedVideoFormats formats))"
proof -
  have q: "resolveQuality formats q = Some e \<Longrightarrow> o_quality e = q" for q e
    by (auto simp: resolveQuality_def Let_def split: option.splits if_splits)
  have "map o_quality (List.map_filter (resolveQuality formats) qs)
          = filter (\<lambda>q. resolveQuality formats q \<noteq> None) qs" for qs
    by (induction qs) (auto simp: List.map_filter_simps q split: option.splits)
  moreover have "distinct (allVideoQualities formats)"
    by (simp add: allVideoQualities_def array_from_set_def)
  ultimately show ?thesis by (simp add: processedVideoFormats_def)
qed

section \<open>Properties of the audio selection\<close>

lemma highest_bitrate_None: "highest_bitrate xs = None \<longleftrightarrow> xs = []"
proof -
  have "sort_by_bitrate xs = [] \<longleftrightarrow> xs = []"
    by (metis length_sort sort_by_bitrate_def length_0_conv)
  then show ?thesis
    by (auto simp: highest_bitrate_def split: list.split)
qed

lemma highest_bitrate_Some:
  assumes "highest_bitrate xs = Some f"
  shows "f \<in> set xs \<and> (\<forall>g\<in>set xs. bitrate_or0 g \<le> bitrate_or0 f)"
proof -
  from assms obtain rest where eq: "sort_by_bitrate xs = f # rest"
    by (auto simp: highest_bitrate_def split: list.splits)
  have "set (f # rest) = set xs"
    using eq by (metis set_sort sort_by_bitrate_def)
  moreover have "sorted (map (\<lambda>f. - int (bitrate_or0 f)) (f # rest))"
    using eq by (metis sorted_sort_key sort_by_bitrate_def)
  ultimately show ?thesis by auto
qed


lemma select_exact:
  assumes "find (\<lambda>f. show_nat (itag_num f) = req \<and> audio_only f) formats = Some f"
  shows "selectAudioFormat formats req = Some f"
  using assms by (simp add: selectAudioFormat_def audio_only_def)

lemma select_fallback:
  assumes none: "find (\<lambda>f. show_nat (itag_num f) = req \<and> audio_only f) formats = None"
    and sel: "selectAudioFormat formats req = Some f"
  shows "f \<in> set formats \<and> audio_only f
      \<and> (\<forall>g\<in>set formats. audio_only g \<longrightarrow> bitrate_or0 g \<le> bitrate_or0 f)"
proof (cases "highest_bitrate (filter (\<lambda>f. hasAudio f \<and> \<not> hasVideo f) formats)")
  case None
  then have "filter (\<lambda>f. hasAudio f \<and> \<not> hasVideo f) formats = []"
    by (simp add: highest_bitrate_None)
  then have "find (\<lambda>f. hasAudio f \<and> \<not> hasVideo f) formats = None"
    by (simp add: find_None_iff filter_empty_conv)
  with none None sel show ?thesis
    by (simp add: selectAudioFormat_def audio_only_def)
next
  case (Some h)
  with none sel have "h = f"
    by (simp add: selectAudioFormat_def audio_only_def)
  with Some highest_bitrate_Some show ?thesis
    by (fastforce simp: audio_only_def)
qed

lemma select_none:
  "selectAudioFormat formats req = None \<longleftrightarrow> (\<forall>f\<in>set formats. \<not> audio_only f)"
proof
  assume "selectAudioFormat formats req = None"
  then have "find (\<lambda>f. hasAudio f \<and> \<not> hasVideo f) formats = None"
    by (simp add: selectAudioFormat_def split: option.splits)
  then show "\<forall>f\<in>set formats. \<not> audio_only f"
    by (simp add: find_None_iff audio_only_def)
next
  assume a: "\<forall>f\<in>set formats. \<not> audio_only f"
  then have "filter (\<lambda>f. hasAudio f \<and> \<not> hasVideo f) formats = []"
    by (auto simp: filter_empty_conv audio_only_def)
  moreover have "find (\<lambda>f. hasAudio f \<and> \<not> hasVideo f) formats = None"
    using a by (auto simp: find_None_iff audio_only_def)
  moreover have "find (\<lambda>f. show_nat (itag_num f) = req \<and> hasAudio f \<and> \<not> hasVideo f) formats = None"
    using a by (auto simp: find_None_iff audio_only_def)
  ultimately show "selectAudioFormat formats req = None"
    by (simp add: selectAudioFormat_def highest_bitrate_def sort_by_bitrate_def)
qed


section \<open>Observing the store through the orchestrators\<close>

lemma jobs_storage_update:
  "jobs (storage_update i u wd) i
     = map_option (\<lambda>j. (spread j u)\<lparr>updatedAt := Some (clock wd)\<rparr>) (jobs wd i)"
  by (simp add: storage_update_def updateDownload_def Let_def split: option.split)

lemma files_storage_update [simp]: "files (storage_update i u wd) = files wd"
  by (simp add: storage_update_def)

lemma clock_storage_update [simp]: "clock (storage_update i u wd) = clock wd"
  by (simp add: storage_update_def)

lemma status_storage_update:
  "job_status (storage_update i u wd) i = map_option (\<lambda>s. override s (u_status u)) (job_status wd i)"
  by (simp add: job_status_def jobs_storage_update spread_def option.map_comp comp_def)

lemma progress_storage_update:
  "job_progress (storage_update i u wd) i = map_option (\<lambda>p. override p (u_progress u)) (job_progress wd i)"
  by (simp add: job_progress_def jobs_storage_update spread_def option.map_comp comp_def)

lemma status_fail_job [simp]: "job_status (fail_job i wd) i = map_option (\<lambda>_. ''failed'') (job_status wd i)"
  by (simp add: fail_job_def status_storage_update override_def)

lemma progress_fail_job [simp]: "job_progress (fail_job i wd) i = map_option (\<lambda>_. Some (Num 0)) (job_progress wd i)"
  by (simp add: fail_job_def progress_storage_update override_def)

lemma status_complete_job [simp]:
  "job_status (complete_job i p n wd) i = map_option (\<lambda>_. ''completed'') (job_status wd i)"
  by (simp add: complete_job_def status_storage_update override_def)

lemma progress_complete_job [simp]:
  "job_progress (complete_job i p n wd) i = map_option (\<lambda>_. Some (Num 100)) (job_progress wd i)"
  by (simp add: complete_job_def progress_storage_update override_def)

lemma status_set_progress [simp]: "job_status (set_progress i p wd) i = job_status wd i"
  by (simp add: set_progress_def status_storage_update override_def no_updates_def option.map_ident)

lemma progress_set_progress [simp]:
  "job_progress (set_progress i p wd) i = map_option (\<lambda>_. Some p) (job_progress wd i)"
  by (simp add: set_progress_def progress_storage_update override_def)

lemma status_report_progress [simp]: "job_status (report_progress i p n wd) i = job_status wd i"
  by (simp add: report_progress_def status_storage_update override_def no_updates_def option.map_ident)

lemma progress_report_progress [simp]:
  "job_progress (report_progress i p n wd) i = map_option (\<lambda>_. Some p) (job_progress wd i)"
  by (simp add: report_progress_def progress_storage_update override_def)

lemma status_downloading [simp]:
  "job_status (storage_update i (no_updates\<lparr>u_status := Some ''downloading''\<rparr>) wd) i
     = map_option (\<lambda>_. ''downloading'') (job_status wd i)"
  by (simp add: status_storage_update override_def)

lemma progress_downloading [simp]:
  "job_progress (storage_update i (no_updates\<lparr>u_status := Some ''downloading''\<rparr>) wd) i
     = job_progress wd i"
  by (simp add: progress_storage_update override_def no_updates_def option.map_ident)

lemma files_ops [simp]:
  "files (fail_job i wd) = files wd"
  "files (complete_job i p n wd) = files wd"
  "files (set_progress i q wd) = files wd"
  "files (report_progress i q n wd) = files wd"
  by (simp_all add: fail_job_def complete_job_def set_progress_def report_progress_def)

lemma jobs_fs_ops [simp]:
  "jobs (unlink_if_exists p wd) = jobs wd"
  "jobs (createWriteStream p wd) = jobs wd"
  "jobs (ffmpeg_output p sz wd) = jobs wd"
  by (simp_all add: unlink_if_exists_def createWriteStream_def ffmpeg_output_def)

lemma obs_fs_ops [simp]:
  "job_status (unlink_if_exists p wd) i = job_status wd i"
  "job_status (createWriteStream p wd) i = job_status wd i"
  "job_status (ffmpeg_output p sz wd) i = job_status wd i"
  "job_status (wd\<lparr>clock := t\<rparr>) i = job_status wd i"
  "job_progress (unlink_if_exists p wd) i = job_progress wd i"
  "job_progress (createWriteStream p wd) i = job_progress wd i"
  "job_progress (ffmpeg_output p sz wd) i = job_progress wd i"
  "job_progress (wd\<lparr>clock := t\<rparr>) i = job_progress wd i"
  by (simp_all add: job_status_def job_progress_def)

lemma files_unlink [simp]: "files (unlink_if_exists p wd) = (files wd)(p := None)"
  by (auto simp: unlink_if_exists_def)


section \<open>The invariants hold\<close>

lemma progress_in_range_iff:
  "progress_in_range wd i \<longleftrightarrow>
     (\<exists>n. job_progress wd i = Some (Some (Num n)) \<and> 0 \<le> n \<and> n \<le> 100)"
  by (auto simp: progress_in_range_def job_progress_def split: option.splits jsnum.splits)

lemma progress_ok_iff:
  "progress_ok wd i \<longleftrightarrow>
     (\<exists>n. job_progress wd i = Some (Some (Num n)) \<and> 0 \<le> n \<and> n \<le> 100
          \<and> (job_status wd i = Some ''completed'' \<longrightarrow> n = 100))"
  by (auto simp: progress_ok_def job_progress_def job_status_def
      split: option.splits jsnum.splits)

lemma progress_exact_iff:
  "progress_exact wd i \<longleftrightarrow>
     (\<exists>n. job_progress wd i = Some (Some (Num n)) \<and> 0 \<le> n \<and> n \<le> 100
          \<and> (n = 100 \<longleftrightarrow> job_status wd i = Some ''completed''))"
  by (auto simp: progress_exact_def job_progress_def job_status_def
      split: option.splits jsnum.splits)

lemma conversion_bounds:
  assumes "0 \<le> percent_or0 p" and "percent_or0 p \<le> 100"
  shows "75 \<le> conversionProgress p \<and> conversionProgress p \<le> 100"
proof -
  let ?x = "percent_or0 p"
  have "of_int 0 \<le> ?x * (1 / 4)" and "?x * (1 / 4) \<le> of_int 25" using assms by simp_all
  from fl_between [OF _ this]
  have m: "0 \<le> js_mul ?x (1 / 4)" "js_mul ?x (1 / 4) \<le> 25" by (simp_all add: js_mul_def)
  have "of_int 75 \<le> 75 + js_mul ?x (1 / 4)" and "75 + js_mul ?x (1 / 4) \<le> of_int 100"
    using m by simp_all
  from fl_between [OF _ this]
  have "of_int 75 \<le> js_add 75 (js_mul ?x (1 / 4))" and "js_add 75 (js_mul ?x (1 / 4)) \<le> of_int 100"
    by (simp_all add: js_add_def)
  then show ?thesis unfolding conversionProgress_def by (rule math_round_bounds)
qed

lemma fl_018: "fl (18 / 100) = 3242591731706757 / 18014398509481984"
  by (simp add: fl_eval)

lemma mux_progress_bounds:
  assumes "0 \<le> percent_or0 p" and "percent_or0 p \<le> 100"
  shows "81 \<le> muxProgress p \<and> muxProgress p \<le> 99"
proof -
  let ?x = "percent_or0 p" and ?c = "fl (18 / 100)"
  have c: "0 \<le> ?c" "?c \<le> 18 / 100" unfolding fl_018 by simp_all
  have "?x * ?c \<le> 100 * (18 / 100)"
    using assms c by (intro mult_mono) simp_all
  then have "of_int 0 \<le> ?x * ?c" and "?x * ?c \<le> of_int 18" using assms c by simp_all
  from fl_between [OF _ this]
  have m: "0 \<le> js_mul ?x ?c" "js_mul ?x ?c \<le> 18" by (simp_all add: js_mul_def)
  have "of_int 81 \<le> 81 + js_mul ?x ?c" and "81 + js_mul ?x ?c \<le> of_int 99"
    using m by simp_all
  from fl_between [OF _ this]
  have "of_int 81 \<le> js_add 81 (js_mul ?x ?c)" and "js_add 81 (js_mul ?x ?c) \<le> of_int 99"
    by (simp_all add: js_add_def)
  then show ?thesis unfolding muxProgress_def by (rule math_round_bounds)
qed

lemma overall_bounds:
  assumes "vb \<le> tv" and "ab \<le> ta" and "0 < tv" and "0 < ta"
  shows "0 \<le> overallProgress vb tv ab ta \<and> overallProgress vb tv ab ta \<le> 80"
proof -
  let ?a = "js_div (of_nat vb) (of_nat tv)" and ?b = "js_div (of_nat ab) (of_nat ta)"
  have a: "0 \<le> ?a \<and> ?a \<le> 1" using assms(1,3) by (rule js_fraction_bounds)
  have b: "0 \<le> ?b \<and> ?b \<le> 1" using assms(2,4) by (rule js_fraction_bounds)
  have "of_int 0 \<le> ?a + ?b" and "?a + ?b \<le> of_int 2" using a b by simp_all
  from fl_between [OF _ this]
  have s: "0 \<le> js_add ?a ?b" "js_add ?a ?b \<le> 2" by (simp_all add: js_add_def)
  have "of_int 0 \<le> js_add ?a ?b / 2" and "js_add ?a ?b / 2 \<le> of_int 1" using s by simp_all
  from fl_between [OF _ this]
  have h: "0 \<le> js_div (js_add ?a ?b) 2" "js_div (js_add ?a ?b) 2 \<le> 1" by (simp_all add: js_div_def)
  have "of_int 0 \<le> js_div (js_add ?a ?b) 2 * 80" and "js_div (js_add ?a ?b) 2 * 80 \<le> of_int 80"
    using h by simp_all
  from fl_between [OF _ this]
  have "of_int 0 \<le> js_mul (js_div (js_add ?a ?b) 2) 80"
    and "js_mul (js_div (js_add ?a ?b) 2) 80 \<le> of_int 80"
    by (simp_all add: js_mul_def)
  then have "0 \<le> math_round (js_mul (js_div (js_add ?a ?b) 2) 80)
      \<and> math_round (js_mul (js_div (js_add ?a ?b) 2) 80) \<le> 80"
    by (rule math_round_bounds)
  then show ?thesis by (simp only: overallProgress_def Let_def)
qed

lemma round_fraction_range:
  assumes "d \<le> t" and "0 < t" and "k \<le> 100"
  shows "\<exists>n. round_fraction d t k = Num n \<and> 0 \<le> n \<and> n \<le> 100"
  using round_fraction_bounds [OF assms] assms(3) by force

subsection \<open>The progressive path\<close>

lemma dl_failed_obs [simp]:
  "job_status (dl_world (dl_failed i wd)) i = map_option (\<lambda>_. ''failed'') (job_status wd i)"
  "job_progress (dl_world (dl_failed i wd)) i = map_option (\<lambda>_. Some (Num 0)) (job_progress wd i)"
  "dl_branch (dl_failed i wd) = NoBranch"
  by (simp_all add: dl_failed_def)

lemma start_obs:
  assumes "jobs w0 i = Some j"
  shows "job_progress (dl_world (startDownload w0 i req fmt info)) i = Some (progress j)
           \<and> job_status (dl_world (startDownload w0 i req fmt info)) i = Some ''downloading''
           \<and> dl_branch (startDownload w0 i req fmt info) \<noteq> NoBranch
           \<and> conversion (startDownload w0 i req fmt info) = None
         \<or> job_progress (dl_world (startDownload w0 i req fmt info)) i = Some (Some (Num 0))
           \<and> job_status (dl_world (startDownload w0 i req fmt info)) i = Some ''failed''
           \<and> dl_branch (startDownload w0 i req fmt info) = NoBranch"
proof -
  have o: "job_status w0 i = Some (status j)" "job_progress w0 i = Some (progress j)"
    using assms by (simp_all add: job_status_def job_progress_def)
  show ?thesis
    by (simp add: startDownload_def Let_def o split: option.splits)
qed

lemma dl_range_start:
  assumes "jobs w0 i = Some j" and "progress j = Some (Num 0)"
  shows "progress_in_range (dl_world (startDownload w0 i req fmt info)) i"
  using start_obs [OF assms(1), where req = req and fmt = fmt and info = info] assms(2)
  by (auto simp: progress_in_range_iff)

lemma dl_inv_start:
  assumes "jobs w0 i = Some j" and "progress j = Some (Num 0)"
  shows "dl_inv i False False False (startDownload w0 i req fmt info)"
  using start_obs [OF assms(1), where req = req and fmt = fmt and info = info] assms(2)
  by (cases "dl_branch (startDownload w0 i req fmt info)") (auto simp: dl_inv_def progress_ok_iff)

lemma audio_step_range:
  assumes r: "progress_in_range (dl_world s) i" and wf: "wf_event e"
  shows "progress_in_range (dl_world (audio_step i s e)) i"
proof (cases e)
  case (StreamProgress d t)
  with wf have dt: "d \<le> t" "0 < t" by (simp_all add: wf_event_def)
  have "(if isMP3Conversion s then 70 else 100) \<le> (100::nat)" by simp
  from round_fraction_range [OF dt this]
  obtain n where "round_fraction d t (if isMP3Conversion s then 70 else 100) = Num n"
    "0 \<le> n" "n \<le> 100" by blast
  with r StreamProgress show ?thesis
    by (auto simp: audio_step_def progress_in_range_iff)
next
  case (FfmpegProgress p sz)
  with wf have p: "0 \<le> percent_or0 p" "percent_or0 p \<le> 100" by (simp_all add: wf_event_def)
  from conversion_bounds [OF p] r FfmpegProgress show ?thesis
    by (auto simp: audio_step_def progress_in_range_iff split: option.splits)
qed (use r in \<open>auto simp: audio_step_def audio_error_def conversion_done_def conversion_failed_def
       progress_in_range_iff Let_def split: option.splits\<close>)

lemma video_step_range:
  assumes r: "progress_in_range (dl_world s) i" and wf: "wf_event e"
  shows "progress_in_range (dl_world (video_step i s e)) i"
proof (cases e)
  case (StreamProgress d t)
  with wf have dt: "d \<le> t" "0 < t" by (simp_all add: wf_event_def)
  from round_fraction_range [OF dt, of 100]
  obtain n where "round_fraction d t 100 = Num n" "0 \<le> n" "n \<le> 100" by auto
  with r StreamProgress show ?thesis
    by (auto simp: video_step_def progress_in_range_iff)
qed (use r in \<open>auto simp: video_step_def progress_in_range_iff\<close>)

lemma dl_step_cases:
  "dl_step i s e =
     (case e of Tick t \<Rightarrow> s\<lparr>dl_world := (dl_world s)\<lparr>clock := t\<rparr>\<rparr>
      | _ \<Rightarrow> (if dl_branch s = NoBranch then s
              else if dl_branch s = AudioBranch then audio_step i s e else video_step i s e))"
  by (cases e; cases "dl_branch s") (simp_all add: dl_step_def)

lemma dl_step_range:
  assumes r: "progress_in_range (dl_world s) i" and wf: "wf_event e"
  shows "progress_in_range (dl_world (dl_step i s e)) i"
proof (cases "\<exists>t. e = Tick t")
  case True
  with r show ?thesis by (auto simp: dl_step_def progress_in_range_iff)
next
  case False
  then have "dl_step i s e = (if dl_branch s = NoBranch then s
              else if dl_branch s = AudioBranch then audio_step i s e else video_step i s e)"
    by (cases e) (simp_all add: dl_step_cases)
  with r wf show ?thesis by (simp add: audio_step_range video_step_range)
qed

lemma dl_run_range:
  assumes "progress_in_range (dl_world s) i" and "list_all wf_event evs"
  shows "progress_in_range (dl_world (foldl (dl_step i) s evs)) i"
  using assms by (induction evs arbitrary: s) (simp_all add: dl_step_range)

lemma audio_step_inv:
  assumes inv: "dl_inv i sd fin fd s" and br: "dl_branch s = AudioBranch"
    and wf: "wf_event e" and ad: "dl_admits sd fin fd e"
  shows "dl_inv i (sd \<or> e = StreamEnd \<or> e = WriteFinish) (fin \<or> e = WriteFinish)
           (fd \<or> is_ffmpeg_end e) (audio_step i s e)"
proof (cases e)
  case (StreamProgress d t)
  with wf have dt: "d \<le> t" "0 < t" by (simp_all add: wf_event_def)
  have "(if isMP3Conversion s then 70 else 100) \<le> (100::nat)" by simp
  from round_fraction_range [OF dt this]
  obtain n where "round_fraction d t (if isMP3Conversion s then 70 else 100) = Num n"
    "0 \<le> n" "n \<le> 100" by blast
  with inv br ad StreamProgress show ?thesis
    by (auto simp: audio_step_def dl_inv_def progress_ok_iff is_ffmpeg_end_def)
next
  case (FfmpegProgress p sz)
  with wf have p: "0 \<le> percent_or0 p" "percent_or0 p \<le> 100" by (simp_all add: wf_event_def)
  from conversion_bounds [OF p] inv br ad FfmpegProgress show ?thesis
    by (auto simp: audio_step_def dl_inv_def progress_ok_iff is_ffmpeg_end_def split: option.splits)
next
  case (FfmpegEnd sz)
  with inv br ad show ?thesis
    by (auto simp: audio_step_def dl_inv_def progress_ok_iff is_ffmpeg_end_def conversion_done_def
        conversion_failed_def Let_def split: option.splits)
next
  case (FfmpegError sz)
  with inv br ad show ?thesis
    by (auto simp: audio_step_def dl_inv_def progress_ok_iff is_ffmpeg_end_def
        conversion_failed_def Let_def split: option.splits)
qed (use inv br ad in \<open>auto simp: audio_step_def audio_error_def dl_inv_def progress_ok_iff
       is_ffmpeg_end_def Let_def\<close>)

lemma video_step_inv:
  assumes inv: "dl_inv i sd fin fd s" and br: "dl_branch s = VideoBranch"
    and wf: "wf_event e" and ad: "dl_admits sd fin fd e"
  shows "dl_inv i (sd \<or> e = StreamEnd \<or> e = WriteFinish) (fin \<or> e = WriteFinish)
           (fd \<or> is_ffmpeg_end e) (video_step i s e)"
proof (cases e)
  case (StreamProgress d t)
  with wf have dt: "d \<le> t" "0 < t" by (simp_all add: wf_event_def)
  from round_fraction_range [OF dt, of 100]
  obtain n where "round_fraction d t 100 = Num n" "0 \<le> n" "n \<le> 100" by auto
  with inv br ad StreamProgress show ?thesis
    by (auto simp: video_step_def dl_inv_def progress_ok_iff is_ffmpeg_end_def)
qed (use inv br ad in \<open>auto simp: video_step_def dl_inv_def progress_ok_iff is_ffmpeg_end_def\<close>)

lemma dl_inv_mono:
  assumes "dl_inv i sd fin fd s" and "sd \<longrightarrow> sd'" and "fin \<longrightarrow> fin'" and "fd \<longrightarrow> fd'"
  shows "dl_inv i sd' fin' fd' s"
  using assms by (cases "dl_branch s") (auto simp: dl_inv_def)

lemma dl_step_inv:
  assumes inv: "dl_inv i sd fin fd s" and wf: "wf_event e" and ad: "dl_admits sd fin fd e"
  shows "dl_inv i (sd \<or> e = StreamEnd \<or> e = WriteFinish) (fin \<or> e = WriteFinish)
           (fd \<or> is_ffmpeg_end e) (dl_step i s e)"
proof (cases "\<exists>t. e = Tick t")
  case True
  then obtain t where t: "e = Tick t" ..
  have "dl_inv i sd fin fd (s\<lparr>dl_world := (dl_world s)\<lparr>clock := t\<rparr>\<rparr>)"
    using inv by (cases "dl_branch s") (auto simp: dl_inv_def progress_ok_iff)
  then show ?thesis by (simp add: t dl_step_def is_ffmpeg_end_def)
next
  case False
  then have step: "dl_step i s e = (if dl_branch s = NoBranch then s
              else if dl_branch s = AudioBranch then audio_step i s e else video_step i s e)"
    by (cases e) (simp_all add: dl_step_cases)
  show ?thesis
  proof (cases "dl_branch s")
    case NoBranch
    with step have "dl_step i s e = s" by simp
    with inv show ?thesis by (auto intro: dl_inv_mono)
  next
    case AudioBranch
    with step have "dl_step i s e = audio_step i s e" by simp
    with audio_step_inv [OF inv AudioBranch wf ad] show ?thesis by simp
  next
    case VideoBranch
    with step have "dl_step i s e = video_step i s e" by simp
    with video_step_inv [OF inv VideoBranch wf ad] show ?thesis by simp
  qed
qed

lemma dl_run_inv:
  assumes "dl_inv i sd fin fd s" and "list_all wf_event evs" and "dl_protocol sd fin fd evs"
  shows "progress_ok (dl_world (foldl (dl_step i) s evs)) i"
  using assms
proof (induction evs arbitrary: s sd fin fd)
  case Nil
  then show ?case by (simp add: dl_inv_def)
next
  case (Cons e evs)
  from Cons.prems have wf: "wf_event e" and ad: "dl_admits sd fin fd e"
    and rest: "list_all wf_event evs"
    and pr: "dl_protocol (sd \<or> e = StreamEnd \<or> e = WriteFinish) (fin \<or> e = WriteFinish)
               (fd \<or> is_ffmpeg_end e) evs"
    by simp_all
  from Cons.IH [OF dl_step_inv [OF Cons.prems(1) wf ad] rest pr] show ?case by simp
qed

subsection \<open>The mux path\<close>

lemma updateProgress_fields [simp]:
  "mux_phase (updateProgress i s) = mux_phase s"
  "videoBytes (updateProgress i s) = videoBytes s"
  "audioBytes (updateProgress i s) = audioBytes s"
  "totalVideoBytes (updateProgress i s) = totalVideoBytes s"
  "totalAudioBytes (updateProgress i s) = totalAudioBytes s"
  "videoDownloaded (updateProgress i s) = videoDownloaded s"
  "audioDownloaded (updateProgress i s) = audioDownloaded s"
  "legsStarted (updateProgress i s) = legsStarted s"
  "muxStarted (updateProgress i s) = muxStarted s"
  "videoPromise (updateProgress i s) = videoPromise s"
  "audioPromise (updateProgress i s) = audioPromise s"
  "mux_finalFilepath (updateProgress i s) = mux_finalFilepath s"
  "job_status (mux_world (updateProgress i s)) i = job_status (mux_world s) i"
  "files (mux_world (updateProgress i s)) = files (mux_world s)"
  by (simp_all add: updateProgress_def)

lemma updateProgress_progress:
  assumes "job_progress (mux_world s) i = Some (Some (Num n))"
    and "videoBytes s \<le> totalVideoBytes s" and "audioBytes s \<le> totalAudioBytes s"
  shows "\<exists>m. job_progress (mux_world (updateProgress i s)) i = Some (Some (Num m))
             \<and> (m = n \<or> 0 \<le> m \<and> m \<le> 80)"
proof (cases "totalVideoBytes s > 0 \<and> totalAudioBytes s > 0")
  case True
  then show ?thesis
    using assms overall_bounds [of "videoBytes s" "totalVideoBytes s" "audioBytes s" "totalAudioBytes s"]
    by (simp add: updateProgress_def)
next
  case False
  then have "updateProgress i s = s" by (auto simp: updateProgress_def)
  then show ?thesis using assms by auto
qed

lemma mux_catch_obs [simp]:
  "job_status (mux_catch i wd) i = map_option (\<lambda>_. ''failed'') (job_status wd i)"
  "job_progress (mux_catch i wd) i = map_option (\<lambda>_. Some (Num 0)) (job_progress wd i)"
  by (simp_all add: mux_catch_def)

lemma job_progress_None_iff: "job_progress wd i = None \<longleftrightarrow> job_status wd i = None"
  by (simp add: job_progress_def job_status_def)

lemma mux_start_obs:
  assumes "jobs w0 i = Some j"
  shows "job_progress (mux_world (startMuxDownload w0 i v a cf info)) i = Some (progress j)
           \<and> job_status (mux_world (startMuxDownload w0 i v a cf info)) i = Some ''downloading''
           \<and> mux_phase (startMuxDownload w0 i v a cf info) = Fetching
           \<and> videoPromise (startMuxDownload w0 i v a cf info) = Pending
           \<and> audioPromise (startMuxDownload w0 i v a cf info) = Pending
         \<or> job_progress (mux_world (startMuxDownload w0 i v a cf info)) i = Some (Some (Num 0))
           \<and> job_status (mux_world (startMuxDownload w0 i v a cf info)) i = Some ''failed''
           \<and> mux_phase (startMuxDownload w0 i v a cf info) = MuxFailed
           \<and> videoPromise (startMuxDownload w0 i v a cf info) = Pending
           \<and> audioPromise (startMuxDownload w0 i v a cf info) = Pending"
proof -
  have o: "job_status w0 i = Some (status j)" "job_progress w0 i = Some (progress j)"
    using assms by (simp_all add: job_status_def job_progress_def)
  show ?thesis
    by (simp add: startMuxDownload_def mux_failed_early_def Let_def o split: option.splits)
qed

lemma mux_start_bytes:
  "videoBytes (startMuxDownload w0 i v a cf info) = 0"
  "audioBytes (startMuxDownload w0 i v a cf info) = 0"
  by (simp_all add: startMuxDownload_def mux_failed_early_def Let_def split: option.splits)

lemma mux_range_start:
  assumes "jobs w0 i = Some j" and "progress j = Some (Num 0)"
  shows "mux_range i (startMuxDownload w0 i v a cf info)"
  using mux_start_obs [OF assms(1), where v = v and a = a and cf = cf and info = info] assms(2)
  by (auto simp: mux_range_def progress_in_range_iff mux_start_bytes)

lemma mux_inv_start:
  assumes "jobs w0 i = Some j" and "progress j = Some (Num 0)"
  shows "mux_inv i False False False (startMuxDownload w0 i v a cf info)"
  using mux_start_obs [OF assms(1), where v = v and a = a and cf = cf and info = info] assms(2)
  by (auto simp: mux_inv_def mux_start_bytes)

lemma mux_range_leg_progress:
  assumes r: "mux_range i s" and b: "videoBytes s' \<le> totalVideoBytes s'" "audioBytes s' \<le> totalAudioBytes s'"
    and w: "mux_world s' = mux_world s"
  shows "mux_range i (updateProgress i s')"
proof -
  from r obtain n where n: "job_progress (mux_world s') i = Some (Some (Num n))" "0 \<le> n" "n \<le> 100"
    by (auto simp: mux_range_def progress_in_range_iff w)
  from updateProgress_progress [OF n(1) b]
  obtain m where "job_progress (mux_world (updateProgress i s')) i = Some (Some (Num m))"
    "m = n \<or> 0 \<le> m \<and> m \<le> 80" by blast
  with n b show ?thesis by (auto simp: mux_range_def progress_in_range_iff)
qed

lemma mux_range_world:
  assumes "mux_range i s" and "videoBytes s' = videoBytes s" and "totalVideoBytes s' = totalVideoBytes s"
    and "audioBytes s' = audioBytes s" and "totalAudioBytes s' = totalAudioBytes s"
    and "progress_in_range (mux_world s') i"
  shows "mux_range i s'"
  using assms by (simp add: mux_range_def)

lemma mux_step_range:
  assumes r: "mux_range i s" and wf: "wf_mux_event e"
  shows "mux_range i (mux_step i s e)"
proof (cases e)
  case (VideoProgress d t)
  with wf have "d \<le> t" by (simp add: wf_mux_event_def)
  with r have "mux_range i (updateProgress i (s\<lparr>videoBytes := d, totalVideoBytes := t\<rparr>))"
    by (intro mux_range_leg_progress [OF r]) (simp_all add: mux_range_def)
  with r VideoProgress show ?thesis by (simp add: mux_step_def)
next
  case (AudioProgress d t)
  with wf have "d \<le> t" by (simp add: wf_mux_event_def)
  with r have "mux_range i (updateProgress i (s\<lparr>audioBytes := d, totalAudioBytes := t\<rparr>))"
    by (intro mux_range_leg_progress [OF r]) (simp_all add: mux_range_def)
  with r AudioProgress show ?thesis by (simp add: mux_step_def)
next
  case (MuxProgress p sz)
  with wf have p: "0 \<le> percent_or0 p" "percent_or0 p \<le> 100" by (simp_all add: wf_mux_event_def)
  from mux_progress_bounds [OF p] r MuxProgress show ?thesis
    by (auto simp: mux_step_def mux_range_def progress_in_range_iff)
next
  case (MuxEnd sz)
  with r show ?thesis
    by (auto simp: mux_step_def mux_ended_def mux_range_def progress_in_range_iff Let_def
        split: option.splits)
next
  case (MuxError sz)
  with r show ?thesis
    by (auto simp: mux_step_def mux_range_def progress_in_range_iff Let_def)
next
  case (MuxTick t)
  with r show ?thesis by (auto simp: mux_step_def mux_range_def progress_in_range_iff)
qed (use r in \<open>auto simp: mux_step_def video_resolve_def video_reject_def audio_resolve_def
       audio_reject_def both_resolved_def leg_rejected_def mux_range_def progress_in_range_iff\<close>)

lemma mux_run_range:
  assumes "mux_range i s" and "list_all wf_mux_event evs"
  shows "mux_range i (foldl (mux_step i) s evs)"
  using assms by (induction evs arbitrary: s) (simp_all add: mux_step_range)

lemma mux_inv_exact: "mux_inv i vf af me s \<Longrightarrow> progress_exact (mux_world s) i"
  by (cases "mux_phase s") (auto simp: mux_inv_def progress_exact_iff)

lemma mux_inv_leg_progress:
  assumes inv: "mux_inv i vf af me s" and ph: "mux_phase s \<noteq> MuxCompleted"
    and b: "videoBytes s' \<le> totalVideoBytes s'" "audioBytes s' \<le> totalAudioBytes s'"
    and w: "mux_world s' = mux_world s" "mux_phase s' = mux_phase s"
      "videoPromise s' = videoPromise s" "audioPromise s' = audioPromise s"
  shows "mux_inv i vf af me (updateProgress i s')"
proof -
  from inv obtain n where n: "job_progress (mux_world s') i = Some (Some (Num n))" "0 \<le> n" "n \<le> 99"
    using ph by (cases "mux_phase s") (auto simp: mux_inv_def w)
  from updateProgress_progress [OF n(1) b]
  obtain m where m: "job_progress (mux_world (updateProgress i s')) i = Some (Some (Num m))"
    "m = n \<or> 0 \<le> m \<and> m \<le> 80" by blast
  then have "0 \<le> m" "m \<le> 99" using n by auto
  with m(1) inv ph b w show ?thesis
    by (cases "mux_phase s") (auto simp: mux_inv_def)
qed

lemma mux_inv_completed:
  assumes "mux_inv i vf af me s" and "mux_phase s = MuxCompleted"
  shows "vf" and "af" and "me"
  using assms by (auto simp: mux_inv_def)

lemma mux_step_inv:
  assumes inv: "mux_inv i vf af me s" and wf: "wf_mux_event e" and ad: "mux_admits vf af me e"
  shows "mux_inv i (vf \<or> e = VideoFinish) (af \<or> e = AudioFinish) (me \<or> is_mux_end e) (mux_step i s e)"
proof (cases e)
  case (VideoProgress d t)
  with wf have dt: "d \<le> t" by (simp add: wf_mux_event_def)
  from ad VideoProgress have nv: "\<not> vf" by simp
  with inv have ph: "mux_phase s \<noteq> MuxCompleted" using mux_inv_completed(1) by blast
  have "mux_inv i vf af me (updateProgress i (s\<lparr>videoBytes := d, totalVideoBytes := t\<rparr>))"
    by (rule mux_inv_leg_progress [OF inv ph]) (use dt inv in \<open>auto simp: mux_inv_def\<close>)
  with inv VideoProgress show ?thesis by (simp add: mux_step_def is_mux_end_def)
next
  case (AudioProgress d t)
  with wf have dt: "d \<le> t" by (simp add: wf_mux_event_def)
  from ad AudioProgress have nv: "\<not> af" by simp
  with inv have ph: "mux_phase s \<noteq> MuxCompleted" using mux_inv_completed(2) by blast
  have "mux_inv i vf af me (updateProgress i (s\<lparr>audioBytes := d, totalAudioBytes := t\<rparr>))"
    by (rule mux_inv_leg_progress [OF inv ph]) (use dt inv in \<open>auto simp: mux_inv_def\<close>)
  with inv AudioProgress show ?thesis by (simp add: mux_step_def is_mux_end_def)
next
  case (MuxProgress p sz)
  with wf have p: "0 \<le> percent_or0 p" "percent_or0 p \<le> 100" by (simp_all add: wf_mux_event_def)
  from ad MuxProgress have nm: "\<not> me" by simp
  with inv have ph: "mux_phase s \<noteq> MuxCompleted" using mux_inv_completed(3) by blast
  from mux_progress_bounds [OF p] inv ph MuxProgress show ?thesis
    by (cases "mux_phase s") (auto simp: mux_step_def mux_inv_def is_mux_end_def)
next
  case (MuxEnd sz)
  with inv show ?thesis
    by (cases "mux_phase s")
       (auto simp: mux_step_def mux_ended_def mux_inv_def is_mux_end_def Let_def split: option.splits)
next
  case (MuxError sz)
  with inv show ?thesis
    by (cases "mux_phase s") (auto simp: mux_step_def mux_inv_def is_mux_end_def Let_def)
next
  case (MuxTick t)
  with inv show ?thesis
    by (cases "mux_phase s") (auto simp: mux_step_def mux_inv_def is_mux_end_def)
next
  case VideoFinish
  with inv show ?thesis
    by (cases "mux_phase s")
       (auto simp: mux_step_def video_resolve_def both_resolved_def mux_inv_def is_mux_end_def)
next
  case VideoError
  with inv show ?thesis
    by (cases "mux_phase s")
       (auto simp: mux_step_def video_reject_def leg_rejected_def mux_inv_def is_mux_end_def)
next
  case VideoWriteError
  with inv show ?thesis
    by (cases "mux_phase s")
       (auto simp: mux_step_def video_reject_def leg_rejected_def mux_inv_def is_mux_end_def)
next
  case AudioFinish
  with inv show ?thesis
    by (cases "mux_phase s")
       (auto simp: mux_step_def audio_resolve_def both_resolved_def mux_inv_def is_mux_end_def)
next
  case AudioError
  with inv show ?thesis
    by (cases "mux_phase s")
       (auto simp: mux_step_def audio_reject_def leg_rejected_def mux_inv_def is_mux_end_def)
next
  case AudioWriteError
  with inv show ?thesis
    by (cases "mux_phase s")
       (auto simp: mux_step_def audio_reject_def leg_rejected_def mux_inv_def is_mux_end_def)
qed

lemma mux_run_inv:
  assumes "mux_inv i vf af me s" and "list_all wf_mux_event evs" and "mux_protocol vf af me evs"
  shows "progress_exact (mux_world (foldl (mux_step i) s evs)) i"
  using assms
proof (induction evs arbitrary: s vf af me)
  case Nil
  then show ?case by (simp add: mux_inv_exact)
next
  case (Cons e evs)
  from Cons.prems have wf: "wf_mux_event e" and ad: "mux_admits vf af me e"
    and rest: "list_all wf_mux_event evs"
    and pr: "mux_protocol (vf \<or> e = VideoFinish) (af \<or> e = AudioFinish) (me \<or> is_mux_end e) evs"
    by simp_all
  from Cons.IH [OF mux_step_inv [OF Cons.prems(1) wf ad] rest pr] show ?case by simp
qed

section \<open>Evaluating the examples\<close>

lemma show_nat_samples:
  "show_nat 22 = ''22''" "show_nat 137 = ''137''" "show_nat 140 = ''140''"
  "show_nat 248 = ''248''" "show_nat 251 = ''251''"
  by (simp_all add: show_nat.simps)

lemmas sample_formats = avc_1080p_def vp9_1080p_def opus_audio_def aac_audio_def progressive_720p_def

lemma sample_world_obs:
  "job_status sample_world ''job1'' = Some ''pending''"
  "job_progress sample_world ''job1'' = Some (Some (Num 0))"
  by (simp_all add: job_status_def job_progress_def sample_world_def sample_store_job1
      sample_job_def createDownload_def sample_insert_def Let_def)

lemma start_video_sample:
  "startDownload sample_world ''job1'' ''22'' ''mp4'' (Some [progressive_720p])
     = \<lparr> dl_world = createWriteStream ''downloads/job1.mp4''
                       (storage_update ''job1'' (no_updates\<lparr>u_status := Some ''downloading''\<rparr>) sample_world),
         dl_phase = VideoFetch, dl_branch = VideoBranch, streamFormat = Some progressive_720p,
         isMP3Conversion = False, tempFilepath = ''downloads/job1.mp4'',
         finalFilepath = ''downloads/job1.mp4'', totalBytes = 0, conversion = None \<rparr>"
  by (simp add: startDownload_def audioFormatNames_def show_nat_samples progressive_720p_def
      path_join_def downloadsDir_def Let_def)

lemma start_audio_sample:
  "startDownload sample_world ''job1'' ''140'' ''m4a'' (Some [aac_audio])
     = \<lparr> dl_world = createWriteStream ''downloads/job1.mp4''
                       (storage_update ''job1'' (no_updates\<lparr>u_status := Some ''downloading''\<rparr>) sample_world),
         dl_phase = AudioFetch, dl_branch = AudioBranch, streamFormat = Some aac_audio,
         isMP3Conversion = False, tempFilepath = ''downloads/job1.mp4'',
         finalFilepath = ''downloads/job1.mp4'', totalBytes = 0, conversion = None \<rparr>"
  by (simp add: startDownload_def audioFormatNames_def show_nat_samples aac_audio_def
      selectAudioFormat_def or_default_def path_join_def downloadsDir_def Let_def)

lemma sample_mux_start_eq:
  "sample_mux_start
     = \<lparr> mux_world = createWriteStream (audioTempPath ''job1'')
                        (createWriteStream (videoTempPath ''job1'')
                          (storage_update ''job1'' (no_updates\<lparr>u_status := Some ''downloading''\<rparr>)
                             sample_world)),
         mux_phase = Fetching, mux_finalFilepath = ''downloads/job1.mp4'',
         videoDownloaded = False, audioDownloaded = False, videoBytes = 0, audioBytes = 0,
         totalVideoBytes = 0, totalAudioBytes = 0, legsStarted = True,
         videoPromise = Pending, audioPromise = Pending, muxStarted = False \<rparr>"
  by (simp add: sample_mux_start_def sample_catalog_def startMuxDownload_def show_nat_samples
      sample_formats deriveOutputContainer_def or_default_def startsWith_def includes_str_def
      sublist_code path_join_def downloadsDir_def Let_def)

lemma files_ffmpeg_output [simp]: "files (ffmpeg_output p sz wd) = (files wd)(p := sz)"
  by (simp add: ffmpeg_output_def)

lemma run_mux_sample:
  "run_mux sample_world ''job1'' ''137'' ''251'' ''mp4'' (Some sample_catalog) evs
     = foldl (mux_step ''job1'') sample_mux_start evs"
  by (simp add: run_mux_def sample_mux_start_def)

lemma sample_mux_start_job: "jobs (mux_world sample_mux_start) ''job1'' \<noteq> None"
  by (simp add: sample_mux_start_eq jobs_storage_update sample_world_def sample_store_job1)

lemma overallProgress_samples:
  "overallProgress 10 10 5 10 = 60"
  "overallProgress 5 10 10 10 = 60"
  "overallProgress 2 30 13 48 = 13"
  unfolding overallProgress_def Let_def by (simp_all add: js_eval)


section \<open>Progress while a download runs\<close>

text \<open>
  C2, as stated: the progress is an integer from 0 to 100 and is 100 exactly when the
  status is \<open>completed\<close>. In the video branch of the progressive path the progress
  event of the last chunk (\<open>downloaded = total\<close>) stores
  \<open>Math.round((downloaded / total) * 100) = 100\<close> while the status is still
  \<open>downloading\<close>; and a progress event with a zero total stores \<open>NaN\<close>, which the mux
  path alone guards against.
\<close>

theorem progress_100_while_downloading:
  "job_progress (dl_world (run_download sample_world ''job1'' ''22'' ''mp4'' (Some [progressive_720p])
       [StreamProgress 1000 1000])) ''job1'' = Some (Some (Num 100))
   \<and> job_status (dl_world (run_download sample_world ''job1'' ''22'' ''mp4'' (Some [progressive_720p])
       [StreamProgress 1000 1000])) ''job1'' = Some ''downloading''
   \<and> job_progress (dl_world (run_download sample_world ''job1'' ''22'' ''mp4'' (Some [progressive_720p])
       [StreamProgress 0 0])) ''job1'' = Some (Some NaN)"
  by (simp add: run_download_def start_video_sample dl_step_def video_step_def
      round_fraction_samples sample_world_obs)

text \<open>
  The listeners test nothing: a progress event that arrives after the \<open>end\<close> of the
  stream is written to the completed job, and one that arrives after a write error to
  the failed job.
\<close>

lemma progress_after_settlement:
  "job_status (dl_world (run_download sample_world ''job1'' ''22'' ''mp4'' (Some [progressive_720p])
       [StreamEnd, StreamProgress 5 10])) ''job1'' = Some ''completed''"
  "job_progress (dl_world (run_download sample_world ''job1'' ''22'' ''mp4'' (Some [progressive_720p])
       [StreamEnd, StreamProgress 5 10])) ''job1'' = Some (Some (Num 50))"
  "job_status (dl_world (run_download sample_world ''job1'' ''140'' ''m4a'' (Some [aac_audio])
       [WriteError, StreamProgress 5 10])) ''job1'' = Some ''failed''"
  "job_progress (dl_world (run_download sample_world ''job1'' ''140'' ''m4a'' (Some [aac_audio])
       [WriteError, StreamProgress 5 10])) ''job1'' = Some (Some (Num 50))"
  by (simp_all add: run_download_def start_video_sample start_audio_sample dl_step_def
      video_step_def audio_step_def audio_error_def round_fraction_samples sample_world_obs)

text \<open>
  The first of these two runs is not in the order of the protocol, the second is: nothing
  is asked of what follows an error.
\<close>

lemma late_progress_out_of_order:
  "\<not> dl_protocol False False False [StreamEnd, StreamProgress 5 10]"
  "dl_protocol False False False [WriteError, StreamProgress 5 10]"
  by (simp_all add: is_ffmpeg_end_def)


section \<open>Progress aggregation in the mux path\<close>

text \<open>
  C4, as stated: the progress written is the rounded value of
  \<open>((videoDownloaded / videoTotal + audioDownloaded / audioTotal) / 2) * 80\<close>. The code
  evaluates the expression in binary64. With 2 of 30 bytes of video and 13 of 48 bytes of
  audio the expression is 13.5 and rounds to 14; in binary64 the quotient 2/30 is rounded
  down, the product is 13.499999999999998, and the progress written is 13.
\<close>

theorem aggregation_half_way_counterexample:
  "job_progress (mux_world (run_mux sample_world ''job1'' ''137'' ''251'' ''mp4'' (Some sample_catalog)
       [AudioProgress 13 48, VideoProgress 2 30])) ''job1'' = Some (Some (Num 13))
   \<and> math_round (((2 / 30 + 13 / 48) / 2) * 80) = 14"
proof -
  have "math_round (((2 / 30 + 13 / 48) / 2) * 80) = 14"
    by (simp add: math_round_def floor_rat_numeral_div)
  then show ?thesis
    by (simp add: run_mux_sample sample_mux_start_eq mux_step_def updateProgress_def
        overallProgress_samples sample_world_obs)
qed

text \<open>
  C4, amended: for a job in the store and a mux download whose legs are started, a
  progress event of the video leg (and likewise of the audio leg) sets the progress of
  the job to \<open>Math.round\<close> of
  \<open>((videoBytes / totalVideoBytes + audioBytes / totalAudioBytes) / 2) * 80\<close> evaluated in
  binary64, each quotient, the sum and the product rounded to the nearest binary64
  value, from the values just reported and the latest ones of the other leg, when both
  totals are above zero; otherwise the event writes nothing at all.
\<close>

theorem mux_progress_aggregation:
  assumes "jobs (mux_world s) i \<noteq> None" and "legsStarted s"
  shows "(if 0 < t \<and> 0 < totalAudioBytes s
          then job_progress (mux_world (mux_step i s (VideoProgress d t))) i
                 = Some (Some (Num (math_round
                     (js_mul (js_div (js_add (js_div (of_nat d) (of_nat t))
                         (js_div (of_nat (audioBytes s)) (of_nat (totalAudioBytes s)))) 2) 80))))
          else mux_world (mux_step i s (VideoProgress d t)) = mux_world s)
       \<and> (if 0 < totalVideoBytes s \<and> 0 < t
          then job_progress (mux_world (mux_step i s (AudioProgress d t))) i
                 = Some (Some (Num (math_round
                     (js_mul (js_div (js_add (js_div (of_nat (videoBytes s)) (of_nat (totalVideoBytes s)))
                         (js_div (of_nat d) (of_nat t))) 2) 80))))
          else mux_world (mux_step i s (AudioProgress d t)) = mux_world s)"
proof -
  from assms(1) obtain j where "jobs (mux_world s) i = Some j" by auto
  then have p: "job_progress (mux_world s) i = Some (progress j)"
    by (simp add: job_progress_def)
  show ?thesis
    by (simp only: overallProgress_def [symmetric, unfolded Let_def])
       (use assms(2) in \<open>auto simp: mux_step_def updateProgress_def p\<close>)
qed

theorem mux_progress_aggregation_witness:
  "jobs (mux_world sample_mux_start) ''job1'' \<noteq> None
   \<and> legsStarted sample_mux_start
   \<and> \<not> (0 < totalVideoBytes sample_mux_start \<and> 0 < (10::nat))
   \<and> mux_world (mux_step ''job1'' sample_mux_start (AudioProgress 5 10)) = mux_world sample_mux_start
   \<and> jobs (mux_world (mux_step ''job1'' sample_mux_start (AudioProgress 5 10))) ''job1'' \<noteq> None
   \<and> legsStarted (mux_step ''job1'' sample_mux_start (AudioProgress 5 10))
   \<and> 0 < (10::nat) \<and> 0 < totalAudioBytes (mux_step ''job1'' sample_mux_start (AudioProgress 5 10))
   \<and> job_progress (mux_world (mux_step ''job1'' (mux_step ''job1'' sample_mux_start (AudioProgress 5 10))
         (VideoProgress 10 10))) ''job1'' = Some (Some (Num 60))"
proof -
  let ?s1 = "mux_step ''job1'' sample_mux_start (AudioProgress 5 10)"
  note j0 = sample_mux_start_job
  have s1: "?s1 = sample_mux_start\<lparr>audioBytes := 5, totalAudioBytes := 10\<rparr>"
    by (simp add: mux_step_def updateProgress_def sample_mux_start_eq)
  have j1: "jobs (mux_world ?s1) ''job1'' \<noteq> None"
    using j0 by (simp add: s1)
  have live: "legsStarted sample_mux_start" "legsStarted ?s1"
    "totalVideoBytes sample_mux_start = 0" "totalAudioBytes ?s1 = 10" "audioBytes ?s1 = 5"
    by (simp_all add: s1) (simp_all add: sample_mux_start_eq)
  have r: "math_round (js_mul (js_div (js_add (js_div (of_nat 10) (of_nat 10))
             (js_div (of_nat 5) (of_nat 10))) 2) 80) = 60"
    using overallProgress_samples(1) by (simp only: overallProgress_def Let_def)
  from mux_progress_aggregation [OF j0 live(1), of 10 5] live
  have a: "mux_world ?s1 = mux_world sample_mux_start" by simp
  from mux_progress_aggregation [OF j1 live(2), of 10 10] live r
  have b: "job_progress (mux_world (mux_step ''job1'' ?s1 (VideoProgress 10 10))) ''job1''
             = Some (Some (Num 60))"
    by simp
  show ?thesis using j0 j1 live a b by simp
qed


section \<open>Errors at the job boundary\<close>

text \<open>
  The errors that do reach a handler: a rejected \<open>getInfo\<close>, a stream error in either
  branch, a write error in the audio branch and a failed conversion all leave the job
  failed with progress 0.
\<close>

lemma handled_errors_fail_job:
  assumes "jobs (dl_world s) i \<noteq> None" and "jobs w0 i \<noteq> None"
  shows "job_status (dl_world (startDownload w0 i req fmt None)) i = Some ''failed''"
    and "job_progress (dl_world (startDownload w0 i req fmt None)) i = Some (Some (Num 0))"
    and "job_status (dl_world (audio_step i s StreamError)) i = Some ''failed''"
    and "job_progress (dl_world (audio_step i s StreamError)) i = Some (Some (Num 0))"
    and "job_status (dl_world (audio_step i s WriteError)) i = Some ''failed''"
    and "job_progress (dl_world (audio_step i s WriteError)) i = Some (Some (Num 0))"
    and "conversion s = Some Pending \<Longrightarrow>
           job_status (dl_world (audio_step i s (FfmpegError sz))) i = Some ''failed''"
    and "conversion s = Some Pending \<Longrightarrow>
           job_progress (dl_world (audio_step i s (FfmpegError sz))) i = Some (Some (Num 0))"
    and "conversion s = Some Pending \<Longrightarrow>
           job_status (dl_world (audio_step i s (FfmpegEnd None))) i = Some ''failed''"
    and "conversion s = Some Pending \<Longrightarrow>
           job_progress (dl_world (audio_step i s (FfmpegEnd None))) i = Some (Some (Num 0))"
    and "job_status (dl_world (video_step i s StreamError)) i = Some ''failed''"
    and "job_progress (dl_world (video_step i s StreamError)) i = Some (Some (Num 0))"
proof -
  from assms(1) obtain st pr
    where o: "job_status (dl_world s) i = Some st" "job_progress (dl_world s) i = Some pr"
    by (auto simp: job_status_def job_progress_def)
  from assms(2) obtain st0 pr0
    where o0: "job_status w0 i = Some st0" "job_progress w0 i = Some pr0"
    by (auto simp: job_status_def job_progress_def)
  show "job_status (dl_world (startDownload w0 i req fmt None)) i = Some ''failed''"
    and "job_progress (dl_world (startDownload w0 i req fmt None)) i = Some (Some (Num 0))"
    by (simp_all add: startDownload_def Let_def o0)
  show "job_status (dl_world (audio_step i s StreamError)) i = Some ''failed''"
    and "job_progress (dl_world (audio_step i s StreamError)) i = Some (Some (Num 0))"
    and "job_status (dl_world (audio_step i s WriteError)) i = Some ''failed''"
    and "job_progress (dl_world (audio_step i s WriteError)) i = Some (Some (Num 0))"
    by (simp_all add: audio_step_def audio_error_def Let_def o)
  show "conversion s = Some Pending \<Longrightarrow>
           job_status (dl_world (audio_step i s (FfmpegError sz))) i = Some ''failed''"
    and "conversion s = Some Pending \<Longrightarrow>
           job_progress (dl_world (audio_step i s (FfmpegError sz))) i = Some (Some (Num 0))"
    by (simp_all add: audio_step_def conversion_failed_def Let_def o)
  show "conversion s = Some Pending \<Longrightarrow>
           job_status (dl_world (audio_step i s (FfmpegEnd None))) i = Some ''failed''"
    and "conversion s = Some Pending \<Longrightarrow>
           job_progress (dl_world (audio_step i s (FfmpegEnd None))) i = Some (Some (Num 0))"
    by (simp_all add: audio_step_def conversion_done_def conversion_failed_def Let_def o)
  show "job_status (dl_world (video_step i s StreamError)) i = Some ''failed''"
    and "job_progress (dl_world (video_step i s StreamError)) i = Some (Some (Num 0))"
    by (simp_all add: video_step_def o)
qed

text \<open>
  C6, evaluated on the code: the video branch of \<open>startDownload\<close> registers no \<open>error\<close>
  listener on its write stream. A write error there is an uncaught exception and leaves
  the job \<open>downloading\<close>; the same event in the audio branch, which has the listener,
  fails the job.
\<close>

theorem video_write_error_uncaught:
  "dl_phase (run_download sample_world ''job1'' ''22'' ''mp4'' (Some [progressive_720p]) [WriteError])
     = Uncaught
   \<and> job_status (dl_world (run_download sample_world ''job1'' ''22'' ''mp4'' (Some [progressive_720p])
       [WriteError])) ''job1'' = Some ''downloading''
   \<and> dl_phase (run_download sample_world ''job1'' ''140'' ''m4a'' (Some [aac_audio]) [WriteError])
     = Settled
   \<and> job_status (dl_world (run_download sample_world ''job1'' ''140'' ''m4a'' (Some [aac_audio])
       [WriteError])) ''job1'' = Some ''failed''"
  by (simp add: run_download_def start_video_sample start_audio_sample dl_step_def video_step_def
      audio_step_def audio_error_def sample_world_obs)

section \<open>The fallback to a webm video\<close>

text \<open>
  C1, evaluated on the code. The catalog has a 1080p video-only stream in mp4 (itag 137)
  and in webm (itag 248) and only Opus audio (itag 251). The resolver selects the mp4
  stream, finds no AAC audio, finds the webm video-only stream of the same quality, and
  emits a mux option with container webm and the Opus audio, whose video stream is
  still the mp4 stream 137: \<open>webmVideoFormat\<close> is looked up and never used.
\<close>

theorem fallback_keeps_mp4_video:
  "findByQuality (videoOnlyFormats [avc_1080p, vp9_1080p, opus_audio]) ''1080p'' = Some avc_1080p
   \<and> container avc_1080p = Some ''mp4''
   \<and> filter is_aac (audioFormats [avc_1080p, vp9_1080p, opus_audio]) = []
   \<and> find (\<lambda>f. qualityLabel f = Some ''1080p'' \<and> container f = Some ''webm'')
        (videoOnlyFormats [avc_1080p, vp9_1080p, opus_audio]) = Some vp9_1080p
   \<and> processedVideoFormats [avc_1080p, vp9_1080p, opus_audio]
       = [\<lparr> o_itag = None, o_quality = ''1080p'', o_format = ''webm'', o_container = ''webm'',
            o_type = ''video'', o_hasAudio = Some True, o_downloadMethod = Some ''mux'',
            o_videoItag = Some ''137'', o_audioItag = Some ''251'',
            o_fileSize = Some ''54 MB'' \<rparr>]"
  by (simp add: processedVideoFormats_def allVideoQualities_def progressiveVideoFormats_def
      videoOnlyFormats_def has_label_def sample_formats labels_of_def array_from_set_def
      List.map_filter_def resolveQuality_def findByQuality_def audioFormats_def chooseAudio_def
      or_default_def startsWith_def is_aac_def includes_str_def sublist_code highest_bitrate_def
      sort_by_bitrate_def is_webm_or_opus_def bitrate_or0_def size_or0_def mb_label_eval Let_def
      show_nat.simps)

section \<open>The output container of a mux download\<close>

text \<open>
  C3: the state in which \<open>startMuxDownload\<close> leaves the download, and so the path of the
  output file, does not depend on the format the client sent; and the container is
  derived from the two formats by the first of these cases that applies: an AVC video
  codec with an AAC (mp4a) audio codec gives mp4; both containers webm gives webm; an
  Opus audio codec with a VP9 video codec gives webm; anything else gives mp4.
\<close>

theorem container_rederived:
  "startMuxDownload w0 i vItag aItag clientFormat info = startMuxDownload w0 i vItag aItag otherFormat info
   \<and> (startsWith (or_default (videoCodec v) []) ''avc1'' \<and> includes_str (or_default (audioCodec a) []) ''mp4a''
        \<longrightarrow> deriveOutputContainer v a = ''mp4'')
   \<and> (\<not> (startsWith (or_default (videoCodec v) []) ''avc1'' \<and> includes_str (or_default (audioCodec a) []) ''mp4a'')
        \<and> container v = Some ''webm'' \<and> container a = Some ''webm''
        \<longrightarrow> deriveOutputContainer v a = ''webm'')
   \<and> (\<not> (startsWith (or_default (videoCodec v) []) ''avc1'' \<and> includes_str (or_default (audioCodec a) []) ''mp4a'')
        \<and> includes_str (or_default (audioCodec a) []) ''opus'' \<and> startsWith (or_default (videoCodec v) []) ''vp9''
        \<longrightarrow> deriveOutputContainer v a = ''webm'')
   \<and> (\<not> (startsWith (or_default (videoCodec v) []) ''avc1'' \<and> includes_str (or_default (audioCodec a) []) ''mp4a'')
        \<and> \<not> (container v = Some ''webm'' \<and> container a = Some ''webm'')
        \<and> \<not> (includes_str (or_default (audioCodec a) []) ''opus'' \<and> startsWith (or_default (videoCodec v) []) ''vp9'')
        \<longrightarrow> deriveOutputContainer v a = ''mp4'')
   \<and> (find (\<lambda>f. show_nat (itag_num f) = vItag) formats = Some v
        \<and> find (\<lambda>f. show_nat (itag_num f) = aItag) formats = Some a
        \<longrightarrow> mux_finalFilepath (startMuxDownload w0 i vItag aItag clientFormat (Some formats))
            = path_join downloadsDir (i @ ''.'' @ deriveOutputContainer v a))"
  by (simp add: startMuxDownload_def deriveOutputContainer_def Let_def)

lemma codec_samples:
  "startsWith (or_default (videoCodec avc_1080p) []) ''avc1''"
  "\<not> startsWith (or_default (videoCodec vp9_1080p) []) ''avc1''"
  "startsWith (or_default (videoCodec vp9_1080p) []) ''vp9''"
  "\<not> startsWith (or_default (videoCodec avc_1080p) []) ''vp9''"
  "includes_str (or_default (audioCodec aac_audio) []) ''mp4a''"
  "includes_str (or_default (audioCodec opus_audio) []) ''opus''"
  "\<not> includes_str (or_default (audioCodec opus_audio) []) ''mp4a''"
  "container vp9_1080p = Some ''webm''" "container opus_audio = Some ''webm''"
  "container avc_1080p = Some ''mp4''" "container aac_audio = Some ''mp4''"
  by (simp_all add: sample_formats or_default_def startsWith_def includes_str_def sublist_code)

theorem container_rederived_witness:
  "startMuxDownload sample_world ''job1'' ''137'' ''251'' ''mp4'' (Some sample_catalog)
     = startMuxDownload sample_world ''job1'' ''137'' ''251'' ''webm'' (Some sample_catalog)
   \<and> startsWith (or_default (videoCodec avc_1080p) []) ''avc1''
   \<and> includes_str (or_default (audioCodec aac_audio) []) ''mp4a''
   \<and> deriveOutputContainer avc_1080p aac_audio = ''mp4''
   \<and> \<not> startsWith (or_default (videoCodec vp9_1080p) []) ''avc1''
   \<and> container vp9_1080p = Some ''webm'' \<and> container opus_audio = Some ''webm''
   \<and> deriveOutputContainer vp9_1080p opus_audio = ''webm''
   \<and> includes_str (or_default (audioCodec opus_audio) []) ''opus''
   \<and> startsWith (or_default (videoCodec vp9_1080p) []) ''vp9''
   \<and> \<not> includes_str (or_default (audioCodec opus_audio) []) ''mp4a''
   \<and> container avc_1080p \<noteq> Some ''webm''
   \<and> \<not> startsWith (or_default (videoCodec avc_1080p) []) ''vp9''
   \<and> deriveOutputContainer avc_1080p opus_audio = ''mp4''
   \<and> find (\<lambda>f. show_nat (itag_num f) = ''137'') sample_catalog = Some avc_1080p
   \<and> find (\<lambda>f. show_nat (itag_num f) = ''251'') sample_catalog = Some opus_audio
   \<and> mux_finalFilepath (startMuxDownload sample_world ''job1'' ''137'' ''251'' ''webm'' (Some sample_catalog))
       = path_join downloadsDir (''job1'' @ ''.'' @ ''mp4'')"
proof -
  note c = codec_samples
  have fv: "find (\<lambda>f. show_nat (itag_num f) = ''137'') sample_catalog = Some avc_1080p"
    and fa: "find (\<lambda>f. show_nat (itag_num f) = ''251'') sample_catalog = Some opus_audio"
    by (simp_all add: sample_catalog_def sample_formats show_nat_samples)
  note A = container_rederived [where v = avc_1080p and a = aac_audio and ?w0.0 = sample_world
      and i = "''job1''" and vItag = "''137''" and aItag = "''251''" and clientFormat = "''mp4''"
      and otherFormat = "''webm''" and info = "Some sample_catalog" and formats = sample_catalog]
  note B = container_rederived [where v = vp9_1080p and a = opus_audio]
  note C = container_rederived [where v = avc_1080p and a = opus_audio and ?w0.0 = sample_world
      and i = "''job1''" and vItag = "''137''" and aItag = "''251''" and clientFormat = "''webm''"
      and formats = sample_catalog]
  have r0: "startMuxDownload sample_world ''job1'' ''137'' ''251'' ''mp4'' (Some sample_catalog)
     = startMuxDownload sample_world ''job1'' ''137'' ''251'' ''webm'' (Some sample_catalog)"
    using A by (rule conjunct1)
  have r1: "deriveOutputContainer avc_1080p aac_audio = ''mp4''" using A c by blast
  have r2: "deriveOutputContainer vp9_1080p opus_audio = ''webm''" using B c by blast
  have ne: "container avc_1080p \<noteq> Some ''webm''" by (simp add: c)
  have r3: "deriveOutputContainer avc_1080p opus_audio = ''mp4''" using C c ne by blast
  have r4: "mux_finalFilepath (startMuxDownload sample_world ''job1'' ''137'' ''251'' ''webm'' (Some sample_catalog))
       = path_join downloadsDir (''job1'' @ ''.'' @ ''mp4'')"
    using C fv fa r3 by simp
  from r0 r1 r2 r3 r4 c ne fv fa show ?thesis by (intro conjI)
qed

section \<open>The audio selection of the progressive path\<close>

lemma list_ex_audio_only: "list_ex audio_only formats \<longleftrightarrow> \<not> (\<forall>f\<in>set formats. \<not> audio_only f)"
  by (simp add: list_ex_iff)

lemma find_filter: "find P (filter Q xs) = find (\<lambda>x. Q x \<and> P x) xs"
  by (induction xs) simp_all

text \<open>The sort is stable: among the streams of the highest bitrate the first one is taken.\<close>

lemma highest_bitrate_first:
  assumes "highest_bitrate xs = Some f"
  shows "find (\<lambda>g. bitrate_or0 g = bitrate_or0 f) xs = Some f"
proof -
  let ?k = "\<lambda>g. - int (bitrate_or0 g)"
  from assms obtain rest where eq: "sort_key ?k xs = f # rest"
    by (auto simp: highest_bitrate_def sort_by_bitrate_def split: list.splits)
  have "filter (\<lambda>g. ?k g = ?k f) xs = filter (\<lambda>g. ?k g = ?k f) (sort_key ?k xs)"
    by (rule sort_key_stable [symmetric])
  also have "\<dots> = f # filter (\<lambda>g. ?k g = ?k f) rest" by (simp add: eq)
  finally have "filter (\<lambda>g. bitrate_or0 g = bitrate_or0 f) xs
                  = f # filter (\<lambda>g. bitrate_or0 g = bitrate_or0 f) rest"
    by simp
  then have "find (\<lambda>g. True) (filter (\<lambda>g. bitrate_or0 g = bitrate_or0 f) xs) = Some f"
    by simp
  then show ?thesis by (simp add: find_filter)
qed

lemma select_fallback_first:
  assumes none: "find (\<lambda>f. show_nat (itag_num f) = req \<and> audio_only f) formats = None"
    and sel: "selectAudioFormat formats req = Some f"
  shows "find (\<lambda>h. audio_only h \<and> bitrate_or0 h = bitrate_or0 f) formats = Some f"
proof (cases "highest_bitrate (filter (\<lambda>f. hasAudio f \<and> \<not> hasVideo f) formats)")
  case None
  then have "filter (\<lambda>f. hasAudio f \<and> \<not> hasVideo f) formats = []"
    by (simp add: highest_bitrate_None)
  then have "find (\<lambda>f. hasAudio f \<and> \<not> hasVideo f) formats = None"
    by (simp add: find_None_iff filter_empty_conv)
  with none None sel show ?thesis
    by (simp add: selectAudioFormat_def audio_only_def)
next
  case (Some h)
  with none sel have "h = f"
    by (simp add: selectAudioFormat_def audio_only_def)
  with Some have "highest_bitrate (filter audio_only formats) = Some f"
    by (simp add: audio_only_def [abs_def])
  from highest_bitrate_first [OF this] show ?thesis by (simp add: find_filter)
qed

lemma start_audio_stream:
  assumes "fmt \<in> set audioFormatNames"
  shows "streamFormat (startDownload w0 i req fmt (Some formats)) = selectAudioFormat formats req"
  using assms by (simp add: startDownload_def dl_failed_def Let_def split: option.splits)

lemma start_audio_phase:
  assumes "fmt \<in> set audioFormatNames" and "jobs w0 i \<noteq> None"
  shows "if list_ex audio_only formats
         then dl_branch (startDownload w0 i req fmt (Some formats)) = AudioBranch
              \<and> dl_phase (startDownload w0 i req fmt (Some formats)) = AudioFetch
              \<and> job_status (dl_world (startDownload w0 i req fmt (Some formats))) i = Some ''downloading''
         else streamFormat (startDownload w0 i req fmt (Some formats)) = None
              \<and> dl_branch (startDownload w0 i req fmt (Some formats)) = NoBranch
              \<and> dl_phase (startDownload w0 i req fmt (Some formats)) = Settled
              \<and> job_status (dl_world (startDownload w0 i req fmt (Some formats))) i = Some ''failed''
              \<and> job_progress (dl_world (startDownload w0 i req fmt (Some formats))) i
                  = Some (Some (Num 0))"
proof -
  from assms(2) obtain st pr where st: "job_status w0 i = Some st" "job_progress w0 i = Some pr"
    by (auto simp: job_status_def job_progress_def)
  show ?thesis
  proof (cases "selectAudioFormat formats req")
    case None
    then have "\<not> list_ex audio_only formats"
      using select_none [of formats req] by (simp add: list_ex_audio_only)
    with None assms(1) st show ?thesis
      by (simp add: startDownload_def dl_failed_def Let_def)
  next
    case (Some f)
    then have "list_ex audio_only formats"
      using select_none [of formats req] by (simp add: list_ex_audio_only)
    with Some assms(1) st show ?thesis
      by (simp add: startDownload_def Let_def)
  qed
qed

text \<open>
  C7: for an audio-style target format and a job in the store, the stream that
  \<open>startDownload\<close> fetches is the audio-only stream of the requested itag when there is
  one; otherwise, when the catalog has audio-only streams, the first of those whose
  bitrate no other audio-only stream exceeds. The third step, any audio-only stream,
  never decides: whenever an audio-only stream exists a stream is fetched and the job is
  \<open>downloading\<close>. When the catalog has no audio-only stream, and only then, no stream is
  fetched and the job is failed with progress 0.
\<close>

theorem audio_selection_order:
  assumes "fmt \<in> set audioFormatNames" and "jobs w0 i \<noteq> None"
  shows
    "(\<forall>f. find (\<lambda>f. show_nat (itag_num f) = req \<and> audio_only f) formats = Some f
        \<longrightarrow> streamFormat (startDownload w0 i req fmt (Some formats)) = Some f)
   \<and> (find (\<lambda>f. show_nat (itag_num f) = req \<and> audio_only f) formats = None
        \<and> list_ex audio_only formats
        \<longrightarrow> (\<exists>g. streamFormat (startDownload w0 i req fmt (Some formats)) = Some g
                \<and> g \<in> set formats \<and> audio_only g
                \<and> (\<forall>h\<in>set formats. audio_only h \<longrightarrow> bitrate_or0 h \<le> bitrate_or0 g)
                \<and> find (\<lambda>h. audio_only h \<and> bitrate_or0 h = bitrate_or0 g) formats = Some g))
   \<and> (list_ex audio_only formats
        \<longrightarrow> dl_branch (startDownload w0 i req fmt (Some formats)) = AudioBranch
            \<and> dl_phase (startDownload w0 i req fmt (Some formats)) = AudioFetch
            \<and> job_status (dl_world (startDownload w0 i req fmt (Some formats))) i = Some ''downloading'')
   \<and> (\<not> list_ex audio_only formats
        \<longrightarrow> streamFormat (startDownload w0 i req fmt (Some formats)) = None
            \<and> dl_branch (startDownload w0 i req fmt (Some formats)) = NoBranch
            \<and> dl_phase (startDownload w0 i req fmt (Some formats)) = Settled
            \<and> job_status (dl_world (startDownload w0 i req fmt (Some formats))) i = Some ''failed''
            \<and> job_progress (dl_world (startDownload w0 i req fmt (Some formats))) i
                = Some (Some (Num 0)))"
proof -
  note sf = start_audio_stream [OF assms(1), of w0 i req formats]
  have a: "\<forall>f. find (\<lambda>f. show_nat (itag_num f) = req \<and> audio_only f) formats = Some f
        \<longrightarrow> streamFormat (startDownload w0 i req fmt (Some formats)) = Some f"
    using select_exact [of req formats] by (simp add: sf)
  have b: "find (\<lambda>f. show_nat (itag_num f) = req \<and> audio_only f) formats = None
        \<and> list_ex audio_only formats
        \<longrightarrow> (\<exists>g. streamFormat (startDownload w0 i req fmt (Some formats)) = Some g
                \<and> g \<in> set formats \<and> audio_only g
                \<and> (\<forall>h\<in>set formats. audio_only h \<longrightarrow> bitrate_or0 h \<le> bitrate_or0 g)
                \<and> find (\<lambda>h. audio_only h \<and> bitrate_or0 h = bitrate_or0 g) formats = Some g)"
  proof (intro impI, elim conjE)
    assume none: "find (\<lambda>f. show_nat (itag_num f) = req \<and> audio_only f) formats = None"
      and ex: "list_ex audio_only formats"
    from ex have "selectAudioFormat formats req \<noteq> None"
      using select_none [of formats req] by (simp add: list_ex_audio_only)
    then obtain g where g: "selectAudioFormat formats req = Some g" by auto
    from select_fallback [OF none g] select_fallback_first [OF none g] g
    show "\<exists>g. streamFormat (startDownload w0 i req fmt (Some formats)) = Some g
                \<and> g \<in> set formats \<and> audio_only g
                \<and> (\<forall>h\<in>set formats. audio_only h \<longrightarrow> bitrate_or0 h \<le> bitrate_or0 g)
                \<and> find (\<lambda>h. audio_only h \<and> bitrate_or0 h = bitrate_or0 g) formats = Some g"
      by (simp add: sf)
  qed
  from start_audio_phase [OF assms, of formats req] a b show ?thesis
    by (cases "list_ex audio_only formats") simp_all
qed

theorem audio_selection_order_witness:
  "''mp3'' \<in> set audioFormatNames \<and> jobs sample_world ''job1'' \<noteq> None
   \<and> find (\<lambda>f. show_nat (itag_num f) = ''251'' \<and> audio_only f) [aac_audio, opus_audio] = Some opus_audio
   \<and> streamFormat (startDownload sample_world ''job1'' ''251'' ''mp3'' (Some [aac_audio, opus_audio]))
       = Some opus_audio
   \<and> find (\<lambda>f. show_nat (itag_num f) = ''999'' \<and> audio_only f) [aac_audio, opus_audio] = None
   \<and> list_ex audio_only [aac_audio, opus_audio]
   \<and> streamFormat (startDownload sample_world ''job1'' ''999'' ''mp3'' (Some [aac_audio, opus_audio]))
       = Some opus_audio
   \<and> bitrate_or0 aac_audio < bitrate_or0 opus_audio
   \<and> dl_phase (startDownload sample_world ''job1'' ''999'' ''mp3'' (Some [aac_audio, opus_audio])) = AudioFetch
   \<and> job_status (dl_world (startDownload sample_world ''job1'' ''999'' ''mp3''
         (Some [aac_audio, opus_audio]))) ''job1'' = Some ''downloading''
   \<and> \<not> list_ex audio_only [avc_1080p]
   \<and> streamFormat (startDownload sample_world ''job1'' ''251'' ''mp3'' (Some [avc_1080p])) = None
   \<and> job_status (dl_world (startDownload sample_world ''job1'' ''251'' ''mp3'' (Some [avc_1080p]))) ''job1''
       = Some ''failed''"
proof -
  have ao: "audio_only aac_audio" "audio_only opus_audio" "\<not> audio_only avc_1080p"
    by (simp_all add: audio_only_def sample_formats)
  have f1: "find (\<lambda>f. show_nat (itag_num f) = ''251'' \<and> audio_only f) [aac_audio, opus_audio] = Some opus_audio"
    by (simp add: ao) (simp add: sample_formats show_nat_samples)
  have f2: "find (\<lambda>f. show_nat (itag_num f) = ''999'' \<and> audio_only f) [aac_audio, opus_audio] = None"
    by (simp add: ao) (simp add: sample_formats show_nat.simps)
  have lt: "bitrate_or0 aac_audio < bitrate_or0 opus_audio"
    by (simp add: bitrate_or0_def sample_formats)
  have ex: "list_ex audio_only [aac_audio, opus_audio]" "\<not> list_ex audio_only [avc_1080p]"
    by (simp_all add: ao)
  have m: "''mp3'' \<in> set audioFormatNames" by (simp add: audioFormatNames_def)
  have jw: "jobs sample_world ''job1'' \<noteq> None"
    by (simp add: sample_world_def sample_store_job1)
  note A = audio_selection_order [OF m jw, where formats = "[aac_audio, opus_audio]" and req = "''251''"]
  note B = audio_selection_order [OF m jw, where formats = "[aac_audio, opus_audio]" and req = "''999''"]
  note C = audio_selection_order [OF m jw, where formats = "[avc_1080p]" and req = "''251''"]
  have r1: "streamFormat (startDownload sample_world ''job1'' ''251'' ''mp3'' (Some [aac_audio, opus_audio]))
       = Some opus_audio"
    using A f1 by blast
  from B f2 ex(1) obtain g
    where g: "streamFormat (startDownload sample_world ''job1'' ''999'' ''mp3'' (Some [aac_audio, opus_audio])) = Some g"
      "g \<in> set [aac_audio, opus_audio]"
      "\<forall>h\<in>set [aac_audio, opus_audio]. audio_only h \<longrightarrow> bitrate_or0 h \<le> bitrate_or0 g"
    by blast
  from g(3) ao have "bitrate_or0 opus_audio \<le> bitrate_or0 g" by simp
  with g(2) lt have "g = opus_audio" by auto
  with g(1) have r2: "streamFormat (startDownload sample_world ''job1'' ''999'' ''mp3''
      (Some [aac_audio, opus_audio])) = Some opus_audio"
    by simp
  have r3: "dl_phase (startDownload sample_world ''job1'' ''999'' ''mp3'' (Some [aac_audio, opus_audio])) = AudioFetch"
    and r4: "job_status (dl_world (startDownload sample_world ''job1'' ''999'' ''mp3''
         (Some [aac_audio, opus_audio]))) ''job1'' = Some ''downloading''"
    using B ex(1) by blast+
  have r5: "streamFormat (startDownload sample_world ''job1'' ''251'' ''mp3'' (Some [avc_1080p])) = None"
    and r6: "job_status (dl_world (startDownload sample_world ''job1'' ''251'' ''mp3'' (Some [avc_1080p]))) ''job1''
       = Some ''failed''"
    using C ex(2) by blast+
  from m jw f1 r1 f2 ex(1) r2 lt r3 r4 ex(2) r5 r6 show ?thesis by (intro conjI)
qed

section \<open>Failure of a mux download\<close>

lemma jobs_storage_update_None [simp]:
  "jobs (storage_update i u wd) i = None \<longleftrightarrow> jobs wd i = None"
  by (simp add: jobs_storage_update)

lemma jobs_ops_None [simp]:
  "jobs (fail_job i wd) i = None \<longleftrightarrow> jobs wd i = None"
  "jobs (complete_job i p n wd) i = None \<longleftrightarrow> jobs wd i = None"
  "jobs (set_progress i q wd) i = None \<longleftrightarrow> jobs wd i = None"
  "jobs (report_progress i q n wd) i = None \<longleftrightarrow> jobs wd i = None"
  "jobs (mux_catch i wd) i = None \<longleftrightarrow> jobs wd i = None"
  by (simp_all add: fail_job_def complete_job_def set_progress_def report_progress_def mux_catch_def)

lemma obs_of_job:
  "jobs wd i \<noteq> None \<Longrightarrow> \<exists>st pr. job_status wd i = Some st \<and> job_progress wd i = Some pr"
  by (auto simp: job_status_def job_progress_def)

lemma mux_catch_cleaned:
  assumes "jobs wd i \<noteq> None"
  shows "cleaned_up i (mux_catch i wd)"
proof -
  from obs_of_job [OF assms] obtain st pr
    where o: "job_status wd i = Some st" "job_progress wd i = Some pr" by blast
  have f: "files (mux_catch i wd) (videoTempPath i) = None"
          "files (mux_catch i wd) (audioTempPath i) = None"
          "files (mux_catch i wd) (mp4Path i) = None"
          "files (mux_catch i wd) (webmPath i) = None"
    by (simp_all add: mux_catch_def)
  show ?thesis by (simp add: cleaned_up_def f o)
qed

lemma cleaned_up_removed: "cleaned_up i wd \<Longrightarrow> removed i wd \<and> job_status wd i = Some ''failed''"
  by (simp add: cleaned_up_def removed_def)

lemma updateProgress_jobs_None [simp]:
  "jobs (mux_world (updateProgress i s)) i = None \<longleftrightarrow> jobs (mux_world s) i = None"
  by (simp add: updateProgress_def)

text \<open>Every step that takes the download into the \<open>catch\<close> block leaves it cleaned up.\<close>

lemma step_failure_cleaned:
  assumes job: "jobs (mux_world s) i \<noteq> None"
    and before: "mux_phase s \<noteq> MuxFailed" and after: "mux_phase (mux_step i s e) = MuxFailed"
  shows "cleaned_up i (mux_world (mux_step i s e))"
proof (cases e)
  case (MuxEnd sz)
  with job before after show ?thesis
    by (auto simp: mux_step_def mux_ended_def Let_def mux_catch_cleaned split: if_splits option.splits)
next
  case (MuxError sz)
  with job before after show ?thesis
    by (auto simp: mux_step_def Let_def mux_catch_cleaned split: if_splits)
qed (use job before after in \<open>auto simp: mux_step_def video_resolve_def video_reject_def
       audio_resolve_def audio_reject_def both_resolved_def leg_rejected_def
       mux_catch_cleaned split: if_splits\<close>)

lemma start_failure_cleaned:
  assumes job: "jobs w0 i \<noteq> None"
  shows "cleaned_up i (mux_world (startMuxDownload w0 i v a cf None))"
    and "find (\<lambda>f. show_nat (itag_num f) = v) formats = None
           \<or> find (\<lambda>f. show_nat (itag_num f) = a) formats = None
         \<Longrightarrow> cleaned_up i (mux_world (startMuxDownload w0 i v a cf (Some formats)))"
  using assms
  by (auto simp: startMuxDownload_def mux_failed_early_def Let_def mux_catch_cleaned
      split: option.splits)

lemma leg_errors_cleaned:
  assumes "jobs (mux_world s) i \<noteq> None" and "legsStarted s" and "mux_phase s = Fetching"
  shows "videoPromise s = Pending \<Longrightarrow> cleaned_up i (mux_world (mux_step i s VideoError))"
    and "videoPromise s = Pending \<Longrightarrow> cleaned_up i (mux_world (mux_step i s VideoWriteError))"
    and "audioPromise s = Pending \<Longrightarrow> cleaned_up i (mux_world (mux_step i s AudioError))"
    and "audioPromise s = Pending \<Longrightarrow> cleaned_up i (mux_world (mux_step i s AudioWriteError))"
  using assms
  by (simp_all add: mux_step_def video_reject_def audio_reject_def leg_rejected_def mux_catch_cleaned)

lemma mux_errors_cleaned:
  assumes "jobs (mux_world s) i \<noteq> None" and "muxStarted s" and "mux_phase s = Muxing"
  shows "cleaned_up i (mux_world (mux_step i s (MuxError sz)))"
    and "cleaned_up i (mux_world (mux_step i s (MuxEnd None)))"
  using assms
  by (simp_all add: mux_step_def mux_ended_def Let_def mux_catch_cleaned)

lemma start_fetching:
  assumes "jobs w0 i \<noteq> None"
    and "find (\<lambda>f. show_nat (itag_num f) = v) formats \<noteq> None"
    and "find (\<lambda>f. show_nat (itag_num f) = a) formats \<noteq> None"
  shows "fetching i True (startMuxDownload w0 i v a cf (Some formats))"
  using assms by (auto simp: startMuxDownload_def fetching_def Let_def jobs_storage_update)

lemma progress_keeps_fetching:
  assumes "fetching i b s" and "is_progress e"
  shows "fetching i b (mux_step i s e)"
  using assms by (cases e) (auto simp: fetching_def is_progress_def mux_step_def)

lemma progress_run_keeps_fetching:
  assumes "fetching i b s" and "list_all is_progress evs"
  shows "fetching i b (foldl (mux_step i) s evs)"
  using assms by (induction evs arbitrary: s) (simp_all add: progress_keeps_fetching)

lemma audio_finish_fetching:
  assumes "fetching i True s"
  shows "fetching i False (mux_step i s AudioFinish)"
  using assms by (auto simp: fetching_def mux_step_def audio_resolve_def both_resolved_def)

lemma video_error_fails:
  assumes "fetching i False s"
  shows "failed_for_good i (mux_step i s VideoError)"
    and "cleaned_up i (mux_world (mux_step i s VideoError))"
proof -
  from assms have c: "cleaned_up i (mux_world (mux_step i s VideoError))"
    by (intro leg_errors_cleaned) (simp_all add: fetching_def)
  then show "cleaned_up i (mux_world (mux_step i s VideoError))" .
  from assms cleaned_up_removed [OF c] show "failed_for_good i (mux_step i s VideoError)"
    by (simp add: failed_for_good_def)
       (simp add: fetching_def mux_step_def video_reject_def leg_rejected_def)
qed

lemma removed_ops [simp]:
  "removed i (wd\<lparr>clock := t\<rparr>) = removed i wd"
  "removed i (report_progress i q n wd) = removed i wd"
  by (simp_all add: removed_def)

lemma cleaned_up_clock [simp]: "cleaned_up i (wd\<lparr>clock := t\<rparr>) = cleaned_up i wd"
  by (simp add: cleaned_up_def)

lemma updateProgress_removed [simp]:
  "removed i (mux_world (updateProgress i s)) = removed i (mux_world s)"
  by (simp add: updateProgress_def)

text \<open>
  After a failure of the fetch nothing brings the job back: no later event changes its
  status or creates a file. A progress event of a leg, however, still writes a progress.
\<close>

lemma failed_for_good_step:
  assumes "failed_for_good i s"
  shows "failed_for_good i (mux_step i s e)"
  using assms
  by (cases e)
     (auto simp: failed_for_good_def mux_step_def video_resolve_def video_reject_def
        audio_resolve_def audio_reject_def both_resolved_def leg_rejected_def)

lemma failed_for_good_run:
  assumes "failed_for_good i s"
  shows "failed_for_good i (foldl (mux_step i) s evs)"
  using assms by (induction evs arbitrary: s) (simp_all add: failed_for_good_step)

lemma cleaned_up_step:
  assumes "failed_for_good i s" and "cleaned_up i (mux_world s)" and "\<not> is_leg_progress e"
  shows "cleaned_up i (mux_world (mux_step i s e))"
  using assms
  by (cases e)
     (auto simp: failed_for_good_def is_leg_progress_def mux_step_def video_resolve_def
        video_reject_def audio_resolve_def audio_reject_def both_resolved_def leg_rejected_def)

lemma cleaned_up_run:
  assumes "failed_for_good i s" and "cleaned_up i (mux_world s)" and "no_leg_progress evs"
  shows "cleaned_up i (mux_world (foldl (mux_step i) s evs))"
  using assms
proof (induction evs arbitrary: s)
  case Nil
  then show ?case by simp
next
  case (Cons e evs)
  from Cons.prems(3) have e: "\<not> is_leg_progress e" and rest: "no_leg_progress evs"
    by (simp_all add: no_leg_progress_def split: if_splits)
  from Cons.IH [OF failed_for_good_step [OF Cons.prems(1)] cleaned_up_step [OF Cons.prems(1,2) e] rest]
  show ?case by simp
qed

lemma scenario_E:
  assumes "jobs w0 i \<noteq> None"
    and "find (\<lambda>f. show_nat (itag_num f) = v) formats \<noteq> None"
    and "find (\<lambda>f. show_nat (itag_num f) = a) formats \<noteq> None"
    and "list_all is_progress evs1" and "list_all is_progress evs2"
  shows "failed_for_good i
           (run_mux w0 i v a cf (Some formats) (evs1 @ [AudioFinish] @ evs2 @ [VideoError] @ evs3))"
    and "no_leg_progress evs3 \<Longrightarrow>
         cleaned_up i (mux_world
           (run_mux w0 i v a cf (Some formats) (evs1 @ [AudioFinish] @ evs2 @ [VideoError] @ evs3)))"
proof -
  let ?s0 = "startMuxDownload w0 i v a cf (Some formats)"
  let ?s1 = "foldl (mux_step i) ?s0 evs1"
  let ?s2 = "mux_step i ?s1 AudioFinish"
  let ?s3 = "foldl (mux_step i) ?s2 evs2"
  let ?s4 = "mux_step i ?s3 VideoError"
  have run: "run_mux w0 i v a cf (Some formats) (evs1 @ [AudioFinish] @ evs2 @ [VideoError] @ evs3)
               = foldl (mux_step i) ?s4 evs3"
    by (simp add: run_mux_def)
  have "fetching i True ?s0" using assms(1-3) by (rule start_fetching)
  then have "fetching i True ?s1" using assms(4) by (rule progress_run_keeps_fetching)
  then have "fetching i False ?s2" by (rule audio_finish_fetching)
  then have f3: "fetching i False ?s3" using assms(5) by (rule progress_run_keeps_fetching)
  then have f4: "failed_for_good i ?s4" by (rule video_error_fails(1))
  from f3 have c4: "cleaned_up i (mux_world ?s4)" by (rule video_error_fails(2))
  from f4 have "failed_for_good i (foldl (mux_step i) ?s4 evs3)" by (rule failed_for_good_run)
  then show "failed_for_good i
           (run_mux w0 i v a cf (Some formats) (evs1 @ [AudioFinish] @ evs2 @ [VideoError] @ evs3))"
    by (simp only: run)
  assume "no_leg_progress evs3"
  with f4 c4 have "cleaned_up i (mux_world (foldl (mux_step i) ?s4 evs3))" by (rule cleaned_up_run)
  then show "cleaned_up i (mux_world
           (run_mux w0 i v a cf (Some formats) (evs1 @ [AudioFinish] @ evs2 @ [VideoError] @ evs3)))"
    by (simp only: run)
qed

text \<open>
  C5: for a job in the store, every error of a mux download takes it into the \<open>catch\<close>
  block, which leaves no temporary file, no output file under the mp4 or the webm
  extension, and the job failed with progress 0. The errors are: \<open>getInfo\<close> rejects; an
  itag is not in the catalog; the stream or the write stream of a leg fails while both
  legs are awaited and the promise of that leg is pending; ffmpeg fails while it is
  awaited; ffmpeg ends and has left no output file for \<open>statSync\<close>. Every step that
  enters the \<open>catch\<close> block leaves this state. Scenario E: when the audio leg finishes
  and the video leg then fails, with progress events anywhere before, the job is failed
  and the four files are absent whatever events follow, and its progress is 0 unless a
  leg reports progress after the failure.
\<close>

theorem mux_failure_cleanup:
  assumes "jobs (mux_world s) i \<noteq> None" and "jobs w0 i \<noteq> None"
  shows
    "cleaned_up i (mux_world (startMuxDownload w0 i vItag aItag cf None))
   \<and> (find (\<lambda>f. show_nat (itag_num f) = vItag) formats = None
        \<or> find (\<lambda>f. show_nat (itag_num f) = aItag) formats = None
        \<longrightarrow> cleaned_up i (mux_world (startMuxDownload w0 i vItag aItag cf (Some formats))))
   \<and> (legsStarted s \<and> mux_phase s = Fetching \<and> videoPromise s = Pending
        \<longrightarrow> cleaned_up i (mux_world (mux_step i s VideoError))
            \<and> cleaned_up i (mux_world (mux_step i s VideoWriteError)))
   \<and> (legsStarted s \<and> mux_phase s = Fetching \<and> audioPromise s = Pending
        \<longrightarrow> cleaned_up i (mux_world (mux_step i s AudioError))
            \<and> cleaned_up i (mux_world (mux_step i s AudioWriteError)))
   \<and> (muxStarted s \<and> mux_phase s = Muxing
        \<longrightarrow> cleaned_up i (mux_world (mux_step i s (MuxError sz)))
            \<and> cleaned_up i (mux_world (mux_step i s (MuxEnd None))))
   \<and> (mux_phase s \<noteq> MuxFailed \<and> mux_phase (mux_step i s e) = MuxFailed
        \<longrightarrow> cleaned_up i (mux_world (mux_step i s e)))
   \<and> (find (\<lambda>f. show_nat (itag_num f) = vItag) formats \<noteq> None
        \<and> find (\<lambda>f. show_nat (itag_num f) = aItag) formats \<noteq> None
        \<and> list_all is_progress evs1 \<and> list_all is_progress evs2
        \<longrightarrow> job_status (mux_world (run_mux w0 i vItag aItag cf (Some formats)
                          (evs1 @ [AudioFinish] @ evs2 @ [VideoError] @ evs3))) i = Some ''failed''
            \<and> removed i (mux_world (run_mux w0 i vItag aItag cf (Some formats)
                          (evs1 @ [AudioFinish] @ evs2 @ [VideoError] @ evs3)))
            \<and> (no_leg_progress evs3
                 \<longrightarrow> cleaned_up i (mux_world (run_mux w0 i vItag aItag cf (Some formats)
                          (evs1 @ [AudioFinish] @ evs2 @ [VideoError] @ evs3)))))"
proof -
  note s = assms(1) and w = assms(2)
  have c1: "cleaned_up i (mux_world (startMuxDownload w0 i vItag aItag cf None))"
    using w by (rule start_failure_cleaned(1))
  have c2: "find (\<lambda>f. show_nat (itag_num f) = vItag) formats = None
        \<or> find (\<lambda>f. show_nat (itag_num f) = aItag) formats = None
        \<longrightarrow> cleaned_up i (mux_world (startMuxDownload w0 i vItag aItag cf (Some formats)))"
    using start_failure_cleaned(2) [OF w] by blast
  have c3: "legsStarted s \<and> mux_phase s = Fetching \<and> videoPromise s = Pending
        \<longrightarrow> cleaned_up i (mux_world (mux_step i s VideoError))
            \<and> cleaned_up i (mux_world (mux_step i s VideoWriteError))"
    using leg_errors_cleaned(1,2) [OF s] by blast
  have c4: "legsStarted s \<and> mux_phase s = Fetching \<and> audioPromise s = Pending
        \<longrightarrow> cleaned_up i (mux_world (mux_step i s AudioError))
            \<and> cleaned_up i (mux_world (mux_step i s AudioWriteError))"
    using leg_errors_cleaned(3,4) [OF s] by blast
  have c5: "muxStarted s \<and> mux_phase s = Muxing
        \<longrightarrow> cleaned_up i (mux_world (mux_step i s (MuxError sz)))
            \<and> cleaned_up i (mux_world (mux_step i s (MuxEnd None)))"
    using mux_errors_cleaned [OF s] by blast
  have c6: "mux_phase s \<noteq> MuxFailed \<and> mux_phase (mux_step i s e) = MuxFailed
        \<longrightarrow> cleaned_up i (mux_world (mux_step i s e))"
    using step_failure_cleaned [OF s] by blast
  have c7: "find (\<lambda>f. show_nat (itag_num f) = vItag) formats \<noteq> None
        \<and> find (\<lambda>f. show_nat (itag_num f) = aItag) formats \<noteq> None
        \<and> list_all is_progress evs1 \<and> list_all is_progress evs2
        \<longrightarrow> job_status (mux_world (run_mux w0 i vItag aItag cf (Some formats)
                          (evs1 @ [AudioFinish] @ evs2 @ [VideoError] @ evs3))) i = Some ''failed''
            \<and> removed i (mux_world (run_mux w0 i vItag aItag cf (Some formats)
                          (evs1 @ [AudioFinish] @ evs2 @ [VideoError] @ evs3)))
            \<and> (no_leg_progress evs3
                 \<longrightarrow> cleaned_up i (mux_world (run_mux w0 i vItag aItag cf (Some formats)
                          (evs1 @ [AudioFinish] @ evs2 @ [VideoError] @ evs3))))"
    using scenario_E [OF w, where v = vItag and formats = formats and a = aItag and ?evs1.0 = evs1
        and ?evs2.0 = evs2 and cf = cf and ?evs3.0 = evs3]
    by (simp add: failed_for_good_def)
  from c1 c2 c3 c4 c5 c6 c7 show ?thesis by (intro conjI)
qed

lemma sample_muxing_eq:
  "sample_muxing
     = sample_mux_start
         \<lparr> mux_world := set_progress ''job1'' (Num 81) (mux_world sample_mux_start),
           mux_phase := Muxing, videoDownloaded := True, audioDownloaded := True,
           videoPromise := Resolved, audioPromise := Resolved, muxStarted := True \<rparr>"
  by (simp add: sample_muxing_def mux_step_def video_resolve_def audio_resolve_def
      both_resolved_def sample_mux_start_eq)

theorem mux_failure_cleanup_witness:
  "jobs (mux_world sample_mux_start) ''job1'' \<noteq> None \<and> jobs sample_world ''job1'' \<noteq> None
   \<and> cleaned_up ''job1'' (mux_world (startMuxDownload sample_world ''job1'' ''137'' ''251'' ''mp4'' None))
   \<and> find (\<lambda>f. show_nat (itag_num f) = ''140'') sample_catalog = None
   \<and> cleaned_up ''job1'' (mux_world (startMuxDownload sample_world ''job1'' ''137'' ''140'' ''mp4''
        (Some sample_catalog)))
   \<and> legsStarted sample_mux_start \<and> mux_phase sample_mux_start = Fetching
   \<and> videoPromise sample_mux_start = Pending \<and> audioPromise sample_mux_start = Pending
   \<and> cleaned_up ''job1'' (mux_world (mux_step ''job1'' sample_mux_start VideoError))
   \<and> cleaned_up ''job1'' (mux_world (mux_step ''job1'' sample_mux_start AudioWriteError))
   \<and> mux_phase (mux_step ''job1'' sample_mux_start VideoError) = MuxFailed
   \<and> jobs (mux_world sample_muxing) ''job1'' \<noteq> None
   \<and> muxStarted sample_muxing \<and> mux_phase sample_muxing = Muxing
   \<and> cleaned_up ''job1'' (mux_world (mux_step ''job1'' sample_muxing (MuxError (Some 10))))
   \<and> cleaned_up ''job1'' (mux_world (mux_step ''job1'' sample_muxing (MuxEnd None)))
   \<and> find (\<lambda>f. show_nat (itag_num f) = ''137'') sample_catalog \<noteq> None
   \<and> find (\<lambda>f. show_nat (itag_num f) = ''251'') sample_catalog \<noteq> None
   \<and> list_all is_progress [AudioProgress 10 10] \<and> list_all is_progress [VideoProgress 5 10]
   \<and> no_leg_progress [VideoFinish, MuxTick 7]
   \<and> job_status (mux_world (run_mux sample_world ''job1'' ''137'' ''251'' ''mp4'' (Some sample_catalog)
        ([AudioProgress 10 10] @ [AudioFinish] @ [VideoProgress 5 10] @ [VideoError]
           @ [VideoFinish, MuxTick 7]))) ''job1'' = Some ''failed''
   \<and> removed ''job1'' (mux_world (run_mux sample_world ''job1'' ''137'' ''251'' ''mp4''
        (Some sample_catalog)
        ([AudioProgress 10 10] @ [AudioFinish] @ [VideoProgress 5 10] @ [VideoError]
           @ [VideoFinish, MuxTick 7])))
   \<and> cleaned_up ''job1'' (mux_world (run_mux sample_world ''job1'' ''137'' ''251'' ''mp4''
        (Some sample_catalog)
        ([AudioProgress 10 10] @ [AudioFinish] @ [VideoProgress 5 10] @ [VideoError]
           @ [VideoFinish, MuxTick 7])))"
proof -
  have jw: "jobs sample_world ''job1'' \<noteq> None"
    by (simp add: sample_world_def sample_store_job1)
  note j0 = sample_mux_start_job
  have jm: "jobs (mux_world sample_muxing) ''job1'' \<noteq> None"
    using j0 by (simp add: sample_muxing_eq)
  have st: "legsStarted sample_mux_start" "mux_phase sample_mux_start = Fetching"
    "videoPromise sample_mux_start = Pending" "audioPromise sample_mux_start = Pending"
    by (simp_all add: sample_mux_start_eq)
  have mx: "muxStarted sample_muxing" "mux_phase sample_muxing = Muxing"
    by (simp_all add: sample_muxing_eq)
  have fn: "find (\<lambda>f. show_nat (itag_num f) = ''140'') sample_catalog = None"
    by (simp add: sample_catalog_def sample_formats show_nat_samples)
  have fv: "find (\<lambda>f. show_nat (itag_num f) = ''137'') sample_catalog \<noteq> None"
    and fa: "find (\<lambda>f. show_nat (itag_num f) = ''251'') sample_catalog \<noteq> None"
    by (simp_all add: sample_catalog_def sample_formats show_nat_samples)
  have p1: "list_all is_progress [AudioProgress 10 10]"
    and p2: "list_all is_progress [VideoProgress 5 10]"
    by (simp_all add: is_progress_def)
  have p3: "no_leg_progress [VideoFinish, MuxTick 7]"
    by (simp add: no_leg_progress_def is_leg_progress_def)
  note A = mux_failure_cleanup [OF j0 jw, where e = VideoError and vItag = "''137''"
      and aItag = "''251''" and cf = "''mp4''" and formats = sample_catalog
      and ?evs1.0 = "[AudioProgress 10 10]" and ?evs2.0 = "[VideoProgress 5 10]"
      and ?evs3.0 = "[VideoFinish, MuxTick 7]"]
  note A' = mux_failure_cleanup [OF j0 jw, where vItag = "''137''"
      and aItag = "''140''" and cf = "''mp4''" and formats = sample_catalog]
  note B = mux_failure_cleanup [OF jm jw, where sz = "Some 10"]
  have a0: "cleaned_up ''job1'' (mux_world (startMuxDownload sample_world ''job1'' ''137'' ''251'' ''mp4'' None))"
    using A by (rule conjunct1)
  have a0': "cleaned_up ''job1'' (mux_world (startMuxDownload sample_world ''job1'' ''137'' ''140'' ''mp4''
        (Some sample_catalog)))"
    using A' [THEN conjunct2, THEN conjunct1] fn by blast
  have a1: "cleaned_up ''job1'' (mux_world (mux_step ''job1'' sample_mux_start VideoError))"
    using A [THEN conjunct2, THEN conjunct2, THEN conjunct1] st by blast
  have a2: "cleaned_up ''job1'' (mux_world (mux_step ''job1'' sample_mux_start AudioWriteError))"
    using A [THEN conjunct2, THEN conjunct2, THEN conjunct2, THEN conjunct1] st by blast
  have a3: "mux_phase (mux_step ''job1'' sample_mux_start VideoError) = MuxFailed"
    by (simp add: mux_step_def video_reject_def leg_rejected_def st)
  have b: "cleaned_up ''job1'' (mux_world (mux_step ''job1'' sample_muxing (MuxError (Some 10))))"
    "cleaned_up ''job1'' (mux_world (mux_step ''job1'' sample_muxing (MuxEnd None)))"
    using B [THEN conjunct2, THEN conjunct2, THEN conjunct2, THEN conjunct2, THEN conjunct1] mx
    by blast+
  have e: "job_status (mux_world (run_mux sample_world ''job1'' ''137'' ''251'' ''mp4'' (Some sample_catalog)
        ([AudioProgress 10 10] @ [AudioFinish] @ [VideoProgress 5 10] @ [VideoError]
           @ [VideoFinish, MuxTick 7]))) ''job1'' = Some ''failed''
     \<and> removed ''job1'' (mux_world (run_mux sample_world ''job1'' ''137'' ''251'' ''mp4''
        (Some sample_catalog)
        ([AudioProgress 10 10] @ [AudioFinish] @ [VideoProgress 5 10] @ [VideoError]
           @ [VideoFinish, MuxTick 7])))
     \<and> cleaned_up ''job1'' (mux_world (run_mux sample_world ''job1'' ''137'' ''251'' ''mp4''
        (Some sample_catalog)
        ([AudioProgress 10 10] @ [AudioFinish] @ [VideoProgress 5 10] @ [VideoError]
           @ [VideoFinish, MuxTick 7])))"
    using A [THEN conjunct2, THEN conjunct2, THEN conjunct2, THEN conjunct2, THEN conjunct2,
        THEN conjunct2] fv fa p1 p2 p3
    by blast
  from j0 jw a0 fn a0' st a1 a2 a3 jm mx b fv fa p1 p2 p3 e show ?thesis by (intro conjI) blast+
qed


text \<open>
  The \<open>catch\<close> block does not stop the other leg. When the video leg fails while the
  audio leg is still open, a later progress event of the audio leg writes a progress
  again; the status stays \<open>failed\<close> and the files stay removed.
\<close>

lemma progress_after_failure:
  "mux_phase (run_mux sample_world ''job1'' ''137'' ''251'' ''mp4'' (Some sample_catalog)
       [AudioProgress 5 10, VideoProgress 5 10, VideoError, AudioProgress 10 10]) = MuxFailed
   \<and> job_status (mux_world (run_mux sample_world ''job1'' ''137'' ''251'' ''mp4'' (Some sample_catalog)
       [AudioProgress 5 10, VideoProgress 5 10, VideoError, AudioProgress 10 10])) ''job1''
       = Some ''failed''
   \<and> job_progress (mux_world (run_mux sample_world ''job1'' ''137'' ''251'' ''mp4'' (Some sample_catalog)
       [AudioProgress 5 10, VideoProgress 5 10, VideoError, AudioProgress 10 10])) ''job1''
       = Some (Some (Num 60))"
  by (simp add: run_mux_sample sample_mux_start_eq mux_step_def updateProgress_def video_reject_def
      leg_rejected_def overallProgress_samples sample_world_obs)

text \<open>
  For contrast, the run in which nothing fails: ffmpeg reports half of its work, which
  is stored as progress 90, then ends with an output file; the job is completed and the
  temporary files are removed.
\<close>

lemma mux_success_sample:
  "mux_phase (run_mux sample_world ''job1'' ''137'' ''251'' ''mp4'' (Some sample_catalog)
       [VideoFinish, AudioFinish, MuxProgress (Some 50) (Some 500), MuxEnd (Some 1000)]) = MuxCompleted"
  "job_status (mux_world (run_mux sample_world ''job1'' ''137'' ''251'' ''mp4'' (Some sample_catalog)
       [VideoFinish, AudioFinish, MuxProgress (Some 50) (Some 500), MuxEnd (Some 1000)])) ''job1''
     = Some ''completed''"
  "job_progress (mux_world (run_mux sample_world ''job1'' ''137'' ''251'' ''mp4'' (Some sample_catalog)
       [VideoFinish, AudioFinish, MuxProgress (Some 50) (Some 500), MuxEnd (Some 1000)])) ''job1''
     = Some (Some (Num 100))"
  "job_progress (mux_world (run_mux sample_world ''job1'' ''137'' ''251'' ''mp4'' (Some sample_catalog)
       [VideoFinish, AudioFinish, MuxProgress (Some 50) (Some 500)])) ''job1''
     = Some (Some (Num 90))"
  "files (mux_world (run_mux sample_world ''job1'' ''137'' ''251'' ''mp4'' (Some sample_catalog)
       [VideoFinish, AudioFinish, MuxProgress (Some 50) (Some 500), MuxEnd (Some 1000)]))
       (videoTempPath ''job1'') = None"
proof -
  have m: "muxProgress (Some 50) = 90"
    unfolding muxProgress_def by (simp add: percent_or0_def js_eval)
  have p: "videoTempPath ''job1'' \<noteq> ''downloads/job1.mp4''"
    "audioTempPath ''job1'' \<noteq> ''downloads/job1.mp4''"
    by (simp_all add: videoTempPath_def audioTempPath_def tempDir_def path_join_def downloadsDir_def)
  note ev = run_mux_sample sample_muxing_eq [unfolded sample_muxing_def] sample_mux_start_eq
    mux_step_def mux_ended_def Let_def m p p [symmetric] sample_world_obs
  show "mux_phase (run_mux sample_world ''job1'' ''137'' ''251'' ''mp4'' (Some sample_catalog)
       [VideoFinish, AudioFinish, MuxProgress (Some 50) (Some 500), MuxEnd (Some 1000)]) = MuxCompleted"
    by (simp add: ev video_resolve_def audio_resolve_def both_resolved_def)
  show "job_status (mux_world (run_mux sample_world ''job1'' ''137'' ''251'' ''mp4'' (Some sample_catalog)
       [VideoFinish, AudioFinish, MuxProgress (Some 50) (Some 500), MuxEnd (Some 1000)])) ''job1''
     = Some ''completed''"
    by (simp add: ev video_resolve_def audio_resolve_def both_resolved_def)
  show "job_progress (mux_world (run_mux sample_world ''job1'' ''137'' ''251'' ''mp4'' (Some sample_catalog)
       [VideoFinish, AudioFinish, MuxProgress (Some 50) (Some 500), MuxEnd (Some 1000)])) ''job1''
     = Some (Some (Num 100))"
    by (simp add: ev video_resolve_def audio_resolve_def both_resolved_def)
  show "job_progress (mux_world (run_mux sample_world ''job1'' ''137'' ''251'' ''mp4'' (Some sample_catalog)
       [VideoFinish, AudioFinish, MuxProgress (Some 50) (Some 500)])) ''job1''
     = Some (Some (Num 90))"
    by (simp add: ev video_resolve_def audio_resolve_def both_resolved_def)
  show "files (mux_world (run_mux sample_world ''job1'' ''137'' ''251'' ''mp4'' (Some sample_catalog)
       [VideoFinish, AudioFinish, MuxProgress (Some 50) (Some 500), MuxEnd (Some 1000)]))
       (videoTempPath ''job1'') = None"
    by (simp add: ev video_resolve_def audio_resolve_def both_resolved_def)
qed


section \<open>The range of the progress\<close>

text \<open>
  C2, amended: for a job created with progress 0 and events whose values are as the
  collaborators promise them (\<open>wf_event\<close>, \<open>wf_mux_event\<close>), after every sequence of events
  the progress of the job is an integer from 0 to 100. When moreover the events come in
  the order the collaborators promise (no progress of a stream after its end or after
  its write stream has finished, the write stream finishing once, no progress of ffmpeg
  after its end: \<open>dl_protocol\<close>, \<open>mux_protocol\<close>), the progress is 100 whenever the status
  is \<open>completed\<close>, and in the mux path it is 100 only when the status is \<open>completed\<close>.
\<close>

theorem progress_range:
  assumes "jobs w0 i = Some j" and "progress j = Some (Num 0)"
    and "list_all wf_event evs" and "list_all wf_mux_event mevs"
  shows "progress_in_range (dl_world (run_download w0 i req fmt info evs)) i
       \<and> progress_in_range (mux_world (run_mux w0 i vItag aItag clientFormat info mevs)) i
       \<and> (dl_protocol False False False evs
            \<longrightarrow> progress_ok (dl_world (run_download w0 i req fmt info evs)) i)
       \<and> (mux_protocol False False False mevs
            \<longrightarrow> progress_exact (mux_world (run_mux w0 i vItag aItag clientFormat info mevs)) i)"
proof -
  have a: "progress_in_range (dl_world (run_download w0 i req fmt info evs)) i"
    unfolding run_download_def
    using dl_range_start [OF assms(1,2)] assms(3) by (rule dl_run_range)
  have "mux_range i (run_mux w0 i vItag aItag clientFormat info mevs)"
    unfolding run_mux_def
    using mux_range_start [OF assms(1,2)] assms(4) by (rule mux_run_range)
  then have b: "progress_in_range (mux_world (run_mux w0 i vItag aItag clientFormat info mevs)) i"
    by (simp add: mux_range_def)
  have c: "dl_protocol False False False evs
            \<longrightarrow> progress_ok (dl_world (run_download w0 i req fmt info evs)) i"
    unfolding run_download_def
    using dl_run_inv [OF dl_inv_start [OF assms(1,2)] assms(3)] by blast
  have d: "mux_protocol False False False mevs
            \<longrightarrow> progress_exact (mux_world (run_mux w0 i vItag aItag clientFormat info mevs)) i"
    unfolding run_mux_def
    using mux_run_inv [OF mux_inv_start [OF assms(1,2)] assms(4)] by blast
  from a b c d show ?thesis by (intro conjI)
qed

theorem progress_range_witness:
  "jobs sample_world ''job1'' = Some sample_job \<and> progress sample_job = Some (Num 0)
   \<and> list_all wf_event [StreamProgress 500 1000, StreamEnd]
   \<and> list_all wf_mux_event [VideoProgress 5 10, AudioProgress 10 10, AudioFinish, VideoFinish,
         MuxProgress (Some 50) (Some 100), MuxEnd (Some 1000)]
   \<and> dl_protocol False False False [StreamProgress 500 1000, StreamEnd]
   \<and> mux_protocol False False False [VideoProgress 5 10, AudioProgress 10 10, AudioFinish, VideoFinish,
         MuxProgress (Some 50) (Some 100), MuxEnd (Some 1000)]
   \<and> progress_in_range (dl_world (run_download sample_world ''job1'' ''22'' ''mp4''
         (Some [progressive_720p]) [StreamProgress 500 1000, StreamEnd])) ''job1''
   \<and> progress_in_range (mux_world (run_mux sample_world ''job1'' ''137'' ''251'' ''mp4''
         (Some sample_catalog)
         [VideoProgress 5 10, AudioProgress 10 10, AudioFinish, VideoFinish,
          MuxProgress (Some 50) (Some 100), MuxEnd (Some 1000)])) ''job1''
   \<and> progress_ok (dl_world (run_download sample_world ''job1'' ''22'' ''mp4''
         (Some [progressive_720p]) [StreamProgress 500 1000, StreamEnd])) ''job1''
   \<and> progress_exact (mux_world (run_mux sample_world ''job1'' ''137'' ''251'' ''mp4''
         (Some sample_catalog)
         [VideoProgress 5 10, AudioProgress 10 10, AudioFinish, VideoFinish,
          MuxProgress (Some 50) (Some 100), MuxEnd (Some 1000)])) ''job1''
   \<and> list_all wf_event [StreamProgress 5 10, WriteFinish, FfmpegProgress (Some 50) (Some 10),
         FfmpegEnd (Some 20)]
   \<and> dl_protocol False False False [StreamProgress 5 10, WriteFinish,
         FfmpegProgress (Some 50) (Some 10), FfmpegEnd (Some 20)]
   \<and> progress_ok (dl_world (run_download sample_world ''job1'' ''140'' ''mp3'' (Some [aac_audio])
         [StreamProgress 5 10, WriteFinish, FfmpegProgress (Some 50) (Some 10),
          FfmpegEnd (Some 20)])) ''job1''"
proof -
  have h1: "jobs sample_world ''job1'' = Some sample_job"
    by (simp add: sample_world_def sample_store_job1)
  have h2: "progress sample_job = Some (Num 0)"
    by (simp add: sample_job_def createDownload_def sample_insert_def Let_def)
  have h3: "list_all wf_event [StreamProgress 500 1000, StreamEnd]"
    by (simp add: wf_event_def)
  have h4: "list_all wf_mux_event [VideoProgress 5 10, AudioProgress 10 10, AudioFinish, VideoFinish,
         MuxProgress (Some 50) (Some 100), MuxEnd (Some 1000)]"
    by (simp add: wf_mux_event_def percent_or0_def)
  have h5: "dl_protocol False False False [StreamProgress 500 1000, StreamEnd]"
    by (simp add: is_ffmpeg_end_def)
  have h6: "mux_protocol False False False [VideoProgress 5 10, AudioProgress 10 10, AudioFinish,
         VideoFinish, MuxProgress (Some 50) (Some 100), MuxEnd (Some 1000)]"
    by (simp add: is_mux_end_def)
  note R = progress_range [OF h1 h2 h3 h4, where req = "''22''" and fmt = "''mp4''"
      and info = "Some [progressive_720p]"]
  note M = progress_range [OF h1 h2 h3 h4, where vItag = "''137''" and aItag = "''251''"
      and clientFormat = "''mp4''" and info = "Some sample_catalog"]
  have a: "progress_in_range (dl_world (run_download sample_world ''job1'' ''22'' ''mp4''
         (Some [progressive_720p]) [StreamProgress 500 1000, StreamEnd])) ''job1''"
    using R by (rule conjunct1)
  have b: "progress_in_range (mux_world (run_mux sample_world ''job1'' ''137'' ''251'' ''mp4''
         (Some sample_catalog)
         [VideoProgress 5 10, AudioProgress 10 10, AudioFinish, VideoFinish,
          MuxProgress (Some 50) (Some 100), MuxEnd (Some 1000)])) ''job1''"
    using M [THEN conjunct2] by (rule conjunct1)
  have c: "progress_ok (dl_world (run_download sample_world ''job1'' ''22'' ''mp4''
         (Some [progressive_720p]) [StreamProgress 500 1000, StreamEnd])) ''job1''"
    using R [THEN conjunct2, THEN conjunct2, THEN conjunct1] h5 by (rule mp)
  have d: "progress_exact (mux_world (run_mux sample_world ''job1'' ''137'' ''251'' ''mp4''
         (Some sample_catalog)
         [VideoProgress 5 10, AudioProgress 10 10, AudioFinish, VideoFinish,
          MuxProgress (Some 50) (Some 100), MuxEnd (Some 1000)])) ''job1''"
    using M [THEN conjunct2, THEN conjunct2, THEN conjunct2] h6 by (rule mp)
  have h7: "list_all wf_event [StreamProgress 5 10, WriteFinish, FfmpegProgress (Some 50) (Some 10),
         FfmpegEnd (Some 20)]"
    by (simp add: wf_event_def percent_or0_def)
  have h8: "dl_protocol False False False [StreamProgress 5 10, WriteFinish,
         FfmpegProgress (Some 50) (Some 10), FfmpegEnd (Some 20)]"
    by (simp add: is_ffmpeg_end_def)
  have e: "progress_ok (dl_world (run_download sample_world ''job1'' ''140'' ''mp3'' (Some [aac_audio])
         [StreamProgress 5 10, WriteFinish, FfmpegProgress (Some 50) (Some 10),
          FfmpegEnd (Some 20)])) ''job1''"
    using progress_range [OF h1 h2 h7 h4, where req = "''140''" and fmt = "''mp3''"
        and info = "Some [aac_audio]", THEN conjunct2, THEN conjunct2, THEN conjunct1] h8
    by (rule mp)
  from h1 h2 h3 h4 h5 h6 a b c d h7 h8 e show ?thesis by (intro conjI)
qed

end
